(* ===== verification/Prelude.thy ===== *)
theory Prelude
  imports Complex_Main "HOL-Library.AList" "HOL-Library.Char_ord" "HOL-Library.List_Lexorder"
    "HOL-Library.Word"
begin

text \<open>
  Shared vocabulary of the development: the types every component uses (time, ordering,
  results), the collections of simplification facts, decimal rendering of numbers as the
  standard library's formatting and parsing do it, and generic lemmas on association
  lists, sorted maps and options.
\<close>

section \<open>Collections of facts\<close>

named_theorems map_simps
  \<open>look-ups after updates and removals in association lists and sorted maps\<close>

named_theorems frame_simps
  \<open>fields an operation leaves unchanged\<close>

section \<open>Types\<close>

text \<open>
  A monotonic instant and a duration are counted in nanoseconds, the resolution of
  \<^verbatim>\<open>std::time\<close>; wall-clock values are milliseconds since the epoch.
\<close>

type_synonym instant = nat
type_synonym duration = nat
type_synonym millis = nat

definition from_secs :: "nat \<Rightarrow> duration" where
  "from_secs n = n * 1000000000"

definition from_millis :: "nat \<Rightarrow> duration" where
  "from_millis n = n * 1000000"

definition as_millis :: "duration \<Rightarrow> millis" where
  "as_millis d = d div 1000000"

definition as_secs :: "duration \<Rightarrow> nat" where
  "as_secs d = d div 1000000000"

lemma as_millis_from_millis [simp]: "as_millis (from_millis n) = n"
  by (simp add: as_millis_def from_millis_def)

text \<open>\<^verbatim>\<open>Result<T, E>\<close>: the error on the left.\<close>

type_synonym ('e, 'a) result = "'e + 'a"

text \<open>\<^verbatim>\<open>std::cmp::Ordering\<close>.\<close>

datatype ordering = Less | Equal | Greater

fun reverse_ordering :: "ordering \<Rightarrow> ordering" where
  "reverse_ordering Less = Greater"
| "reverse_ordering Equal = Equal"
| "reverse_ordering Greater = Less"

definition cmp :: "'a::linorder \<Rightarrow> 'a \<Rightarrow> ordering" where
  "cmp x y = (if x < y then Less else if x = y then Equal else Greater)"

lemma cmp_simps [simp]:
  "cmp x y = Less \<longleftrightarrow> x < y"
  "cmp x y = Equal \<longleftrightarrow> x = y"
  "cmp x y = Greater \<longleftrightarrow> y < x"
  by (auto simp: cmp_def)

lemma cmp_neq [simp]:
  "cmp x y \<noteq> Less \<longleftrightarrow> y \<le> x"
  "cmp x y \<noteq> Greater \<longleftrightarrow> x \<le> y"
  by (auto simp: cmp_def)

lemma reverse_cmp [simp]: "reverse_ordering (cmp x y) = cmp y x"
  by (auto simp: cmp_def)

section \<open>Decimal rendering\<close>

text \<open>
  \<^verbatim>\<open>format!("{n}")\<close> of an unsigned integer, and the reading of an array index
  (decimal digits, no sign, no leading zero).
\<close>

definition digit_char :: "nat \<Rightarrow> char" where
  "digit_char n = char_of (48 + n)"

definition is_digit :: "char \<Rightarrow> bool" where
  "is_digit c \<longleftrightarrow> 48 \<le> (of_char c :: nat) \<and> (of_char c :: nat) \<le> 57"

definition digit_val :: "char \<Rightarrow> nat" where
  "digit_val c = of_char c - 48"

fun show_nat :: "nat \<Rightarrow> string" where
  "show_nat n = (if n < 10 then [digit_char n]
                 else show_nat (n div 10) @ [digit_char (n mod 10)])"

declare show_nat.simps [simp del]

definition digits_val :: "string \<Rightarrow> nat" where
  "digits_val s = foldl (\<lambda>acc c. 10 * acc + digit_val c) 0 s"

definition all_digits :: "string \<Rightarrow> bool" where
  "all_digits s \<longleftrightarrow> s \<noteq> [] \<and> list_all is_digit s"

definition show_int :: "int \<Rightarrow> string" where
  "show_int i = (if i < 0 then CHR ''-'' # show_nat (nat (- i)) else show_nat (nat i))"

lemma of_char_digit_char [simp]:
  assumes "n < 10" shows "(of_char (digit_char n) :: nat) = 48 + n"
proof -
  have "(48 + n) mod 256 = 48 + n"
    using assms by simp
  then show ?thesis
    by (simp add: digit_char_def)
qed

lemma digit_char_facts [simp]:
  assumes "n < 10"
  shows "is_digit (digit_char n)" and "digit_val (digit_char n) = n"
  using assms by (simp_all add: is_digit_def digit_val_def)

lemma all_digits_show_nat [simp]: "all_digits (show_nat n)"
proof (induction n rule: show_nat.induct)
  case (1 n)
  then show ?case
    by (cases "n < 10") (simp_all add: show_nat.simps [of n] all_digits_def)
qed

lemma show_nat_neq_Nil [simp]: "show_nat n \<noteq> []"
  using all_digits_show_nat [of n] by (simp add: all_digits_def)

lemma digits_val_append: "digits_val (s @ [c]) = 10 * digits_val s + digit_val c"
  by (simp add: digits_val_def)

lemma digits_val_show_nat [simp]: "digits_val (show_nat n) = n"
proof (induction n rule: show_nat.induct)
  case (1 n)
  show ?case
  proof (cases "n < 10")
    case True
    then show ?thesis
      by (simp add: show_nat.simps [of n] digits_val_def)
  next
    case False
    with "1.IH" show ?thesis
      by (simp add: show_nat.simps [of n] digits_val_append)
  qed
qed

lemma show_nat_inject [simp]: "show_nat a = show_nat b \<longleftrightarrow> a = b"
  by (metis digits_val_show_nat)

lemma digit_char_0_eq: "digit_char 0 = CHR ''0''"
  by (simp add: digit_char_def char_of_def bit_iff_odd)

lemma digit_char_0:
  assumes "n < 10" shows "digit_char n = CHR ''0'' \<longleftrightarrow> n = 0"
proof -
  have "digit_char n = digit_char 0 \<longleftrightarrow> n = 0"
    by (metis assms digit_char_facts(2) zero_less_numeral)
  then show ?thesis
    by (simp add: digit_char_0_eq)
qed

lemma hd_show_nat: "n \<noteq> 0 \<Longrightarrow> hd (show_nat n) \<noteq> CHR ''0''"
proof (induction n rule: show_nat.induct)
  case (1 n)
  show ?case
  proof (cases "n < 10")
    case True
    with "1.prems" show ?thesis
      by (simp add: show_nat.simps [of n] digit_char_0)
  next
    case False
    with "1.IH" show ?thesis
      by (simp add: show_nat.simps [of n])
  qed
qed

lemma show_nat_0: "show_nat 0 = ''0''"
  by (simp add: show_nat.simps digit_char_0_eq)

lemma is_digit_specials [simp]:
  "\<not> is_digit (CHR ''/'')" "\<not> is_digit (CHR ''~'')" "\<not> is_digit (CHR ''-'')"
  "\<not> is_digit (CHR ''.'')" "\<not> is_digit (CHR '','')"
  by (simp_all add: is_digit_def)

lemma set_show_nat: "c \<in> set (show_nat n) \<Longrightarrow> is_digit c"
  using all_digits_show_nat [of n] by (auto simp: all_digits_def list_all_iff)

lemma show_nat_not_dash [simp]: "show_nat n \<noteq> ''-''"
  using all_digits_show_nat [of n] by (auto simp: all_digits_def)

lemma upt_Suc_front: "[a..<a + Suc n] = a # [Suc a..<Suc a + n]"
  by (simp add: upt_conv_Cons del: upt_Suc)

section \<open>Sorted maps\<close>

text \<open>
  \<^verbatim>\<open>BTreeMap<K, V>\<close> as an association list with strictly increasing keys: the
  order of the list is the iteration order of the map.
\<close>

definition sorted_map :: "('k::linorder \<times> 'v) list \<Rightarrow> bool" where
  "sorted_map m \<longleftrightarrow> sorted_wrt (<) (map fst m)"

fun map_insert :: "'k::linorder \<Rightarrow> 'v \<Rightarrow> ('k \<times> 'v) list \<Rightarrow> ('k \<times> 'v) list" where
  "map_insert k v [] = [(k, v)]"
| "map_insert k v ((k', v') # m) =
     (if k < k' then (k, v) # (k', v') # m
      else if k = k' then (k, v) # m
      else (k', v') # map_insert k v m)"

definition map_remove :: "'k \<Rightarrow> ('k \<times> 'v) list \<Rightarrow> ('k \<times> 'v) list" where
  "map_remove k m = filter (\<lambda>kv. fst kv \<noteq> k) m"

lemma sorted_map_Nil [simp]: "sorted_map []"
  by (simp add: sorted_map_def)

lemma sorted_map_Cons:
  "sorted_map (kv # m) \<longleftrightarrow> (\<forall>k' \<in> fst ` set m. fst kv < k') \<and> sorted_map m"
  by (auto simp: sorted_map_def)

lemma sorted_map_distinct: "sorted_map m \<Longrightarrow> distinct (map fst m)"
  by (auto simp: sorted_map_def strict_sorted_iff)

lemma keys_map_insert [simp]: "fst ` set (map_insert k v m) = insert k (fst ` set m)"
  by (induction m rule: map_insert.induct) auto

lemma set_map_insert_subset: "set (map_insert k v m) \<subseteq> insert (k, v) (set m)"
  by (induction m rule: map_insert.induct) auto

lemma map_of_map_insert [map_simps, simp]: "map_of (map_insert k v m) = (map_of m)(k \<mapsto> v)"
  by (induction m rule: map_insert.induct) (auto simp: fun_eq_iff)

lemma sorted_map_insert [simp]: "sorted_map m \<Longrightarrow> sorted_map (map_insert k v m)"
  by (induction m rule: map_insert.induct) (auto simp: sorted_map_Cons)

lemma map_of_map_remove [map_simps, simp]: "map_of (map_remove k m) = (map_of m)(k := None)"
  by (induction m) (auto simp: map_remove_def fun_eq_iff)

lemma keys_map_remove [simp]: "fst ` set (map_remove k m) = fst ` set m - {k}"
  by (auto simp: map_remove_def)

lemma set_map_remove_subset: "set (map_remove k m) \<subseteq> set m"
  by (auto simp: map_remove_def)

lemma sorted_map_remove [simp]: "sorted_map m \<Longrightarrow> sorted_map (map_remove k m)"
  by (induction m) (auto simp: map_remove_def sorted_map_Cons)

text \<open>Two sorted maps with the same look-ups are the same list.\<close>

lemma sorted_map_eqI:
  assumes "sorted_map a" and "sorted_map b" and "map_of a = map_of b"
  shows "a = b"
  using assms
proof (induction a arbitrary: b)
  case Nil
  then show ?case
    by (cases b) (auto simp: fun_eq_iff split: if_splits)
next
  case (Cons kv a)
  obtain k v where kv: "kv = (k, v)" by (cases kv)
  from Cons.prems(3) have "b \<noteq> []"
    by (auto simp: kv fun_eq_iff split: if_splits)
  then obtain k' v' b' where b: "b = (k', v') # b'"
    by (cases b) auto
  have keys: "fst ` set (kv # a) = fst ` set b"
    using Cons.prems(3) by (metis dom_map_of_conv_image_fst)
  have "k \<in> fst ` set b" and "k' \<in> fst ` set (kv # a)"
    using keys by (auto simp: kv b)
  then have k: "k = k'"
    using Cons.prems(1,2) by (fastforce simp: kv b sorted_map_Cons)
  from fun_cong [OF Cons.prems(3), of k] have v: "v = v'"
    by (simp add: kv b k)
  have fresh: "map_of a k = None" "map_of b' k = None"
    using Cons.prems(1,2) by (auto simp: kv b k sorted_map_Cons map_of_eq_None_iff)
  have "map_of a = map_of b'"
  proof
    fix x
    show "map_of a x = map_of b' x"
      using fun_cong [OF Cons.prems(3), of x] fresh
      by (cases "x = k") (simp_all add: kv b k)
  qed
  then have "a = b'"
    using Cons by (auto simp: b sorted_map_Cons)
  then show ?case
    by (simp add: kv b k v)
qed

lemma set_delete_subset: "set (AList.delete k m) \<subseteq> set m"
  by (auto simp: AList.delete_eq)

lemma set_update_subset: "set (AList.update k v m) \<subseteq> insert (k, v) (set m)"
  by (induction m) auto

end
