(* ===== verification/Json.thy ===== *)
theory Json
  imports Text
begin

text \<open>
  JSON values as \<^verbatim>\<open>serde_json::Value\<close> has them, with the accessors the source
  calls. An object is a \<^verbatim>\<open>BTreeMap<String, Value>\<close> (the crate is built without
  \<^verbatim>\<open>preserve_order\<close>): a list of entries with increasing keys. A number is an
  integer or a finite 64-bit float; floats are their rational values.
\<close>

section \<open>Values\<close>

datatype jnum = NInt int | NFlt rat

datatype json =
    JNull
  | JBool bool
  | JNum jnum
  | JStr string
  | JArr "json list"
  | JObj "(string \<times> json) list"

type_synonym obj = "(string \<times> json) list"

abbreviation jint :: "int \<Rightarrow> json" where
  "jint i \<equiv> JNum (NInt i)"

lemma size_json_elem: "x \<in> set xs \<Longrightarrow> size x < size (JArr xs)"
  by (induction xs) auto

lemma size_json_entry: "kv \<in> set m \<Longrightarrow> size (snd kv) < size (JObj m)"
  by (induction m) auto

text \<open>
  Every object in the value has increasing keys. This is what a \<^verbatim>\<open>BTreeMap\<close>
  guarantees by construction.
\<close>

function wf_json :: "json \<Rightarrow> bool" where
  "wf_json JNull = True"
| "wf_json (JBool b) = True"
| "wf_json (JNum n) = True"
| "wf_json (JStr s) = True"
| "wf_json (JArr xs) = list_all wf_json xs"
| "wf_json (JObj m) = (sorted_map m \<and> list_all (\<lambda>kv. wf_json (snd kv)) m)"
  by pat_completeness auto
termination
proof (relation "measure size", goal_cases)
  case (2 xs x)
  then show ?case using size_json_elem [of x xs] by simp
next
  case (3 m kv)
  then show ?case using size_json_entry [of kv m] by simp
qed simp

definition wf_obj :: "obj \<Rightarrow> bool" where
  "wf_obj m \<longleftrightarrow> sorted_map m \<and> (\<forall>kv \<in> set m. wf_json (snd kv))"

lemma wf_json_JObj [simp]: "wf_json (JObj m) \<longleftrightarrow> wf_obj m"
  by (simp add: wf_obj_def list_all_iff)

lemma wf_json_JArr [simp]: "wf_json (JArr xs) \<longleftrightarrow> (\<forall>x \<in> set xs. wf_json x)"
  by (simp add: list_all_iff)

declare wf_json.simps(5,6) [simp del]

text \<open>The value of an optional field and of a natural number.\<close>

definition json_option :: "('v \<Rightarrow> json) \<Rightarrow> 'v option \<Rightarrow> json" where
  "json_option f x = (case x of None \<Rightarrow> JNull | Some v \<Rightarrow> f v)"

definition jnat :: "nat \<Rightarrow> json" where
  "jnat n = jint (int n)"

lemma wf_jnat [simp]: "wf_json (jnat n)"
  by (simp add: jnat_def)

lemma wf_obj_Nil [simp]: "wf_obj []"
  by (simp add: wf_obj_def)

lemma wf_obj_sorted: "wf_obj m \<Longrightarrow> sorted_map m"
  by (simp add: wf_obj_def)

lemma wf_obj_lookup: "wf_obj m \<Longrightarrow> map_of m k = Some v \<Longrightarrow> wf_json v"
  by (force simp: wf_obj_def dest: map_of_SomeD)

lemma wf_obj_insert [simp]: "wf_obj m \<Longrightarrow> wf_json v \<Longrightarrow> wf_obj (map_insert k v m)"
  using set_map_insert_subset [of k v m] by (fastforce simp: wf_obj_def)

lemma wf_obj_remove [simp]: "wf_obj m \<Longrightarrow> wf_obj (map_remove k m)"
  using set_map_remove_subset [of k m] by (auto simp: wf_obj_def)

section \<open>Accessors\<close>

fun json_get :: "json \<Rightarrow> string \<Rightarrow> json option" where
  "json_get (JObj m) k = map_of m k"
| "json_get _ k = None"

definition json_index :: "json \<Rightarrow> string \<Rightarrow> json" where
  "json_index v k = (case json_get v k of None \<Rightarrow> JNull | Some x \<Rightarrow> x)"

fun as_str :: "json \<Rightarrow> string option" where
  "as_str (JStr s) = Some s"
| "as_str _ = None"

fun as_bool :: "json \<Rightarrow> bool option" where
  "as_bool (JBool b) = Some b"
| "as_bool _ = None"

fun num_as_i64 :: "jnum \<Rightarrow> int option" where
  "num_as_i64 (NInt i) = (if - (2 ^ 63) \<le> i \<and> i < 2 ^ 63 then Some i else None)"
| "num_as_i64 (NFlt f) = None"

fun as_u64 :: "json \<Rightarrow> nat option" where
  "as_u64 (JNum (NInt i)) = (if 0 \<le> i \<and> i < 2 ^ 64 then Some (nat i) else None)"
| "as_u64 _ = None"

section \<open>Numbers as 64-bit floats\<close>

text \<open>
  \<^verbatim>\<open>as_f64()\<close>: an integer of more than 53 significant bits is rounded to the
  nearest float, ties to even.
\<close>

fun bit_length :: "nat \<Rightarrow> nat" where
  "bit_length n = (if n = 0 then 0 else Suc (bit_length (n div 2)))"

declare bit_length.simps [simp del]

definition round_f64 :: "nat \<Rightarrow> nat" where
  "round_f64 a =
     (let k = bit_length a - 53;
          q = a div 2 ^ k;
          r = a mod 2 ^ k
      in if k = 0 then a
         else if 2 * r > 2 ^ k \<or> (2 * r = 2 ^ k \<and> odd q) then (q + 1) * 2 ^ k
         else q * 2 ^ k)"

definition f64_of_int :: "int \<Rightarrow> rat" where
  "f64_of_int i = of_int (sgn i * int (round_f64 (nat \<bar>i\<bar>)))"

fun num_as_f64 :: "jnum \<Rightarrow> rat" where
  "num_as_f64 (NInt i) = f64_of_int i"
| "num_as_f64 (NFlt f) = f"

lemma bit_length_le: "a < 2 ^ n \<Longrightarrow> bit_length a \<le> n"
proof (induction n arbitrary: a)
  case 0
  then show ?case by (simp add: bit_length.simps)
next
  case (Suc n)
  then have "a div 2 < 2 ^ n" by (simp add: less_mult_imp_div_less)
  then have "bit_length (a div 2) \<le> n" by (rule Suc.IH)
  then show ?case by (simp add: bit_length.simps [of a])
qed

lemma round_f64_small: "a < 2 ^ 53 \<Longrightarrow> round_f64 a = a"
  using bit_length_le [of a 53] by (simp add: round_f64_def Let_def)

lemma f64_of_int_small:
  assumes "\<bar>i\<bar> < 2 ^ 53" shows "f64_of_int i = of_int i"
proof -
  have "nat \<bar>i\<bar> < 2 ^ 53" using assms by simp
  then have "round_f64 (nat \<bar>i\<bar>) = nat \<bar>i\<bar>" by (rule round_f64_small)
  then have "sgn i * int (round_f64 (nat \<bar>i\<bar>)) = i" by (simp add: sgn_mult_abs)
  then show ?thesis by (simp only: f64_of_int_def)
qed

end
