(* ===== verification/Json_Patch.thy ===== *)
theory Json_Patch
  imports Json
begin

text \<open>
  The contract of the wire format: JSON Pointer (RFC 6901) and the three JSON Patch
  operations (RFC 6902) that the server emits, as a client applies them. This is the
  specification the diff engine is proved against; it is not code of the repository.
\<close>

section \<open>Pointers\<close>

fun escape_token :: "string \<Rightarrow> string" where
  "escape_token [] = []"
| "escape_token (c # s) =
     (if c = CHR ''~'' then ''~0'' else if c = CHR ''/'' then ''~1'' else [c]) @ escape_token s"

fun unescape_token :: "string \<Rightarrow> string" where
  "unescape_token [] = []"
| "unescape_token (c # s) =
     (case s of
        [] \<Rightarrow> [c]
      | d # t \<Rightarrow>
          if c = CHR ''~'' \<and> d = CHR ''0'' then CHR ''~'' # unescape_token t
          else if c = CHR ''~'' \<and> d = CHR ''1'' then CHR ''/'' # unescape_token t
          else c # unescape_token s)"

lemma unescape_escape [simp]: "unescape_token (escape_token s) = s"
proof (induction s)
  case (Cons c s)
  then show ?case
    by (cases "escape_token s") auto
qed simp

lemma slash_notin_escape [simp]: "CHR ''/'' \<notin> set (escape_token s)"
  by (induction s) auto

lemma escape_show_nat [simp]: "escape_token (show_nat n) = show_nat n"
proof -
  have "list_all is_digit s \<Longrightarrow> escape_token s = s" for s
    by (induction s) auto
  then show ?thesis
    using all_digits_show_nat [of n] by (simp add: all_digits_def)
qed

text \<open>The pointer of a list of reference tokens, and its reading.\<close>

definition mk_pointer :: "string list \<Rightarrow> string" where
  "mk_pointer ts = concat (map (\<lambda>t. CHR ''/'' # escape_token t) ts)"

definition parse_pointer :: "string \<Rightarrow> string list option" where
  "parse_pointer s =
     (case s of
        [] \<Rightarrow> Some []
      | c # s' \<Rightarrow> if c = CHR ''/'' then Some (map unescape_token (split_on (CHR ''/'') s')) else None)"

lemma mk_pointer_Nil [simp]: "mk_pointer [] = []"
  by (simp add: mk_pointer_def)

lemma mk_pointer_snoc: "mk_pointer (ts @ [t]) = mk_pointer ts @ CHR ''/'' # escape_token t"
  by (simp add: mk_pointer_def)

lemma split_mk_pointer:
  "split_on (CHR ''/'') (escape_token t @ mk_pointer ts) = escape_token t # map escape_token ts"
proof (induction ts arbitrary: t)
  case (Cons u ts)
  have "escape_token t @ mk_pointer (u # ts)
      = escape_token t @ CHR ''/'' # (escape_token u @ mk_pointer ts)"
    by (simp add: mk_pointer_def)
  then show ?case
    using Cons.IH [of u] by (simp add: split_on_append)
qed simp

lemma parse_mk_pointer [simp]: "parse_pointer (mk_pointer ts) = Some ts"
proof (cases ts)
  case (Cons t us)
  then have "mk_pointer ts = CHR ''/'' # (escape_token t @ mk_pointer us)"
    by (simp add: mk_pointer_def)
  then show ?thesis
    using Cons by (simp add: parse_pointer_def split_mk_pointer o_def)
qed (simp add: parse_pointer_def)

section \<open>Operations\<close>

datatype patch_op =
    PAdd "string list" json
  | PRemove "string list"
  | PReplace "string list" json

text \<open>An array index: decimal digits without a leading zero.\<close>

definition parse_index :: "string \<Rightarrow> nat option" where
  "parse_index t =
     (if all_digits t \<and> (t = ''0'' \<or> hd t \<noteq> CHR ''0'') then Some (digits_val t) else None)"

lemma parse_index_show_nat [simp]: "parse_index (show_nat n) = Some n"
  by (cases "n = 0") (simp_all add: parse_index_def show_nat_0 [symmetric] hd_show_nat)

definition insert_at :: "nat \<Rightarrow> 'a \<Rightarrow> 'a list \<Rightarrow> 'a list" where
  "insert_at i x xs = take i xs @ x # drop i xs"

definition remove_at :: "nat \<Rightarrow> 'a list \<Rightarrow> 'a list" where
  "remove_at i xs = take i xs @ drop (Suc i) xs"

text \<open>The operation at the container that holds the last token of the pointer.\<close>

fun add_member :: "string \<Rightarrow> json \<Rightarrow> json \<Rightarrow> json option" where
  "add_member t v (JObj m) = Some (JObj (map_insert t v m))"
| "add_member t v (JArr xs) =
     (if t = ''-'' then Some (JArr (xs @ [v]))
      else (case parse_index t of
              None \<Rightarrow> None
            | Some i \<Rightarrow> if i \<le> length xs then Some (JArr (insert_at i v xs)) else None))"
| "add_member t v _ = None"

fun remove_member :: "string \<Rightarrow> json \<Rightarrow> json option" where
  "remove_member t (JObj m) =
     (if map_of m t = None then None else Some (JObj (map_remove t m)))"
| "remove_member t (JArr xs) =
     (case parse_index t of
        None \<Rightarrow> None
      | Some i \<Rightarrow> if i < length xs then Some (JArr (remove_at i xs)) else None)"
| "remove_member t _ = None"

text \<open>Rewriting the member a token names; it has to exist.\<close>

fun update_member :: "string \<Rightarrow> (json \<Rightarrow> json option) \<Rightarrow> json \<Rightarrow> json option" where
  "update_member t f (JObj m) =
     (case map_of m t of
        None \<Rightarrow> None
      | Some c \<Rightarrow> map_option (\<lambda>c'. JObj (map_insert t c' m)) (f c))"
| "update_member t f (JArr xs) =
     (case parse_index t of
        None \<Rightarrow> None
      | Some i \<Rightarrow> if i < length xs then map_option (\<lambda>c'. JArr (xs[i := c'])) (f (xs ! i)) else None)"
| "update_member t f _ = None"

fun at_path :: "(string \<Rightarrow> json \<Rightarrow> json option) \<Rightarrow> string list \<Rightarrow> json \<Rightarrow> json option" where
  "at_path f [] d = None"
| "at_path f [t] d = f t d"
| "at_path f (t # u # ts) d = update_member t (at_path f (u # ts)) d"

fun apply_op :: "patch_op \<Rightarrow> json \<Rightarrow> json option" where
  "apply_op (PAdd p v) d = (if p = [] then Some v else at_path (\<lambda>t. add_member t v) p d)"
| "apply_op (PRemove p) d = at_path remove_member p d"
| "apply_op (PReplace p v) d =
     (if p = [] then Some v else at_path (\<lambda>t. update_member t (\<lambda>_. Some v)) p d)"

fun apply_ops :: "patch_op list \<Rightarrow> json \<Rightarrow> json option" where
  "apply_ops [] d = Some d"
| "apply_ops (p # ps) d = Option.bind (apply_op p d) (apply_ops ps)"

declare apply_op.simps [simp del]

lemma apply_ops_append: "apply_ops (ps @ qs) d = Option.bind (apply_ops ps d) (apply_ops qs)"
proof (induction ps arbitrary: d)
  case (Cons p ps)
  then show ?case by (cases "apply_op p d") simp_all
qed simp

section \<open>Patch documents\<close>

text \<open>A patch is an array of objects with the members \<open>op\<close>, \<open>path\<close>, \<open>value\<close>.\<close>

definition decode_op :: "json \<Rightarrow> patch_op option" where
  "decode_op j =
     Option.bind (Option.bind (json_get j ''path'') as_str) (\<lambda>s.
     Option.bind (parse_pointer s) (\<lambda>p.
     Option.bind (Option.bind (json_get j ''op'') as_str) (\<lambda>k.
       if k = ''remove'' then Some (PRemove p)
       else Option.bind (json_get j ''value'') (\<lambda>v.
         if k = ''add'' then Some (PAdd p v)
         else if k = ''replace'' then Some (PReplace p v)
         else None))))"

fun apply_patch :: "json list \<Rightarrow> json \<Rightarrow> json option" where
  "apply_patch [] d = Some d"
| "apply_patch (j # js) d =
     Option.bind (decode_op j) (\<lambda>p. Option.bind (apply_op p d) (apply_patch js))"

lemma apply_patch_append:
  "apply_patch (js @ ks) d = Option.bind (apply_patch js d) (apply_patch ks)"
  by (induction js arbitrary: d) (auto split: bind_splits)

lemma apply_patch_decode:
  "map decode_op js = map Some ps \<Longrightarrow> apply_patch js d = apply_ops ps d"
proof (induction js arbitrary: ps d)
  case (Cons j js)
  then obtain p qs where "ps = p # qs" "decode_op j = Some p" "map decode_op js = map Some qs"
    by (auto simp: Cons_eq_map_conv)
  then show ?case
    using Cons.IH [of qs] by (cases "apply_op p d") simp_all
qed simp

section \<open>Operations below a member\<close>

text \<open>
  An operation inside a member is the operation on the member's value. At the member
  itself this holds for \<open>replace\<close> only: \<open>add\<close> and \<open>remove\<close> change the
  container.
\<close>

fun lift_op :: "string \<Rightarrow> patch_op \<Rightarrow> patch_op" where
  "lift_op t (PAdd p v) = PAdd (t # p) v"
| "lift_op t (PRemove p) = PRemove (t # p)"
| "lift_op t (PReplace p v) = PReplace (t # p) v"

fun inner_op :: "patch_op \<Rightarrow> bool" where
  "inner_op (PAdd p v) \<longleftrightarrow> p \<noteq> []"
| "inner_op (PRemove p) \<longleftrightarrow> p \<noteq> []"
| "inner_op (PReplace p v) \<longleftrightarrow> True"

definition prefix_op :: "string list \<Rightarrow> patch_op \<Rightarrow> patch_op" where
  "prefix_op ts = foldr lift_op ts"

lemma prefix_op_simps [simp]:
  "prefix_op ts (PAdd p v) = PAdd (ts @ p) v"
  "prefix_op ts (PRemove p) = PRemove (ts @ p)"
  "prefix_op ts (PReplace p v) = PReplace (ts @ p) v"
  by (induction ts) (simp_all add: prefix_op_def)

lemma prefix_op_Nil [simp]: "prefix_op [] = id"
  by (simp add: prefix_op_def fun_eq_iff)

lemma prefix_op_snoc: "prefix_op (ts @ [t]) q = prefix_op ts (lift_op t q)"
  by (simp add: prefix_op_def)

lemma inner_lift_op [simp]: "inner_op (lift_op t p)"
  by (cases p) auto

lemma apply_lift_op: "inner_op p \<Longrightarrow> apply_op (lift_op t p) d = update_member t (apply_op p) d"
proof (cases p)
  case (PReplace q v)
  then show ?thesis by (cases q; cases d) (auto simp: apply_op.simps split: option.splits)
qed (cases d; auto simp: apply_op.simps neq_Nil_conv split: option.splits)+

lemma update_member_JObj [simp]:
  "map_of m t = Some c \<Longrightarrow>
     update_member t f (JObj m) = map_option (\<lambda>c'. JObj (map_insert t c' m)) (f c)"
  by simp

lemma map_insert_idem: "sorted_map m \<Longrightarrow> map_of m t = Some c \<Longrightarrow> map_insert t c m = m"
  by (rule sorted_map_eqI) (auto simp: fun_eq_iff)

lemma map_insert_twice: "sorted_map m \<Longrightarrow> map_insert t b (map_insert t a m) = map_insert t b m"
  by (rule sorted_map_eqI) auto

lemma apply_ops_in_object:
  assumes "sorted_map m" and "map_of m t = Some c" and "list_all inner_op ps"
    and "apply_ops ps c = Some c'"
  shows "apply_ops (map (lift_op t) ps) (JObj m) = Some (JObj (map_insert t c' m))"
  using assms
proof (induction ps arbitrary: m c)
  case Nil
  then show ?case by (simp add: map_insert_idem)
next
  case (Cons p ps)
  then obtain c1 where c1: "apply_op p c = Some c1" "apply_ops ps c1 = Some c'"
    by (auto simp: bind_eq_Some_conv)
  from Cons.IH [of "map_insert t c1 m" c1] Cons.prems c1
  show ?case
    by (simp add: apply_lift_op map_insert_twice)
qed

lemma apply_ops_in_array:
  assumes "i < length xs" and "list_all inner_op ps" and "apply_ops ps (xs ! i) = Some c'"
  shows "apply_ops (map (lift_op (show_nat i)) ps) (JArr xs) = Some (JArr (xs[i := c']))"
  using assms
proof (induction ps arbitrary: xs)
  case (Cons p ps)
  then obtain c1 where c1: "apply_op p (xs ! i) = Some c1" "apply_ops ps c1 = Some c'"
    by (auto simp: bind_eq_Some_conv)
  from Cons.IH [of "xs[i := c1]"] Cons.prems c1
  show ?case
    by (simp add: apply_lift_op)
qed (metis apply_ops.simps(1) list.simps(8) list_update_id option.inject)

end
