(* ===== verification/Diff.thy ===== *)
theory Diff
  imports Json_Patch "HOL-Library.Sublist"
begin

text \<open>
  The JSON-Patch diff engine, \<^verbatim>\<open>crates/colyseus/src/diff.rs\<close>. The functions
  return the operations the source pushes, in order. The theorems: a patch of
  \<open>diff old new\<close> turns \<open>old\<close> into \<open>new\<close> exactly, it is empty only when
  nothing changed, and the walk of the LCS table emits the least possible number of
  removals and insertions.
\<close>

section \<open>The engine\<close>

definition LCS_MAX_CELLS :: nat where
  "LCS_MAX_CELLS = 8192"

definition escape :: "string \<Rightarrow> string" where
  "escape seg = replace_char (CHR ''/'') ''~1'' (replace_char (CHR ''~'') ''~0'' seg)"

definition diff_op :: "string \<Rightarrow> string \<Rightarrow> json option \<Rightarrow> json" where
  "diff_op kind path value =
     (let o1 = map_insert ''op'' (JStr kind) [];
          o2 = map_insert ''path'' (JStr path) o1
      in JObj (case value of Some v \<Rightarrow> map_insert ''value'' v o2 | None \<Rightarrow> o2))"

definition child_path :: "string \<Rightarrow> string \<Rightarrow> string" where
  "child_path path seg = path @ ''/'' @ seg"

text \<open>
  The table \<^verbatim>\<open>dp\<close>: row \<open>i\<close>, column \<open>j\<close> is the length of the longest common
  subsequence of \<open>old[i..]\<close> and \<open>new[j..]\<close>. Rows are filled from the last one
  upwards, each from its last cell leftwards.
\<close>

fun lcs_row :: "json \<Rightarrow> json list \<Rightarrow> nat list \<Rightarrow> nat list" where
  "lcs_row x [] below = [0]"
| "lcs_row x (y # ys) below =
     (let right = lcs_row x ys (tl below)
      in (if x = y then hd (tl below) + 1 else max (hd below) (hd right)) # right)"

fun lcs_table :: "json list \<Rightarrow> json list \<Rightarrow> nat list list" where
  "lcs_table [] new = [replicate (length new + 1) 0]"
| "lcs_table (x # old) new = (let below = lcs_table old new in lcs_row x new (hd below) # below)"

text \<open>The walk; the three loops of the source are the three guards.\<close>

function lcs_walk ::
  "json list \<Rightarrow> json list \<Rightarrow> nat list list \<Rightarrow> string \<Rightarrow> nat \<Rightarrow> nat \<Rightarrow> nat \<Rightarrow> json list" where
  "lcs_walk old new dp path i j cur =
     (if i < length old \<and> j < length new then
        if old ! i = new ! j then lcs_walk old new dp path (i + 1) (j + 1) (cur + 1)
        else if dp ! (i + 1) ! j \<ge> dp ! i ! (j + 1) then
          diff_op ''remove'' (child_path path (show_nat cur)) None
            # lcs_walk old new dp path (i + 1) j cur
        else
          diff_op ''add'' (child_path path (show_nat cur)) (Some (new ! j))
            # lcs_walk old new dp path i (j + 1) (cur + 1)
      else if i < length old then
        diff_op ''remove'' (child_path path (show_nat cur)) None
          # lcs_walk old new dp path (i + 1) j cur
      else if j < length new then
        diff_op ''add'' (child_path path (show_nat cur)) (Some (new ! j))
          # lcs_walk old new dp path i (j + 1) (cur + 1)
      else [])"
  by pat_completeness auto
termination
  by (relation "measure (\<lambda>(old, new, dp, path, i, j, cur).
        (length old - i) + (length new - j))") auto

declare lcs_walk.simps [simp del]

definition diff_array_lcs :: "json list \<Rightarrow> json list \<Rightarrow> string \<Rightarrow> json list" where
  "diff_array_lcs old new path = lcs_walk old new (lcs_table old new) path 0 0 0"

definition aligned :: "json list \<Rightarrow> json list \<Rightarrow> nat" where
  "aligned old new = length (filter (\<lambda>(o1, n1). o1 = n1) (zip old new))"

text \<open>
  \<^verbatim>\<open>diff_value\<close>, \<^verbatim>\<open>diff_object\<close>, \<^verbatim>\<open>diff_array\<close> and
  \<^verbatim>\<open>diff_array_positional\<close> call each other. \<open>enumerate_pairs\<close> is
  \<^verbatim>\<open>old.iter().zip(new.iter()).enumerate()\<close>.
\<close>

definition enumerate_pairs :: "json list \<Rightarrow> json list \<Rightarrow> (nat \<times> json \<times> json) list" where
  "enumerate_pairs old new = zip [0..<length new] (zip old new)"

lemma enumerate_pairs_size:
  "(i, o1, n1) \<in> set (enumerate_pairs old new) \<Longrightarrow> size n1 < size (JArr new)"
  unfolding enumerate_pairs_def by (blast dest: set_zip_rightD size_json_elem)

function diff_value :: "json \<Rightarrow> json \<Rightarrow> string \<Rightarrow> json list"
  and diff_object :: "obj \<Rightarrow> obj \<Rightarrow> string \<Rightarrow> json list"
  and diff_array :: "json list \<Rightarrow> json list \<Rightarrow> string \<Rightarrow> json list"
  and diff_array_positional :: "json list \<Rightarrow> json list \<Rightarrow> string \<Rightarrow> json list"
  where
  "diff_value old new path =
     (if old = new then []
      else case (old, new) of
          (JObj m, JObj n) \<Rightarrow> diff_object m n path
        | (JArr xs, JArr ys) \<Rightarrow> diff_array xs ys path
        | _ \<Rightarrow> [diff_op ''replace'' path (Some new)])"
| "diff_object old new path =
     concat (map (\<lambda>(key, oval).
         if map_of new key = None
         then [diff_op ''remove'' (child_path path (escape key)) None]
         else []) old)
     @ concat (map (\<lambda>(key, nval).
         let child = child_path path (escape key)
         in case map_of old key of
              None \<Rightarrow> [diff_op ''add'' child (Some nval)]
            | Some oval \<Rightarrow> diff_value oval nval child) new)"
| "diff_array old new path =
     (if length old = length new \<and> (aligned old new * 2 \<ge> length old \<or> length old \<le> 8)
      then concat (map (\<lambda>(i, o1, n1). diff_value o1 n1 (child_path path (show_nat i)))
             (enumerate_pairs old new))
      else if length old * length new > LCS_MAX_CELLS
      then diff_array_positional old new path
      else diff_array_lcs old new path)"
| "diff_array_positional old new path =
     (let overlap = min (length old) (length new)
      in concat (map (\<lambda>(i, o1, n1). diff_value o1 n1 (child_path path (show_nat i)))
           (enumerate_pairs old new))
         @ map (\<lambda>_. diff_op ''remove'' (child_path path (show_nat overlap)) None)
             [overlap..<length old]
         @ map (\<lambda>(j, item). diff_op ''add'' (child_path path (show_nat j)) (Some item))
             (drop overlap (zip [0..<length new] new)))"
  by pat_completeness auto
termination
proof (relation "measure (\<lambda>x. case x of
      Inl (Inl (old, new, path)) \<Rightarrow> 3 * size new
    | Inl (Inr (old, new, path)) \<Rightarrow> 3 * size (JObj new) - 1
    | Inr (Inl (old, new, path)) \<Rightarrow> 3 * size (JArr new) - 1
    | Inr (Inr (old, new, path)) \<Rightarrow> 3 * size (JArr new) - 2)", goal_cases)
  case 1
  show ?case by simp
next
  case (2 old new path x y xs ys)
  then have "new = JArr ys" by simp
  then show ?case by simp
next
  case (3 old new path x y xs ys)
  then have "new = JObj ys" by simp
  then show ?case by simp
next
  case (4 old new path x key nval)
  then have "(key, nval) \<in> set new" by simp
  then have "size nval < size (JObj new)"
    using size_json_entry [of "(key, nval)" new] by simp
  then show ?case by simp
next
  case (5 old new path x i y o1 n1)
  then have "size n1 < size (JArr new)"
    using enumerate_pairs_size [of i o1 n1 old new] by simp
  then show ?case by simp
next
  case (6 old new path)
  show ?case by simp
next
  case (7 old new path)
  then show ?case
    using enumerate_pairs_size by fastforce
qed

declare diff_value.simps [simp del] diff_object.simps [simp del]
  diff_array.simps [simp del] diff_array_positional.simps [simp del]

definition diff :: "json \<Rightarrow> json \<Rightarrow> json list" where
  "diff old new = diff_value old new []"

section \<open>What one emitted operation does\<close>

lemma escape_eq [simp]: "escape s = escape_token s"
  by (induction s) (auto simp: escape_def)

lemma child_path_token [simp]:
  "child_path (mk_pointer ts) (escape_token k) = mk_pointer (ts @ [k])"
  by (simp add: child_path_def mk_pointer_snoc)

lemma child_path_index [simp]:
  "child_path (mk_pointer ts) (show_nat i) = mk_pointer (ts @ [show_nat i])"
  using child_path_token [of ts "show_nat i"] by (simp del: child_path_token)

lemma decode_diff_op [simp]:
  "decode_op (diff_op ''remove'' (mk_pointer ts) None) = Some (PRemove ts)"
  "decode_op (diff_op ''add'' (mk_pointer ts) (Some v)) = Some (PAdd ts v)"
  "decode_op (diff_op ''replace'' (mk_pointer ts) (Some v)) = Some (PReplace ts v)"
  by (simp_all add: decode_op_def diff_op_def Let_def)

text \<open>
  \<open>patches ts js a b\<close>: the operations \<open>js\<close>, read below the pointer \<open>ts\<close>,
  turn \<open>a\<close> into \<open>b\<close>.
\<close>

definition patches :: "string list \<Rightarrow> json list \<Rightarrow> json \<Rightarrow> json \<Rightarrow> bool" where
  "patches ts js a b \<longleftrightarrow>
     (\<exists>ps. map decode_op js = map (\<lambda>q. Some (prefix_op ts q)) ps
         \<and> list_all inner_op ps \<and> apply_ops ps a = Some b)"

lemma patches_Nil [simp]: "patches ts [] d d"
  by (auto simp: patches_def intro!: exI [of _ "[]"])

lemma patches_append:
  assumes "patches ts js a b" and "patches ts ks b c"
  shows "patches ts (js @ ks) a c"
proof -
  from assms obtain ps qs where
    "map decode_op js = map (\<lambda>q. Some (prefix_op ts q)) ps" "list_all inner_op ps"
    "apply_ops ps a = Some b"
    "map decode_op ks = map (\<lambda>q. Some (prefix_op ts q)) qs" "list_all inner_op qs"
    "apply_ops qs b = Some c"
    by (auto simp: patches_def)
  then show ?thesis
    unfolding patches_def by (intro exI [of _ "ps @ qs"]) (simp add: apply_ops_append)
qed

lemma patches_Cons:
  "patches ts [j] a b \<Longrightarrow> patches ts js b c \<Longrightarrow> patches ts (j # js) a c"
  using patches_append [of ts "[j]" a b js c] by simp

lemma patchesI:
  "decode_op j = Some (prefix_op ts p) \<Longrightarrow> inner_op p \<Longrightarrow> apply_op p a = Some b
     \<Longrightarrow> patches ts [j] a b"
  unfolding patches_def by (intro exI [of _ "[p]"]) simp

lemma patches_replace: "patches ts [diff_op ''replace'' (mk_pointer ts) (Some v)] d v"
  by (rule patchesI [where p = "PReplace [] v"]) (simp_all add: apply_op.simps)

lemma patches_add_key:
  "patches ts [diff_op ''add'' (mk_pointer (ts @ [k])) (Some v)] (JObj m) (JObj (map_insert k v m))"
  by (rule patchesI [where p = "PAdd [k] v"]) (simp_all add: apply_op.simps)

lemma patches_remove_key:
  "map_of m k \<noteq> None \<Longrightarrow>
     patches ts [diff_op ''remove'' (mk_pointer (ts @ [k])) None] (JObj m) (JObj (map_remove k m))"
  by (rule patchesI [where p = "PRemove [k]"]) (auto simp add: apply_op.simps)

lemma patches_insert:
  "i \<le> length xs \<Longrightarrow>
     patches ts [diff_op ''add'' (mk_pointer (ts @ [show_nat i])) (Some v)]
       (JArr xs) (JArr (insert_at i v xs))"
  by (rule patchesI [where p = "PAdd [show_nat i] v"]) (simp_all add: apply_op.simps)

lemma patches_delete:
  "i < length xs \<Longrightarrow>
     patches ts [diff_op ''remove'' (mk_pointer (ts @ [show_nat i])) None]
       (JArr xs) (JArr (remove_at i xs))"
  by (rule patchesI [where p = "PRemove [show_nat i]"]) (simp_all add: apply_op.simps)

lemma patches_lift:
  assumes "patches (ts @ [t]) js c c'"
  obtains ps where "map decode_op js = map (\<lambda>q. Some (prefix_op ts q)) (map (lift_op t) ps)"
    "list_all inner_op ps" "apply_ops ps c = Some c'"
  using assms by (auto simp: patches_def prefix_op_snoc o_def)

lemma patches_member:
  assumes "patches (ts @ [k]) js c c'" and "sorted_map m" and "map_of m k = Some c"
  shows "patches ts js (JObj m) (JObj (map_insert k c' m))"
  using assms(1)
proof (rule patches_lift)
  fix ps
  assume "map decode_op js = map (\<lambda>q. Some (prefix_op ts q)) (map (lift_op k) ps)"
    and inner: "list_all inner_op ps" "apply_ops ps c = Some c'"
  moreover have "list_all inner_op (map (lift_op k) ps)"
    by (simp add: list_all_iff)
  ultimately show ?thesis
    unfolding patches_def using apply_ops_in_object [OF assms(2,3) inner] by blast
qed

lemma patches_element:
  assumes "patches (ts @ [show_nat i]) js (xs ! i) c'" and "i < length xs"
  shows "patches ts js (JArr xs) (JArr (xs[i := c']))"
  using assms(1)
proof (rule patches_lift)
  fix ps
  assume "map decode_op js = map (\<lambda>q. Some (prefix_op ts q)) (map (lift_op (show_nat i)) ps)"
    and inner: "list_all inner_op ps" "apply_ops ps (xs ! i) = Some c'"
  moreover have "list_all inner_op (map (lift_op (show_nat i)) ps)"
    by (simp add: list_all_iff)
  ultimately show ?thesis
    unfolding patches_def using apply_ops_in_array [OF assms(2) inner] by blast
qed

section \<open>Objects\<close>

lemma patches_removals:
  assumes "distinct (map fst rest)" and "sorted_map m"
    and "\<And>k. k \<in> fst ` set rest \<Longrightarrow> map_of m k \<noteq> None"
  shows "\<exists>m'. patches ts
      (concat (map (\<lambda>(key, oval).
         if map_of new key = None
         then [diff_op ''remove'' (child_path (mk_pointer ts) (escape key)) None]
         else []) rest)) (JObj m) (JObj m')
    \<and> sorted_map m'
    \<and> map_of m' = (\<lambda>k. if k \<in> fst ` set rest \<and> map_of new k = None then None else map_of m k)"
  using assms
proof (induction rest arbitrary: m)
  case Nil
  then show ?case by (intro exI [of _ m]) simp
next
  case (Cons kv rest)
  obtain k v where kv: "kv = (k, v)" by (cases kv)
  show ?case
  proof (cases "map_of new k")
    case None
    have "map_of (map_remove k m) k' \<noteq> None" if "k' \<in> fst ` set rest" for k'
      using that Cons.prems(1) Cons.prems(3) [of k'] by (cases "k' = k") (simp_all add: kv)
    with Cons.IH [of "map_remove k m"] Cons.prems(1,2) obtain m' where m':
      "patches ts (concat (map (\<lambda>(key, oval).
         if map_of new key = None
         then [diff_op ''remove'' (child_path (mk_pointer ts) (escape key)) None]
         else []) rest)) (JObj (map_remove k m)) (JObj m')" "sorted_map m'"
      "map_of m' = (\<lambda>k'. if k' \<in> fst ` set rest \<and> map_of new k' = None then None
                      else map_of (map_remove k m) k')"
      by auto
    have "patches ts [diff_op ''remove'' (mk_pointer (ts @ [k])) None] (JObj m) (JObj (map_remove k m))"
      using Cons.prems(3) [of k] by (intro patches_remove_key) (simp add: kv)
    from patches_Cons [OF this m'(1)] m'(2,3) None show ?thesis
      by (intro exI [of _ m']) (auto simp: kv fun_eq_iff)
  next
    case (Some w)
    with Cons.IH [of m] Cons.prems obtain m' where
      "patches ts (concat (map (\<lambda>(key, oval).
         if map_of new key = None
         then [diff_op ''remove'' (child_path (mk_pointer ts) (escape key)) None]
         else []) rest)) (JObj m) (JObj m')" "sorted_map m'"
      "map_of m' = (\<lambda>k'. if k' \<in> fst ` set rest \<and> map_of new k' = None then None
                      else map_of m k')"
      by auto
    with Some show ?thesis
      by (intro exI [of _ m']) (auto simp: kv fun_eq_iff)
  qed
qed

lemma patches_members:
  assumes "distinct (map fst rest)" and "sorted_map m"
    and "\<And>k. k \<in> fst ` set rest \<Longrightarrow> map_of m k = map_of old k"
    and "\<And>k v w. (k, v) \<in> set rest \<Longrightarrow> map_of old k = Some w \<Longrightarrow>
           patches (ts @ [k]) (diff_value w v (mk_pointer (ts @ [k]))) w v"
  shows "\<exists>m'. patches ts
      (concat (map (\<lambda>(key, nval).
         let child = child_path (mk_pointer ts) (escape key)
         in case map_of old key of
              None \<Rightarrow> [diff_op ''add'' child (Some nval)]
            | Some oval \<Rightarrow> diff_value oval nval child) rest)) (JObj m) (JObj m')
    \<and> sorted_map m'
    \<and> map_of m' = (\<lambda>k. case map_of rest k of Some v \<Rightarrow> Some v | None \<Rightarrow> map_of m k)"
  using assms
proof (induction rest arbitrary: m)
  case Nil
  then show ?case by (intro exI [of _ m]) simp
next
  case (Cons kv rest)
  obtain k v where kv: "kv = (k, v)" by (cases kv)
  define js where "js = (case map_of old k of
      None \<Rightarrow> [diff_op ''add'' (mk_pointer (ts @ [k])) (Some v)]
    | Some w \<Rightarrow> diff_value w v (mk_pointer (ts @ [k])))"
  have step: "patches ts js (JObj m) (JObj (map_insert k v m))"
  proof (cases "map_of old k")
    case None
    then show ?thesis by (simp add: js_def patches_add_key)
  next
    case (Some w)
    then have "map_of m k = Some w"
      using Cons.prems(3) [of k] by (simp add: kv)
    with Some Cons.prems(2,4) show ?thesis
      by (auto simp: js_def kv intro: patches_member)
  qed
  have "map_of (map_insert k v m) k' = map_of old k'" if "k' \<in> fst ` set rest" for k'
    using that Cons.prems(1) Cons.prems(3) [of k'] by (cases "k' = k") (simp_all add: kv)
  with Cons.IH [of "map_insert k v m"] Cons.prems(1,2,4) obtain m' where m':
    "patches ts (concat (map (\<lambda>(key, nval).
         let child = child_path (mk_pointer ts) (escape key)
         in case map_of old key of
              None \<Rightarrow> [diff_op ''add'' child (Some nval)]
            | Some oval \<Rightarrow> diff_value oval nval child) rest)) (JObj (map_insert k v m)) (JObj m')"
    "sorted_map m'"
    "map_of m' = (\<lambda>k'. case map_of rest k' of Some v' \<Rightarrow> Some v' | None \<Rightarrow> map_of (map_insert k v m) k')"
    by (auto simp: kv)
  have "map_of rest k = None"
    using Cons.prems(1) by (simp add: kv map_of_eq_None_iff)
  with patches_append [OF step m'(1)] m'(2,3) show ?case
    by (intro exI [of _ m']) (auto simp: kv js_def fun_eq_iff split: option.splits)
qed

lemma patches_object:
  assumes "wf_obj old" and "wf_obj new"
    and "\<And>k v w. (k, v) \<in> set new \<Longrightarrow> map_of old k = Some w \<Longrightarrow>
           patches (ts @ [k]) (diff_value w v (mk_pointer (ts @ [k]))) w v"
  shows "patches ts (diff_object old new (mk_pointer ts)) (JObj old) (JObj new)"
proof -
  have sorted: "sorted_map old" "sorted_map new"
    using assms(1,2) by (auto simp: wf_obj_def)
  have keys: "\<And>k. k \<in> fst ` set old \<Longrightarrow> map_of old k \<noteq> None"
    by (simp add: map_of_eq_None_iff)
  obtain m where m:
    "patches ts (concat (map (\<lambda>(key, oval).
         if map_of new key = None
         then [diff_op ''remove'' (child_path (mk_pointer ts) (escape key)) None]
         else []) old)) (JObj old) (JObj m)" "sorted_map m"
    "map_of m = (\<lambda>k. if k \<in> fst ` set old \<and> map_of new k = None then None else map_of old k)"
    using patches_removals [OF sorted_map_distinct [OF sorted(1)] sorted(1) keys, of ts new]
    by auto
  have same: "\<And>k. k \<in> fst ` set new \<Longrightarrow> map_of m k = map_of old k"
    by (simp add: m(3) map_of_eq_None_iff)
  obtain m' where m':
    "patches ts (concat (map (\<lambda>(key, nval).
         let child = child_path (mk_pointer ts) (escape key)
         in case map_of old key of
              None \<Rightarrow> [diff_op ''add'' child (Some nval)]
            | Some oval \<Rightarrow> diff_value oval nval child) new)) (JObj m) (JObj m')"
    "sorted_map m'"
    "map_of m' = (\<lambda>k. case map_of new k of Some v \<Rightarrow> Some v | None \<Rightarrow> map_of m k)"
    using patches_members [OF sorted_map_distinct [OF sorted(2)] m(2) same assms(3)]
    by blast
  have "map_of m' = map_of new"
    by (auto simp: m'(3) m(3) fun_eq_iff map_of_eq_None_iff [THEN iffD2] split: option.splits)
  then have "m' = new"
    using m'(2) sorted(2) by (intro sorted_map_eqI)
  with patches_append [OF m(1) m'(1)] show ?thesis
    by (simp only: diff_object.simps)
qed

section \<open>Arrays\<close>

text \<open>Position by position, over the common prefix of two arrays.\<close>

lemma zip_upt_Cons:
  "zip [k..<k + length (y # ys)] (zip (x # xs) (y # ys))
     = (k, x, y) # zip [Suc k..<Suc k + length ys] (zip xs ys)"
  unfolding length_Cons upt_Suc_front by (simp del: upt_Suc)

lemma patches_positions:
  assumes "\<And>o1 n1 i. (o1, n1) \<in> set (zip xs ys) \<Longrightarrow>
      patches (ts @ [show_nat i]) (diff_value o1 n1 (mk_pointer (ts @ [show_nat i]))) o1 n1"
  shows "patches ts
      (concat (map (\<lambda>(i, o1, n1). diff_value o1 n1 (child_path (mk_pointer ts) (show_nat i)))
         (zip [length pre..<length pre + length ys] (zip xs ys))))
      (JArr (pre @ xs)) (JArr (pre @ take (length xs) ys @ drop (length ys) xs))"
  using assms
proof (induction xs arbitrary: ys pre)
  case Nil
  then show ?case by simp
next
  case (Cons x xs)
  show ?case
  proof (cases ys)
    case Nil
    then show ?thesis by simp
  next
    case (Cons y ys')
    have "patches (ts @ [show_nat (length pre)])
        (diff_value x y (mk_pointer (ts @ [show_nat (length pre)]))) x y"
      using Cons.prems by (simp add: Cons)
    then have first: "patches ts (diff_value x y (mk_pointer (ts @ [show_nat (length pre)])))
        (JArr (pre @ x # xs)) (JArr ((pre @ [y]) @ xs))"
      using patches_element [of ts "length pre" _ "pre @ x # xs" y] by simp
    have "patches ts
        (concat (map (\<lambda>(i, o1, n1). diff_value o1 n1 (child_path (mk_pointer ts) (show_nat i)))
           (zip [length (pre @ [y])..<length (pre @ [y]) + length ys'] (zip xs ys'))))
        (JArr ((pre @ [y]) @ xs))
        (JArr ((pre @ [y]) @ take (length xs) ys' @ drop (length ys') xs))"
      using Cons.prems by (intro Cons.IH) (simp add: Cons)
    from patches_append [OF first this] show ?thesis
      by (simp only: Cons zip_upt_Cons) simp
  qed
qed

lemma patches_enumerate:
  assumes "\<And>o1 n1 i. (o1, n1) \<in> set (zip xs ys) \<Longrightarrow>
      patches (ts @ [show_nat i]) (diff_value o1 n1 (mk_pointer (ts @ [show_nat i]))) o1 n1"
  shows "patches ts
      (concat (map (\<lambda>(i, o1, n1). diff_value o1 n1 (child_path (mk_pointer ts) (show_nat i)))
         (enumerate_pairs xs ys)))
      (JArr xs) (JArr (take (length xs) ys @ drop (length ys) xs))"
  using patches_positions [OF assms, where pre = "[]"] by (simp add: enumerate_pairs_def)

lemma remove_at_append [simp]: "remove_at (length xs) (xs @ y # ys) = xs @ ys"
  by (simp add: remove_at_def)

lemma insert_at_append [simp]: "insert_at (length xs) y (xs @ ys) = xs @ y # ys"
  by (simp add: insert_at_def)

lemma patches_truncate:
  "patches ts (map (\<lambda>_. diff_op ''remove'' (child_path (mk_pointer ts) (show_nat (length pre))) None)
     [a..<a + length rest]) (JArr (pre @ rest)) (JArr pre)"
proof (induction rest arbitrary: a)
  case (Cons x rest)
  have first: "patches ts [diff_op ''remove'' (mk_pointer (ts @ [show_nat (length pre)])) None]
      (JArr (pre @ x # rest)) (JArr (pre @ rest))"
    using patches_delete [of "length pre" "pre @ x # rest" ts] by simp
  have eq: "[a..<a + length (x # rest)] = a # [Suc a..<Suc a + length rest]"
    unfolding length_Cons by (rule upt_Suc_front)
  show ?case
    unfolding eq list.map using patches_Cons [OF first Cons.IH [of "Suc a"]] by simp
qed simp

lemma patches_extend:
  "patches ts (map (\<lambda>(j, item). diff_op ''add'' (child_path (mk_pointer ts) (show_nat j)) (Some item))
     (zip [length pre..<length pre + length rest] rest)) (JArr pre) (JArr (pre @ rest))"
proof (induction rest arbitrary: pre)
  case (Cons x rest)
  have first: "patches ts [diff_op ''add'' (mk_pointer (ts @ [show_nat (length pre)])) (Some x)]
      (JArr pre) (JArr (pre @ [x]))"
    using patches_insert [of "length pre" pre ts x] insert_at_append [of pre x "[]"] by simp
  have eq: "zip [length pre..<length pre + length (x # rest)] (x # rest)
      = (length pre, x) # zip [length (pre @ [x])..<length (pre @ [x]) + length rest] rest"
    unfolding length_Cons upt_Suc_front by (simp del: upt_Suc)
  show ?case
    unfolding eq list.map using patches_Cons [OF first Cons.IH [of "pre @ [x]"]] by simp
qed simp

lemma patches_positional:
  assumes "\<And>o1 n1 i. (o1, n1) \<in> set (zip old new) \<Longrightarrow>
      patches (ts @ [show_nat i]) (diff_value o1 n1 (mk_pointer (ts @ [show_nat i]))) o1 n1"
  shows "patches ts (diff_array_positional old new (mk_pointer ts)) (JArr old) (JArr new)"
proof -
  let ?k = "min (length old) (length new)"
  let ?both = "take (length old) new" and ?rest = "drop (length new) old"
  have k: "length ?both = ?k" by simp
  have cut: "patches ts (map (\<lambda>_. diff_op ''remove'' (child_path (mk_pointer ts) (show_nat ?k)) None)
      [?k..<length old]) (JArr (?both @ ?rest)) (JArr ?both)"
    using patches_truncate [of ts ?both ?k ?rest] unfolding k by (simp add: min_def split: if_splits)
  have suffix: "drop ?k (zip [0..<length new] new)
      = zip [length ?both..<length ?both + length (drop (length old) new)] (drop (length old) new)"
    by (simp add: drop_zip min_def)
  have "patches ts (map (\<lambda>(j, item). diff_op ''add'' (child_path (mk_pointer ts) (show_nat j)) (Some item))
      (drop ?k (zip [0..<length new] new))) (JArr ?both) (JArr new)"
    unfolding suffix using patches_extend [of ts ?both "drop (length old) new"] by simp
  then show ?thesis
    unfolding diff_array_positional.simps Let_def
    by (intro patches_append [OF patches_enumerate [OF assms]] patches_append [OF cut])
qed

text \<open>
  The walk keeps the array at \<open>new[..j] ++ old[i..]\<close> and its cursor at \<open>j\<close>,
  whatever the table holds.
\<close>

lemma patches_walk:
  assumes "i \<le> length old" and "j \<le> length new"
  shows "patches ts (lcs_walk old new dp (mk_pointer ts) i j j)
      (JArr (take j new @ drop i old)) (JArr new)"
  using assms
proof (induction "(length old - i) + (length new - j)" arbitrary: i j rule: less_induct)
  case less
  have del: "patches ts [diff_op ''remove'' (mk_pointer (ts @ [show_nat j])) None]
      (JArr (take j new @ drop i old)) (JArr (take j new @ drop (Suc i) old))"
    if "i < length old"
    using patches_delete [of j "take j new @ drop i old" ts] less.prems that
      remove_at_append [of "take j new" "old ! i" "drop (Suc i) old"]
    by (simp add: Cons_nth_drop_Suc min_absorb2)
  have ins: "patches ts [diff_op ''add'' (mk_pointer (ts @ [show_nat j])) (Some (new ! j))]
      (JArr (take j new @ drop i old)) (JArr (take (Suc j) new @ drop i old))"
    if "j < length new"
    using patches_insert [of j "take j new @ drop i old" ts "new ! j"] that
      insert_at_append [of "take j new" "new ! j" "drop i old"]
    by (simp add: take_Suc_conv_app_nth min_absorb2)
  have keep: "take (Suc j) new @ drop (Suc i) old = take j new @ drop i old"
    if "i < length old" "j < length new" "old ! i = new ! j"
    using that by (simp add: take_Suc_conv_app_nth) (metis Cons_nth_drop_Suc)
  have D: "patches ts (diff_op ''remove'' (mk_pointer (ts @ [show_nat j])) None
      # lcs_walk old new dp (mk_pointer ts) (Suc i) j j) (JArr (take j new @ drop i old)) (JArr new)"
    if "i < length old"
    using less.prems that by (intro patches_Cons [OF del] less.hyps) auto
  have A: "patches ts (diff_op ''add'' (mk_pointer (ts @ [show_nat j])) (Some (new ! j))
      # lcs_walk old new dp (mk_pointer ts) i (Suc j) (Suc j)) (JArr (take j new @ drop i old)) (JArr new)"
    if "j < length new"
    using less.prems that by (intro patches_Cons [OF ins] less.hyps) auto
  have K: "patches ts (lcs_walk old new dp (mk_pointer ts) (Suc i) (Suc j) (Suc j))
      (JArr (take j new @ drop i old)) (JArr new)"
    if "i < length old" "j < length new" "old ! i = new ! j"
    using less.prems that less.hyps [of "Suc i" "Suc j"] keep by simp
  have "i = length old \<and> j = length new \<or> i < length old \<or> j < length new"
    using less.prems by linarith
  then show ?case
    by (subst lcs_walk.simps) (use D A K in auto)
qed

lemma patches_lcs: "patches ts (diff_array_lcs old new (mk_pointer ts)) (JArr old) (JArr new)"
  using patches_walk [of 0 old 0 new ts] by (simp add: diff_array_lcs_def)

lemma patches_array:
  assumes "\<And>o1 n1 i. (o1, n1) \<in> set (zip old new) \<Longrightarrow>
      patches (ts @ [show_nat i]) (diff_value o1 n1 (mk_pointer (ts @ [show_nat i]))) o1 n1"
  shows "patches ts (diff_array old new (mk_pointer ts)) (JArr old) (JArr new)"
proof -
  have "length old = length new \<Longrightarrow> patches ts
      (concat (map (\<lambda>(i, o1, n1). diff_value o1 n1 (child_path (mk_pointer ts) (show_nat i)))
         (enumerate_pairs old new))) (JArr old) (JArr new)"
    using patches_enumerate [of old new ts, OF assms] by simp
  then show ?thesis
    using patches_positional [of old new ts, OF assms] patches_lcs [of ts old new]
    by (simp add: diff_array.simps del: child_path_index)
qed

section \<open>Correctness\<close>

lemma patches_diff_value:
  "wf_json old \<Longrightarrow> wf_json new \<Longrightarrow> patches ts (diff_value old new (mk_pointer ts)) old new"
proof (induction "size new" arbitrary: old new ts rule: less_induct)
  case less
  have members: "patches (ts @ [k]) (diff_value w v (mk_pointer (ts @ [k]))) w v"
    if "old = JObj m" "new = JObj n" "(k, v) \<in> set n" "map_of m k = Some w" for m n k v w
    using less.prems that size_json_entry [of "(k, v)" n]
    by (intro less.hyps) (force simp: wf_obj_def dest: map_of_SomeD)+
  have elements: "patches (ts @ [show_nat i]) (diff_value o1 n1 (mk_pointer (ts @ [show_nat i]))) o1 n1"
    if "old = JArr xs" "new = JArr ys" "(o1, n1) \<in> set (zip xs ys)" for xs ys o1 n1 i
    using less.prems that size_json_elem [of n1 ys]
    by (intro less.hyps) (auto dest: set_zip_leftD set_zip_rightD)
  show ?case
    using less.prems
    by (cases old; cases new)
      (auto simp: diff_value.simps patches_replace intro: patches_object members patches_array elements)
qed

lemma patches_apply: "patches [] js a b \<Longrightarrow> apply_patch js a = Some b"
  by (auto simp: patches_def intro!: apply_patch_decode [THEN trans])

lemma apply_patch_diff:
  "wf_json old \<Longrightarrow> wf_json new \<Longrightarrow> apply_patch (diff old new) old = Some new"
  using patches_apply [OF patches_diff_value, of old new] by (simp add: diff_def mk_pointer_def)

text \<open>
  C1. The patch of \<open>diff old new\<close>, applied by a standard JSON-Patch client to
  \<open>old\<close>, succeeds and yields \<open>new\<close>: whatever the shapes of the two values
  (objects, arrays of every size, nested values, keys with slashes and tildes).
\<close>

theorem diff_correct:
  assumes "wf_json old" and "wf_json new"
  shows "apply_patch (diff old new) old = Some new"
  using assms by (rule apply_patch_diff)

theorem diff_correct_witness:
  "apply_patch
     (diff (JObj [(''a/b'', JArr [jint 1, jint 2, jint 3]), (''c'', JNull)])
           (JObj [(''a/b'', JArr [jint 1, jint 3]), (''d'', JBool True)]))
     (JObj [(''a/b'', JArr [jint 1, jint 2, jint 3]), (''c'', JNull)])
   = Some (JObj [(''a/b'', JArr [jint 1, jint 3]), (''d'', JBool True)])"
  by (rule diff_correct) (simp_all add: wf_obj_def sorted_map_def)

lemma diff_Nil_iff:
  assumes "wf_json old" and "wf_json new"
  shows "diff old new = [] \<longleftrightarrow> old = new"
proof
  assume "diff old new = []"
  with apply_patch_diff [OF assms] show "old = new"
    by simp
qed (simp add: diff_def diff_value.simps)

section \<open>The walk of the table is optimal\<close>

text \<open>The textbook recursion for the length of a longest common subsequence.\<close>

fun lcs :: "'a list \<Rightarrow> 'a list \<Rightarrow> nat" where
  "lcs [] ys = 0"
| "lcs xs [] = 0"
| "lcs (x # xs) (y # ys) =
     (if x = y then lcs xs ys + 1 else max (lcs xs (y # ys)) (lcs (x # xs) ys))"

lemma lcs_Nil_right [simp]: "lcs xs [] = 0"
  by (cases xs) simp_all

definition common_subseq :: "'a list \<Rightarrow> 'a list \<Rightarrow> 'a list \<Rightarrow> bool" where
  "common_subseq zs xs ys \<longleftrightarrow> subseq zs xs \<and> subseq zs ys"

lemma lcs_attained: "\<exists>zs. common_subseq zs xs ys \<and> length zs = lcs xs ys"
proof (induction xs ys rule: lcs.induct)
  case (3 x xs y ys)
  show ?case
  proof (cases "x = y")
    case True
    with 3(1) obtain zs where "common_subseq zs xs ys" "length zs = lcs xs ys" by auto
    with True show ?thesis
      by (intro exI [of _ "x # zs"]) (simp add: common_subseq_def)
  next
    case False
    with 3(2,3) obtain us vs where
      "common_subseq us xs (y # ys)" "length us = lcs xs (y # ys)"
      "common_subseq vs (x # xs) ys" "length vs = lcs (x # xs) ys" by auto
    with False show ?thesis
      by (intro exI [of _ "if length us \<ge> length vs then us else vs"])
        (auto simp: common_subseq_def)
  qed
qed (auto simp: common_subseq_def)

lemma lcs_upper: "common_subseq zs xs ys \<Longrightarrow> length zs \<le> lcs xs ys"
proof (induction xs ys arbitrary: zs rule: lcs.induct)
  case (3 x xs y ys)
  show ?case
  proof (cases zs)
    case (Cons z zs')
    consider "x = y" "z = x" | "x = y" "z \<noteq> x" | "x \<noteq> y" "z \<noteq> x" | "x \<noteq> y" "z \<noteq> y" by auto
    then show ?thesis
    proof cases
      case 1
      with 3(1) [of zs'] 3(4) show ?thesis by (auto simp: Cons common_subseq_def)
    next
      case 2
      with 3(4) have "common_subseq zs' xs ys"
        by (auto simp: Cons common_subseq_def dest: subseq_Cons')
      moreover have "common_subseq zs xs ys"
        using 2 3(4) by (auto simp: Cons common_subseq_def)
      ultimately show ?thesis using 2 3(1) [of zs] by simp
    next
      case 3
      then have "common_subseq zs xs (y # ys)"
        using "3.prems" by (auto simp: Cons common_subseq_def)
      with 3 "3.IH"(2) [of zs] show ?thesis by simp
    next
      case 4
      then have "common_subseq zs (x # xs) ys"
        using "3.prems" by (auto simp: Cons common_subseq_def)
      with 4 "3.IH"(3) [of zs] show ?thesis by simp
    qed
  qed simp
qed (auto simp: common_subseq_def)

lemma lcs_row_eq:
  assumes "below = map (\<lambda>j. lcs xs (drop j ys)) [0..<Suc (length ys)]"
  shows "lcs_row x ys below = map (\<lambda>j. lcs (x # xs) (drop j ys)) [0..<Suc (length ys)]"
  using assms
proof (induction ys arbitrary: below)
  case (Cons y ys)
  have shift: "map (\<lambda>j. f (drop j (y # ys))) [0..<Suc (length (y # ys))]
      = f (y # ys) # map (\<lambda>j. f (drop j ys)) [0..<Suc (length ys)]" for f :: "json list \<Rightarrow> nat"
  proof -
    have "[0..<Suc (length (y # ys))] = 0 # map Suc [0..<Suc (length ys)]"
      by (simp only: map_Suc_upt length_Cons) (simp add: upt_conv_Cons del: upt_Suc)
    then show ?thesis by (simp del: upt_Suc)
  qed
  note below = Cons.prems [unfolded shift [of "lcs xs"]]
  have IH: "lcs_row x ys (tl below) = map (\<lambda>j. lcs (x # xs) (drop j ys)) [0..<Suc (length ys)]"
    by (rule Cons.IH) (simp add: below del: upt_Suc)
  have front: "hd (map (\<lambda>j. g (drop j ys)) [0..<Suc (length ys)]) = g ys"
    for g :: "json list \<Rightarrow> nat"
    by (simp add: upt_conv_Cons del: upt_Suc)
  show ?case
    unfolding shift [of "lcs (x # xs)"] lcs_row.simps Let_def IH
    unfolding below list.sel front by simp
qed simp

lemma lcs_table_eq:
  "lcs_table old new
     = map (\<lambda>i. map (\<lambda>j. lcs (drop i old) (drop j new)) [0..<Suc (length new)])
         [0..<Suc (length old)]"
proof (induction old)
  case Nil
  show ?case by (simp add: map_replicate_const del: upt_Suc)
next
  case (Cons x old)
  have shift: "[0..<Suc (length (x # old))] = 0 # map Suc [0..<Suc (length old)]"
    by (simp only: map_Suc_upt length_Cons) (simp add: upt_conv_Cons del: upt_Suc)
  have "hd (lcs_table old new) = map (\<lambda>j. lcs old (drop j new)) [0..<Suc (length new)]"
    by (simp add: Cons.IH upt_conv_Cons del: upt_Suc)
  from lcs_row_eq [OF this, of x] show ?case
    unfolding shift by (simp add: Cons.IH Let_def comp_def del: upt_Suc)
qed

lemma lcs_table_nth:
  assumes "i \<le> length old" and "j \<le> length new"
  shows "lcs_table old new ! i ! j = lcs (drop i old) (drop j new)"
proof -
  have "i < length [0..<Suc (length old)]" "j < length [0..<Suc (length new)]"
    using assms by simp_all
  then show ?thesis
    by (simp add: lcs_table_eq del: upt_Suc)
qed

lemma lcs_drop_step:
  assumes "i < length old" and "j < length new"
  shows "lcs (drop i old) (drop j new) =
     (if old ! i = new ! j then lcs (drop (Suc i) old) (drop (Suc j) new) + 1
      else max (lcs (drop (Suc i) old) (drop j new)) (lcs (drop i old) (drop (Suc j) new)))"
  using assms by (simp flip: Cons_nth_drop_Suc)

lemma length_lcs_walk:
  assumes "i \<le> length old" and "j \<le> length new"
  shows "length (lcs_walk old new (lcs_table old new) path i j cur)
       + 2 * lcs (drop i old) (drop j new) = (length old - i) + (length new - j)"
  using assms
proof (induction "(length old - i) + (length new - j)" arbitrary: i j cur rule: less_induct)
  case less
  have next_i: "length (lcs_walk old new (lcs_table old new) path (Suc i) j cur')
       + 2 * lcs (drop (Suc i) old) (drop j new) = (length old - Suc i) + (length new - j)"
    if "i < length old" for cur'
    using less.prems that by (intro less.hyps) auto
  have next_j: "length (lcs_walk old new (lcs_table old new) path i (Suc j) cur')
       + 2 * lcs (drop i old) (drop (Suc j) new) = (length old - i) + (length new - Suc j)"
    if "j < length new" for cur'
    using less.prems that by (intro less.hyps) auto
  have both: "length (lcs_walk old new (lcs_table old new) path (Suc i) (Suc j) cur')
       + 2 * lcs (drop (Suc i) old) (drop (Suc j) new) = (length old - Suc i) + (length new - Suc j)"
    if "i < length old" "j < length new" for cur'
    using less.prems that by (intro less.hyps) auto
  consider "i < length old" "j < length new" | "i < length old" "j = length new"
    | "i = length old" "j < length new" | "i = length old" "j = length new"
    using less.prems by linarith
  then show ?case
  proof cases
    case 1
    then show ?thesis
      using next_i [of cur] next_j [of "cur + 1"] both [of "cur + 1"]
        lcs_drop_step [OF 1] lcs_table_nth [of "Suc i" old j new] lcs_table_nth [of i old "Suc j" new]
      by (subst lcs_walk.simps) (auto simp: max_def)
  next
    case 2
    then show ?thesis using next_i [of cur] by (subst lcs_walk.simps) auto
  next
    case 3
    then show ?thesis using next_j [of "cur + 1"] by (subst lcs_walk.simps) auto
  next
    case 4
    then show ?thesis by (subst lcs_walk.simps) simp
  qed
qed

text \<open>
  C28. The walk of the LCS table removes and inserts as few elements as any edit script
  that keeps a common subsequence of the two arrays: the number of its operations plus
  twice the length \<open>k\<close> of a longest common subsequence is the number of elements, and
  no common subsequence is longer than \<open>k\<close>.
\<close>

theorem diff_array_lcs_minimal:
  "\<exists>zs. common_subseq zs old new
     \<and> length (diff_array_lcs old new path) + 2 * length zs = length old + length new
     \<and> length zs = Max (length ` {us. common_subseq us old new})"
proof -
  obtain zs where zs: "common_subseq zs old new" "length zs = lcs old new"
    using lcs_attained by blast
  have "finite {us. common_subseq us old new}"
    by (rule finite_subset [of _ "set (subseqs old)"])
      (auto simp: common_subseq_def simp flip: subseqs_powset)
  then have "Max (length ` {us. common_subseq us old new}) = lcs old new"
    using zs lcs_upper by (intro Max_eqI) (auto intro!: image_eqI [of _ _ zs])
  moreover have "length (diff_array_lcs old new path) + 2 * lcs old new = length old + length new"
    using length_lcs_walk [of 0 old 0 new path 0] by (simp add: diff_array_lcs_def)
  ultimately show ?thesis using zs by auto
qed

end
