(* ===== verification/Errors.thy ===== *)
theory Errors
  imports Text
begin

text \<open>
  The error type and the well-known codes of \<^verbatim>\<open>crates/colyseus/src/error.rs\<close>, and the
  clock and deadline conversions of \<^verbatim>\<open>utils.rs\<close>. The monotonic and the wall clock
  are read by the environment: the instant and the wall-clock milliseconds at which a
  function runs are arguments.
\<close>

section \<open>Error codes\<close>

definition MATCHMAKE_NO_HANDLER :: nat where "MATCHMAKE_NO_HANDLER = 520"
definition MATCHMAKE_INVALID_CRITERIA :: nat where "MATCHMAKE_INVALID_CRITERIA = 521"
definition MATCHMAKE_INVALID_ROOM_ID :: nat where "MATCHMAKE_INVALID_ROOM_ID = 522"
definition MATCHMAKE_UNHANDLED :: nat where "MATCHMAKE_UNHANDLED = 523"
definition MATCHMAKE_EXPIRED :: nat where "MATCHMAKE_EXPIRED = 524"
definition AUTH_FAILED :: nat where "AUTH_FAILED = 525"
definition APPLICATION_ERROR :: nat where "APPLICATION_ERROR = 526"
definition INVALID_PAYLOAD :: nat where "INVALID_PAYLOAD = 4217"

lemmas code_defs =
  MATCHMAKE_NO_HANDLER_def MATCHMAKE_INVALID_CRITERIA_def MATCHMAKE_INVALID_ROOM_ID_def
  MATCHMAKE_UNHANDLED_def MATCHMAKE_EXPIRED_def AUTH_FAILED_def APPLICATION_ERROR_def
  INVALID_PAYLOAD_def

definition NORMAL_CLOSURE :: nat where "NORMAL_CLOSURE = 1000"
definition GOING_AWAY :: nat where "GOING_AWAY = 1001"
definition ABNORMAL_CLOSURE :: nat where "ABNORMAL_CLOSURE = 1006"
definition CONSENTED :: nat where "CONSENTED = 4000"
definition SERVER_SHUTDOWN :: nat where "SERVER_SHUTDOWN = 4001"
definition WITH_ERROR :: nat where "WITH_ERROR = 4002"
definition FAILED_TO_RECONNECT :: nat where "FAILED_TO_RECONNECT = 4003"
definition MAY_TRY_RECONNECT :: nat where "MAY_TRY_RECONNECT = 4010"

lemmas close_code_defs =
  NORMAL_CLOSURE_def GOING_AWAY_def ABNORMAL_CLOSURE_def CONSENTED_def SERVER_SHUTDOWN_def
  WITH_ERROR_def FAILED_TO_RECONNECT_def MAY_TRY_RECONNECT_def

section \<open>The error value\<close>

record ServerError =
  err_code :: nat
  err_message :: string

definition new_error :: "nat \<Rightarrow> string \<Rightarrow> ServerError" where
  "new_error code message = \<lparr>err_code = code, err_message = message\<rparr>"

definition quote :: string where
  "quote = [CHR 0x22]"

definition no_handler :: "string \<Rightarrow> ServerError" where
  "no_handler room_name =
     new_error MATCHMAKE_NO_HANDLER
       (''provided room name '' @ quote @ room_name @ quote @ '' is not defined'')"

definition room_not_found :: "string \<Rightarrow> ServerError" where
  "room_not_found room_id =
     new_error MATCHMAKE_INVALID_ROOM_ID (''room '' @ quote @ room_id @ quote @ '' not found'')"

definition seat_expired :: ServerError where
  "seat_expired = new_error MATCHMAKE_EXPIRED ''seat reservation expired''"

definition is_seat_reservation_failure :: "ServerError \<Rightarrow> bool" where
  "is_seat_reservation_failure e \<longleftrightarrow> err_code e = MATCHMAKE_EXPIRED"

definition show_error :: "ServerError \<Rightarrow> string" where
  "show_error e = ''error '' @ show_nat (err_code e) @ '': '' @ err_message e"

definition of_serde_error :: "string \<Rightarrow> ServerError" where
  "of_serde_error e = new_error INVALID_PAYLOAD e"

lemma new_error_simps [simp]:
  "err_code (new_error c m) = c" "err_message (new_error c m) = m"
  by (simp_all add: new_error_def)

lemma seat_failure_simps [simp]:
  "is_seat_reservation_failure seat_expired"
  "\<not> is_seat_reservation_failure (no_handler n)"
  "\<not> is_seat_reservation_failure (room_not_found n)"
  by (simp_all add: is_seat_reservation_failure_def seat_expired_def no_handler_def
      room_not_found_def code_defs)

section \<open>Deadlines across restarts\<close>

text \<open>
  \<open>now\<close> is \<^verbatim>\<open>Instant::now()\<close>, \<open>wall\<close> is
  \<^verbatim>\<open>now_wallclock_ms()\<close>.
\<close>

definition instant_to_wallclock_ms :: "instant \<Rightarrow> millis \<Rightarrow> instant \<Rightarrow> millis" where
  "instant_to_wallclock_ms now wall t =
     (if t \<le> now then wall else wall + as_millis (t - now))"

definition wallclock_ms_to_instant :: "instant \<Rightarrow> millis \<Rightarrow> millis \<Rightarrow> instant" where
  "wallclock_ms_to_instant now wall ms = (let delta = ms - wall in now + from_millis delta)"

lemma as_millis_mono: "a \<le> b \<Longrightarrow> as_millis a \<le> as_millis b"
  by (simp add: as_millis_def div_le_mono)

lemma from_as_millis: "from_millis (as_millis d) \<le> d"
  by (simp add: from_millis_def as_millis_def)

lemma from_as_millis_gap: "d < from_millis (as_millis d) + 1000000"
proof -
  have "d = d div 1000000 * 1000000 + d mod 1000000" by simp
  moreover have "d mod 1000000 < 1000000" by simp
  ultimately have "d < d div 1000000 * 1000000 + 1000000" by linarith
  then show ?thesis by (simp add: from_millis_def as_millis_def)
qed

text \<open>
  A deadline written at one moment and read at a later one: what is left of it is its
  remaining time at the write, to the millisecond, less the wall time that went by.
\<close>

lemma deadline_roundtrip:
  assumes "wall \<le> wall'"
  shows "wallclock_ms_to_instant now' wall' (instant_to_wallclock_ms now wall t)
    = now' + from_millis (as_millis (t - now) - (wall' - wall))"
proof (cases "t \<le> now")
  case True
  then show ?thesis
    using assms by (simp add: wallclock_ms_to_instant_def instant_to_wallclock_ms_def as_millis_def)
next
  case False
  then show ?thesis
    using assms by (simp add: wallclock_ms_to_instant_def instant_to_wallclock_ms_def add.commute)
qed

section \<open>The room clock\<close>

record Clock =
  clock_start :: instant
  clock_elapsed :: duration

definition clock_new :: "instant \<Rightarrow> Clock" where
  "clock_new now = \<lparr>clock_start = now, clock_elapsed = 0\<rparr>"

definition clock_restore :: "instant \<Rightarrow> duration \<Rightarrow> Clock" where
  "clock_restore now elapsed = \<lparr>clock_start = now, clock_elapsed = elapsed\<rparr>"

definition clock_tick :: "instant \<Rightarrow> Clock \<Rightarrow> Clock" where
  "clock_tick now c = c\<lparr>clock_elapsed := now - clock_start c\<rparr>"

definition elapsed_millis :: "Clock \<Rightarrow> millis" where
  "elapsed_millis c = as_millis (clock_elapsed c)"

text \<open>
  Restoring a clock keeps the elapsed time only up to the first tick, which recomputes
  it from the new start.
\<close>

lemma clock_restore_tick:
  "elapsed_millis (clock_restore now d) = as_millis d"
  "clock_elapsed (clock_tick now' (clock_restore now d)) = now' - now"
  by (simp_all add: elapsed_millis_def clock_restore_def clock_tick_def)

end
