(* ===== verification/State_Sync.thy ===== *)
theory State_Sync
  imports Diff Errors
begin

text \<open>
  Room state, \<^verbatim>\<open>crates/colyseus/src/state.rs\<close>: the edit of a JSON value at a
  path, the synchronised slot with the snapshot of the last broadcast, and the private
  slot. A state type is any type \<open>'s\<close> with the serializer and deserializer that
  \<^verbatim>\<open>derive(Serialize, Deserialize)\<close> generates for it; the type-erased box is
  the value with its two functions.
\<close>

section \<open>Edits\<close>

datatype StateEdit = Set json | Remove

definition JSON_PATCH_SERIALIZER_ID :: string where
  "JSON_PATCH_SERIALIZER_ID = ''json-patch''"

definition NONE_SERIALIZER_ID :: string where
  "NONE_SERIALIZER_ID = ''none''"

text \<open>The edit at the container that holds the last segment.\<close>

fun edit_last :: "json \<Rightarrow> string \<Rightarrow> StateEdit \<Rightarrow> (string, json) result" where
  "edit_last (JObj m) lst (Set v) = Inr (JObj (map_insert lst v m))"
| "edit_last (JObj m) lst Remove =
     (case map_of m lst of
        None \<Rightarrow> Inl (''no such key: '' @ lst)
      | Some _ \<Rightarrow> Inr (JObj (map_remove lst m)))"
| "edit_last (JArr xs) lst edit =
     (case parse_usize lst of
        None \<Rightarrow> Inl (''bad array index: '' @ lst)
      | Some i \<Rightarrow>
          if i \<ge> length xs then Inl (''array index out of range: '' @ show_nat i)
          else (case edit of
                  Set v \<Rightarrow> Inr (JArr (xs[i := v]))
                | Remove \<Rightarrow> Inr (JArr (remove_at i xs))))"
| "edit_last _ lst edit = Inl ''path parent is not a container''"

text \<open>
  The descent. The source walks a mutable reference down and changes the container it
  ends at; here the containers on the way are rebuilt around it.
\<close>

fun edit_at_path :: "json \<Rightarrow> string list \<Rightarrow> StateEdit \<Rightarrow> (string, json) result" where
  "edit_at_path d [] (Set v) = Inr v"
| "edit_at_path d [] Remove = Inl ''cannot remove the state root''"
| "edit_at_path cur [lst] edit = edit_last cur lst edit"
| "edit_at_path (JObj m) (seg # s2 # path) edit =
     (case map_of m seg of
        None \<Rightarrow> Inl (''no such path: '' @ seg)
      | Some c \<Rightarrow>
          (case edit_at_path c (s2 # path) edit of
             Inl e \<Rightarrow> Inl e
           | Inr c' \<Rightarrow> Inr (JObj (map_insert seg c' m))))"
| "edit_at_path (JArr xs) (seg # s2 # path) edit =
     (case parse_usize seg of
        None \<Rightarrow> Inl (''bad array index: '' @ seg)
      | Some i \<Rightarrow>
          if i < length xs
          then (case edit_at_path (xs ! i) (s2 # path) edit of
                  Inl e \<Rightarrow> Inl e
                | Inr c' \<Rightarrow> Inr (JArr (xs[i := c'])))
          else Inl (''array index out of range: '' @ show_nat i))"
| "edit_at_path _ (seg # s2 # path) edit = Inl (''cannot descend into '' @ seg)"

section \<open>Slots\<close>

record 's erased =
  erased_value :: 's
  erased_ser :: "'s \<Rightarrow> (string, json) result"
  erased_de :: "json \<Rightarrow> (string, 's) result"

definition to_value :: "'s erased \<Rightarrow> json" where
  "to_value t = (case erased_ser t (erased_value t) of Inr v \<Rightarrow> v | Inl _ \<Rightarrow> JNull)"

definition erased_apply_edit ::
  "'s erased \<Rightarrow> string list \<Rightarrow> StateEdit \<Rightarrow> (string, unit) result \<times> 's erased" where
  "erased_apply_edit t path edit =
     (case erased_ser t (erased_value t) of
        Inl e \<Rightarrow> (Inl e, t)
      | Inr value \<Rightarrow>
          (case edit_at_path value path edit of
             Inl e \<Rightarrow> (Inl e, t)
           | Inr value' \<Rightarrow>
               (case erased_de t value' of
                  Inl e \<Rightarrow> (Inl e, t)
                | Inr s \<Rightarrow> (Inr (), t\<lparr>erased_value := s\<rparr>))))"

record 's StateSlot =
  typed :: "'s erased"
  snapshot :: json

definition slot_new :: "'s erased \<Rightarrow> 's StateSlot" where
  "slot_new state = \<lparr>typed = state, snapshot = to_value state\<rparr>"

definition slot_get :: "'s StateSlot \<Rightarrow> 's" where
  "slot_get slot = erased_value (typed slot)"

text \<open>A mutation of the state through \<^verbatim>\<open>get_mut\<close>.\<close>

definition slot_mutate :: "('s \<Rightarrow> 's) \<Rightarrow> 's StateSlot \<Rightarrow> 's StateSlot" where
  "slot_mutate f slot = slot\<lparr>typed := (typed slot)\<lparr>erased_value := f (slot_get slot)\<rparr>\<rparr>"

definition slot_full :: "'s StateSlot \<Rightarrow> json" where
  "slot_full slot = to_value (typed slot)"

definition slot_apply_edit ::
  "'s StateSlot \<Rightarrow> string list \<Rightarrow> StateEdit \<Rightarrow> (string, unit) result \<times> 's StateSlot" where
  "slot_apply_edit slot path edit =
     (case erased_apply_edit (typed slot) path edit of (r, t) \<Rightarrow> (r, slot\<lparr>typed := t\<rparr>))"

definition slot_diff :: "'s StateSlot \<Rightarrow> json option \<times> 's StateSlot" where
  "slot_diff slot =
     (let current = to_value (typed slot)
      in if current = snapshot slot then (None, slot)
         else let ops = diff (snapshot slot) current;
                  slot' = slot\<lparr>snapshot := current\<rparr>
              in if ops = [] then (None, slot') else (Some (JArr ops), slot'))"

record 'i InternalSlot =
  internal_typed :: "'i erased"

definition internal_new :: "'i erased \<Rightarrow> 'i InternalSlot" where
  "internal_new state = \<lparr>internal_typed = state\<rparr>"

definition internal_get :: "'i InternalSlot \<Rightarrow> 'i" where
  "internal_get slot = erased_value (internal_typed slot)"

definition internal_mutate :: "('i \<Rightarrow> 'i) \<Rightarrow> 'i InternalSlot \<Rightarrow> 'i InternalSlot" where
  "internal_mutate f slot =
     slot\<lparr>internal_typed := (internal_typed slot)\<lparr>erased_value := f (internal_get slot)\<rparr>\<rparr>"

definition internal_full :: "'i InternalSlot \<Rightarrow> json" where
  "internal_full slot = to_value (internal_typed slot)"

section \<open>What an edit does\<close>

text \<open>The value at a path, with the indexing rules of the edit.\<close>

fun path_get :: "json \<Rightarrow> string list \<Rightarrow> json option" where
  "path_get d [] = Some d"
| "path_get (JObj m) (s # p) = Option.bind (map_of m s) (\<lambda>c. path_get c p)"
| "path_get (JArr xs) (s # p) =
     Option.bind (parse_usize s) (\<lambda>i. if i < length xs then path_get (xs ! i) p else None)"
| "path_get _ (s # p) = None"

text \<open>Two paths that part at some segment, as a key and as an index.\<close>

fun apart :: "string list \<Rightarrow> string list \<Rightarrow> bool" where
  "apart (s # p) (t # q) =
     (if s = t then apart p q else parse_usize s = None \<or> parse_usize s \<noteq> parse_usize t)"
| "apart _ _ = False"

definition takes_member :: "json \<Rightarrow> string \<Rightarrow> bool" where
  "takes_member c k =
     (case c of
        JObj m \<Rightarrow> True
      | JArr xs \<Rightarrow> (case parse_usize k of None \<Rightarrow> False | Some i \<Rightarrow> i < length xs)
      | _ \<Rightarrow> False)"

lemma edit_last_set_get: "edit_last c k (Set v) = Inr c' \<Longrightarrow> path_get c' [k] = Some v"
  by (cases c) (auto split: option.splits if_splits)

lemma edit_last_set_frame:
  "edit_last c k (Set v) = Inr c' \<Longrightarrow> apart (k # p) q \<Longrightarrow> k \<noteq> hd q \<Longrightarrow> path_get c' q = path_get c q"
  by (cases c; cases q) (auto split: option.splits if_splits bind_splits simp: nth_list_update)

lemma apart_hd: "apart [k] q \<Longrightarrow> k \<noteq> hd q"
  by (cases q) (auto split: if_splits)

lemma edit_set_get: "edit_at_path d p (Set v) = Inr d' \<Longrightarrow> path_get d' p = Some v"
proof (induction d p "Set v" arbitrary: d' rule: edit_at_path.induct)
  case (3 cur lst)
  then show ?case using edit_last_set_get by simp
qed (auto split: option.splits sum.splits if_splits)

lemma edit_set_frame:
  "edit_at_path d p (Set v) = Inr d' \<Longrightarrow> apart p q \<Longrightarrow> path_get d' q = path_get d q"
proof (induction d p "Set v" arbitrary: d' q rule: edit_at_path.induct)
  case (3 cur lst)
  then show ?case using edit_last_set_frame [of cur lst v d' "[]" q] apart_hd by simp
next
  case (4 m seg s2 path)
  then show ?case
    by (cases q) (auto split: option.splits sum.splits if_splits)
next
  case (5 xs seg s2 path)
  then show ?case
    by (cases q) (auto split: option.splits sum.splits if_splits bind_splits simp: nth_list_update)
qed (auto split: option.splits sum.splits if_splits)

lemma edit_last_set_iff: "(\<exists>c'. edit_last c k (Set v) = Inr c') \<longleftrightarrow> takes_member c k"
  by (cases c) (auto simp: takes_member_def split: option.splits)

lemma edit_set_iff:
  "(\<exists>d'. edit_at_path d p (Set v) = Inr d')
     \<longleftrightarrow> p = [] \<or> (\<exists>c. path_get d (butlast p) = Some c \<and> takes_member c (last p))"
proof (induction d p "Set v" rule: edit_at_path.induct)
  case (3 cur lst)
  then show ?case using edit_last_set_iff by simp
qed (auto split: option.splits sum.splits if_splits)

text \<open>An edit of the last member is the edit of its container, put back in place.\<close>

lemma edit_snoc:
  "edit_at_path d (p @ [k]) e = Inr d' \<longleftrightarrow>
     (\<exists>c c'. path_get d p = Some c \<and> edit_last c k e = Inr c' \<and> edit_at_path d p (Set c') = Inr d')"
proof (induction p arbitrary: d d')
  case Nil
  then show ?case by simp
next
  case (Cons s p)
  obtain s2 p2 where tail: "p @ [k] = s2 # p2" by (cases "p @ [k]") auto
  have step: "edit_at_path (JObj m) (s # p @ [k]) e = Inr d' \<longleftrightarrow>
      (\<exists>c c'. map_of m s = Some c \<and> edit_at_path c (p @ [k]) e = Inr c'
         \<and> d' = JObj (map_insert s c' m))" for m
    unfolding tail by (auto split: option.splits sum.splits)
  have step': "edit_at_path (JArr xs) (s # p @ [k]) e = Inr d' \<longleftrightarrow>
      (\<exists>i c'. parse_usize s = Some i \<and> i < length xs \<and> edit_at_path (xs ! i) (p @ [k]) e = Inr c'
         \<and> d' = JArr (xs[i := c']))" for xs
    unfolding tail by (auto split: option.splits sum.splits)
  have inner: "edit_at_path (JObj m) (s # p) (Set c) = Inr d' \<longleftrightarrow>
      (p = [] \<and> d' = JObj (map_insert s c m)) \<or>
      (p \<noteq> [] \<and> (\<exists>b b'. map_of m s = Some b \<and> edit_at_path b p (Set c) = Inr b'
         \<and> d' = JObj (map_insert s b' m)))" for m c
    by (cases p) (auto split: option.splits sum.splits)
  have inner': "edit_at_path (JArr xs) (s # p) (Set c) = Inr d' \<longleftrightarrow>
      (\<exists>i b'. parse_usize s = Some i \<and> i < length xs \<and> edit_at_path (xs ! i) p (Set c) = Inr b'
         \<and> d' = JArr (xs[i := b']))" for xs c
    by (cases p) (auto split: option.splits sum.splits)
  show ?case
  proof (cases d)
    case (JObj m)
    show ?thesis
    proof (cases "p = []")
      case True
      then show ?thesis
        using step [of m] inner [of m] by (auto simp: JObj)
    next
      case False
      then show ?thesis
        using step [of m] inner [of m] by (auto simp: JObj Cons.IH bind_eq_Some_conv)
    qed
  next
    case (JArr xs)
    show ?thesis
      using step' [of xs] inner' [of xs]
      by (auto simp: JArr Cons.IH bind_eq_Some_conv)
  qed (auto simp: tail)
qed

lemma wf_json_update:
  "\<forall>x \<in> set xs. wf_json x \<Longrightarrow> wf_json v \<Longrightarrow> \<forall>x \<in> set (xs[i := v]). wf_json x"
  using set_update_subset_insert [of xs i v] by blast

lemma wf_json_remove_at:
  "\<forall>x \<in> set xs. wf_json x \<Longrightarrow> \<forall>x \<in> set (remove_at i xs). wf_json x"
  by (auto simp: remove_at_def dest: in_set_takeD in_set_dropD)

fun wf_edit :: "StateEdit \<Rightarrow> bool" where
  "wf_edit (Set v) = wf_json v"
| "wf_edit Remove = True"

lemma edit_last_wf: "edit_last c k e = Inr c' \<Longrightarrow> wf_json c \<Longrightarrow> wf_edit e \<Longrightarrow> wf_json c'"
proof (induction c k e rule: edit_last.induct)
  case (3 xs lst edit)
  from "3.prems"(1) obtain i where i: "parse_usize lst = Some i" "i < length xs"
    by (auto split: option.splits if_splits)
  with "3.prems" show ?case
  proof (cases edit)
    case (Set v)
    with "3.prems" i show ?thesis using wf_json_update [of xs v i] by auto
  next
    case Remove
    with "3.prems" i show ?thesis using wf_json_remove_at [of xs i] by auto
  qed
qed (auto split: option.splits)

lemma edit_wf: "edit_at_path d p e = Inr d' \<Longrightarrow> wf_json d \<Longrightarrow> wf_edit e \<Longrightarrow> wf_json d'"
proof (induction d p e arbitrary: d' rule: edit_at_path.induct)
  case (3 cur lst edit)
  then show ?case using edit_last_wf by simp
next
  case (4 m seg s2 path edit)
  from "4.prems"(1) obtain c c' where "map_of m seg = Some c" "edit_at_path c (s2 # path) edit = Inr c'"
    "d' = JObj (map_insert seg c' m)"
    by (auto split: option.splits sum.splits)
  with 4 show ?case
    using wf_obj_lookup [of m seg c] by simp
next
  case (5 xs seg s2 path edit)
  from "5.prems"(1) obtain i c' where "parse_usize seg = Some i" "i < length xs"
    "edit_at_path (xs ! i) (s2 # path) edit = Inr c'" "d' = JArr (xs[i := c'])"
    by (auto split: option.splits sum.splits if_splits)
  with 5 show ?case
    using wf_json_update [of xs c' i] by simp
qed simp_all

text \<open>
  An edit that sets a value succeeds exactly when its parent is an object, or an array
  with the named element; then the path holds the value, every path that parts from it
  holds what it held, and the document stays well formed.
\<close>

lemma edit_at_path_set:
  "(case edit_at_path d p (Set v) of
      Inl e \<Rightarrow> p \<noteq> [] \<and> \<not> (\<exists>c. path_get d (butlast p) = Some c \<and> takes_member c (last p))
    | Inr d' \<Rightarrow>
        (p = [] \<or> (\<exists>c. path_get d (butlast p) = Some c \<and> takes_member c (last p)))
        \<and> path_get d' p = Some v
        \<and> {q. apart p q} \<subseteq> {q. path_get d' q = path_get d q}
        \<and> (if wf_json d \<and> wf_json v then wf_json d' else True))"
proof (cases "edit_at_path d p (Set v)")
  case (Inl e)
  then show ?thesis using edit_set_iff [of d p v] by auto
next
  case (Inr d')
  then show ?thesis
    using edit_set_iff [of d p v] edit_set_get [OF Inr] edit_set_frame [OF Inr] edit_wf [OF Inr]
    by auto
qed

text \<open>
  Removing member \<open>k\<close> below \<open>p\<close> is removing it from the container that \<open>p\<close> leads
  to and putting the container back: from an object the key goes, from an array the
  element goes and the later ones move down. It fails exactly when the member is not there.
\<close>

lemma edit_at_path_remove:
  "edit_at_path d (p @ [k]) Remove = Inr d' \<longleftrightarrow>
     (\<exists>c c'. path_get d p = Some c
        \<and> edit_at_path d p (Set c') = Inr d'
        \<and> ((\<exists>m. c = JObj m \<and> k \<in> fst ` set m \<and> c' = JObj (map_remove k m))
           \<or> (\<exists>xs i. c = JArr xs \<and> parse_usize k = Some i \<and> i < length xs
                \<and> c' = JArr (take i xs @ drop (Suc i) xs))))"
proof -
  have "edit_last c k Remove = Inr c' \<longleftrightarrow>
      (\<exists>m. c = JObj m \<and> k \<in> fst ` set m \<and> c' = JObj (map_remove k m))
      \<or> (\<exists>xs i. c = JArr xs \<and> parse_usize k = Some i \<and> i < length xs
           \<and> c' = JArr (take i xs @ drop (Suc i) xs))" for c c'
  proof (cases c)
    case (JObj m)
    then show ?thesis
      using map_of_eq_None_iff [of m k] by (cases "map_of m k") auto
  qed (auto simp: remove_at_def split: option.splits)
  then show ?thesis by (simp add: edit_snoc) blast
qed

text \<open>
  C27. Both edits at a path do what they say. Setting succeeds exactly when the parent is an
  object, or an array with the named element; then the path holds the value, every path that
  parts from it holds what it held, and the document stays well formed. Removing succeeds
  exactly when the member is there, and puts back the container without it: from an object
  the key goes, from an array the element goes and the later ones move down.
\<close>

theorem edit_at_path_correct:
  "(case edit_at_path d p (Set v) of
      Inl e \<Rightarrow> p \<noteq> [] \<and> \<not> (\<exists>c. path_get d (butlast p) = Some c \<and> takes_member c (last p))
    | Inr d' \<Rightarrow>
        (p = [] \<or> (\<exists>c. path_get d (butlast p) = Some c \<and> takes_member c (last p)))
        \<and> path_get d' p = Some v
        \<and> {q. apart p q} \<subseteq> {q. path_get d' q = path_get d q}
        \<and> (if wf_json d \<and> wf_json v then wf_json d' else True))
   \<and> (edit_at_path d (q @ [k]) Remove = Inr d'' \<longleftrightarrow>
     (\<exists>c c'. path_get d q = Some c
        \<and> edit_at_path d q (Set c') = Inr d''
        \<and> ((\<exists>m. c = JObj m \<and> k \<in> fst ` set m \<and> c' = JObj (map_remove k m))
           \<or> (\<exists>xs i. c = JArr xs \<and> parse_usize k = Some i \<and> i < length xs
                \<and> c' = JArr (take i xs @ drop (Suc i) xs)))))"
  by (rule conjI [OF edit_at_path_set edit_at_path_remove])

section \<open>The slot and its clients\<close>

text \<open>A client applies the patch of a broadcast to its replica.\<close>

fun replica_after :: "json option \<Rightarrow> json \<Rightarrow> json option" where
  "replica_after None r = Some r"
| "replica_after (Some (JArr ops)) r = apply_patch ops r"
| "replica_after (Some _) r = None"

definition wf_ser :: "'s erased \<Rightarrow> bool" where
  "wf_ser t \<longleftrightarrow> (\<forall>s v. erased_ser t s = Inr v \<longrightarrow> wf_json v)"

definition wf_slot :: "'s StateSlot \<Rightarrow> bool" where
  "wf_slot slot \<longleftrightarrow> wf_ser (typed slot) \<and> wf_json (snapshot slot)"

lemma to_value_wf: "wf_ser t \<Longrightarrow> wf_json (to_value t)"
  by (auto simp: to_value_def wf_ser_def split: sum.splits)

lemma wf_slot_new [intro]: "wf_ser t \<Longrightarrow> wf_slot (slot_new t)"
  by (simp add: wf_slot_def slot_new_def to_value_wf)

lemma wf_slot_mutate [simp]: "wf_slot (slot_mutate f slot) \<longleftrightarrow> wf_slot slot"
  by (simp add: wf_slot_def slot_mutate_def wf_ser_def)

lemma snapshot_mutate [simp, frame_simps]: "snapshot (slot_mutate f slot) = snapshot slot"
  by (simp add: slot_mutate_def)

lemma wf_slot_edit [intro]: "wf_slot slot \<Longrightarrow> wf_slot (snd (slot_apply_edit slot path edit))"
  by (auto simp: wf_slot_def slot_apply_edit_def erased_apply_edit_def wf_ser_def
      split: prod.splits sum.splits)

lemma snapshot_edit [simp, frame_simps]:
  "snapshot (snd (slot_apply_edit slot path edit)) = snapshot slot"
  by (simp add: slot_apply_edit_def split: prod.splits)

lemma typed_slot_diff [simp, frame_simps]: "typed (snd (slot_diff slot)) = typed slot"
  by (simp add: slot_diff_def Let_def)

lemma snapshot_slot_diff [simp]: "snapshot (snd (slot_diff slot)) = slot_full slot"
  by (simp add: slot_diff_def slot_full_def Let_def)

lemma wf_slot_diff [intro]: "wf_slot slot \<Longrightarrow> wf_slot (snd (slot_diff slot))"
  by (simp add: wf_slot_def slot_full_def to_value_wf)

lemma slot_diff_replica:
  assumes "wf_slot slot"
  shows "replica_after (fst (slot_diff slot)) (snapshot slot) = Some (slot_full slot)"
  using assms diff_Nil_iff [of "snapshot slot" "slot_full slot"]
    apply_patch_diff [of "snapshot slot" "slot_full slot"] to_value_wf [of "typed slot"]
  by (auto simp: slot_diff_def slot_full_def wf_slot_def Let_def)

lemma slot_diff_None_iff:
  assumes "wf_slot slot"
  shows "fst (slot_diff slot) = None \<longleftrightarrow> slot_full slot = snapshot slot"
  using assms diff_Nil_iff [of "snapshot slot" "slot_full slot"] to_value_wf [of "typed slot"]
  by (auto simp: slot_diff_def slot_full_def wf_slot_def Let_def)

text \<open>
  C5. A diff keeps every client in step: a replica equal to the snapshot becomes the
  current full state, which is the new snapshot; nothing is sent exactly when the state is
  unchanged; and the state itself is untouched.
\<close>

theorem slot_diff_sync:
  assumes "wf_slot slot" and "slot_diff slot = (patch, slot')"
  shows "replica_after patch (snapshot slot) = Some (slot_full slot)
    \<and> snapshot slot' = slot_full slot
    \<and> typed slot' = typed slot
    \<and> wf_slot slot'
    \<and> (patch = None \<longleftrightarrow> slot_full slot = snapshot slot)"
  using slot_diff_replica [OF assms(1)] slot_diff_None_iff [OF assms(1)] wf_slot_diff [OF assms(1)]
    snapshot_slot_diff [of slot] typed_slot_diff [of slot]
  unfolding assms(2) by simp

definition json_box :: "json \<Rightarrow> json erased" where
  "json_box v = \<lparr>erased_value = v, erased_ser = (\<lambda>v. if wf_json v then Inr v else Inl ''key''),
                 erased_de = (\<lambda>v. if wf_json v then Inr v else Inl ''key'')\<rparr>"

lemma wf_ser_json_box [simp]: "wf_ser (json_box v)"
  by (simp add: wf_ser_def json_box_def)

theorem slot_diff_sync_witness:
  "replica_after (fst (slot_diff (slot_mutate (\<lambda>_. jint 5) (slot_new (json_box (jint 0)))))) (jint 0)
     = Some (jint 5)"
proof -
  let ?slot = "slot_mutate (\<lambda>_. jint 5) (slot_new (json_box (jint 0)))"
  have "wf_slot ?slot"
    by (simp add: wf_slot_new)
  moreover have "snapshot ?slot = jint 0" "slot_full ?slot = jint 5"
    by (simp_all add: slot_new_def slot_mutate_def slot_full_def to_value_def json_box_def)
  ultimately show ?thesis
    using slot_diff_sync [of ?slot, OF _ surjective_pairing] by simp
qed

text \<open>
  An admin edit is validated: when any of its three steps fails nothing changes, and
  when it succeeds (for a state type whose serializer inverts its deserializer) the state
  serializes to the edited document and the next diff brings exactly that document to
  a client that had the last broadcast.
\<close>

theorem slot_apply_edit_delivers:
  assumes "wf_slot slot"
    and "\<And>j s. erased_de (typed slot) j = Inr s \<Longrightarrow> erased_ser (typed slot) s = Inr j"
    and "slot_apply_edit slot path edit = (r, slot')"
  shows "case r of
      Inl e \<Rightarrow> slot' = slot
    | Inr _ \<Rightarrow> edit_at_path (slot_full slot) path edit = Inr (slot_full slot')
        \<and> replica_after (fst (slot_diff slot')) (snapshot slot) = Some (slot_full slot')"
proof (cases r)
  case (Inl e)
  then show ?thesis
    using assms(3) by (auto simp: slot_apply_edit_def erased_apply_edit_def split: sum.splits)
next
  case (Inr u)
  have slot': "slot' = snd (slot_apply_edit slot path edit)"
    by (simp add: assms(3))
  have "wf_slot slot'" and "snapshot slot' = snapshot slot"
    using assms(1) by (auto simp: slot')
  moreover have "edit_at_path (slot_full slot) path edit = Inr (slot_full slot')"
    using assms(2,3) by (auto simp: Inr slot_apply_edit_def erased_apply_edit_def slot_full_def
        to_value_def split: sum.splits)
  ultimately show ?thesis
    using slot_diff_replica [of slot'] by (simp add: Inr)
qed

theorem slot_apply_edit_delivers_witness:
  "\<exists>slot'. slot_apply_edit (slot_new (json_box (JObj [(''hp'', jint 3)]))) [''hp''] (Set (jint 9))
        = (Inr (), slot')
     \<and> replica_after (fst (slot_diff slot')) (JObj [(''hp'', jint 3)]) = Some (JObj [(''hp'', jint 9)])"
proof -
  let ?box = "json_box (JObj [(''hp'', jint 3)])"
  define slot' where "slot' = (slot_new ?box)\<lparr>typed := ?box\<lparr>erased_value := JObj [(''hp'', jint 9)]\<rparr>\<rparr>"
  have r: "slot_apply_edit (slot_new ?box) [''hp''] (Set (jint 9)) = (Inr (), slot')"
    by (simp add: slot_apply_edit_def erased_apply_edit_def slot_new_def slot'_def json_box_def
        wf_obj_def sorted_map_def)
  have full: "slot_full slot' = JObj [(''hp'', jint 9)]" "snapshot (slot_new ?box) = JObj [(''hp'', jint 3)]"
    by (simp_all add: slot_new_def slot_full_def slot'_def to_value_def json_box_def
        wf_obj_def sorted_map_def)
  have serde: "erased_ser (typed (slot_new ?box)) s = Inr j"
    if "erased_de (typed (slot_new ?box)) j = Inr s" for j s
    using that by (auto simp: slot_new_def json_box_def split: if_splits)
  show ?thesis
    using slot_apply_edit_delivers [OF wf_slot_new [OF wf_ser_json_box] serde r] r
    by (simp add: full)
qed

end
