(* ===== verification/Protocol.thy ===== *)
theory Protocol
  imports Json Errors
begin

text \<open>
  The wire protocol, \<^verbatim>\<open>crates/colyseus/src/protocol.rs\<close>. A frame is kept as the value
  handed to the MessagePack serializer; the bytes it becomes, and the two readings of
  bytes that the decoder uses, are the crate \<^verbatim>\<open>rmp_serde\<close> and appear as arguments.
\<close>

section \<open>Codes and message types\<close>

type_synonym bytes = "8 word list"

definition JOIN_ROOM :: nat where "JOIN_ROOM = 10"
definition ERROR :: nat where "ERROR = 11"
definition LEAVE_ROOM :: nat where "LEAVE_ROOM = 12"
definition ROOM_DATA :: nat where "ROOM_DATA = 13"
definition ROOM_STATE :: nat where "ROOM_STATE = 14"
definition ROOM_STATE_PATCH :: nat where "ROOM_STATE_PATCH = 15"
definition ROOM_DATA_BYTES :: nat where "ROOM_DATA_BYTES = 17"
definition PING :: nat where "PING = 18"

lemmas frame_code_defs =
  JOIN_ROOM_def ERROR_def LEAVE_ROOM_def ROOM_DATA_def ROOM_STATE_def ROOM_STATE_PATCH_def
  ROOM_DATA_BYTES_def PING_def

text \<open>The number is an \<^verbatim>\<open>i64\<close>.\<close>

datatype MessageType = Num "64 word" | Str string

definition mt_as_str :: "MessageType \<Rightarrow> string option" where
  "mt_as_str t = (case t of Str s \<Rightarrow> Some s | _ \<Rightarrow> None)"

definition mt_as_num :: "MessageType \<Rightarrow> 64 word option" where
  "mt_as_num t = (case t of Num n \<Rightarrow> Some n | _ \<Rightarrow> None)"

definition mt_to_value :: "MessageType \<Rightarrow> json" where
  "mt_to_value t = (case t of Num n \<Rightarrow> jint (sint n) | Str s \<Rightarrow> JStr s)"

definition mt_from_value :: "json \<Rightarrow> MessageType option" where
  "mt_from_value v =
     (case v of
        JStr s \<Rightarrow> Some (Str s)
      | JNum n \<Rightarrow> map_option (\<lambda>i. Num (word_of_int i)) (num_as_i64 n)
      | _ \<Rightarrow> None)"

definition mt_from_i32 :: "32 word \<Rightarrow> MessageType" where
  "mt_from_i32 n = Num (scast n)"

definition mt_from_u32 :: "32 word \<Rightarrow> MessageType" where
  "mt_from_u32 n = Num (ucast n)"

definition mt_from_u8 :: "8 word \<Rightarrow> MessageType" where
  "mt_from_u8 n = Num (ucast n)"

definition mt_display :: "MessageType \<Rightarrow> string" where
  "mt_display t = (case t of Str s \<Rightarrow> s | Num n \<Rightarrow> show_int (sint n))"

section \<open>Frames\<close>

text \<open>
  \<open>Packed v\<close>: the MessagePack document of a JSON value (a tuple of serde values is
  the array of its parts). \<open>PackedBytes c t b\<close>: the triple whose third part is a binary
  blob, which no JSON value can hold. \<open>RawByte\<close>: the one-byte ping.
\<close>

datatype frame =
    Packed json
  | PackedBytes nat json bytes
  | RawByte nat

definition join_room :: "string \<Rightarrow> string \<Rightarrow> json option \<Rightarrow> frame" where
  "join_room reconnection_token serializer_id handshake =
     Packed (JArr ([jint (int JOIN_ROOM), JStr reconnection_token, JStr serializer_id]
                   @ (case handshake of Some h \<Rightarrow> [h] | None \<Rightarrow> [])))"

definition error_frame :: "nat \<Rightarrow> string \<Rightarrow> frame" where
  "error_frame error_code message =
     Packed (JArr [jint (int ERROR), jint (int error_code), JStr message])"

definition room_state :: "json \<Rightarrow> frame" where
  "room_state state = Packed (JArr [jint (int ROOM_STATE), state])"

definition room_state_patch :: "json \<Rightarrow> frame" where
  "room_state_patch patch = Packed (JArr [jint (int ROOM_STATE_PATCH), patch])"

definition room_data :: "MessageType \<Rightarrow> json \<Rightarrow> frame" where
  "room_data msg_type payload =
     Packed (JArr [jint (int ROOM_DATA), mt_to_value msg_type, payload])"

definition room_data_bytes :: "MessageType \<Rightarrow> bytes \<Rightarrow> frame" where
  "room_data_bytes msg_type bytes = PackedBytes ROOM_DATA_BYTES (mt_to_value msg_type) bytes"

definition leave_frame :: frame where
  "leave_frame = Packed (JArr [jint (int LEAVE_ROOM)])"

definition ping :: frame where
  "ping = RawByte PING"

section \<open>Decoding\<close>

datatype ClientMessage =
    Leave
  | Data MessageType json
  | DataBytes MessageType bytes
  | Ping

text \<open>
  \<open>from_value bs\<close> is \<^verbatim>\<open>rmp_serde::from_slice::<Value>\<close>, \<open>from_triple bs\<close>
  is \<^verbatim>\<open>from_slice::<(u8, Value, ByteBuf)>\<close>; \<open>None\<close> is a failure to decode.
  The code is read as a \<^verbatim>\<open>u64\<close> and cast to a \<^verbatim>\<open>u8\<close>.
\<close>

definition decode_client_message ::
  "(bytes \<Rightarrow> json option) \<Rightarrow> (bytes \<Rightarrow> (8 word \<times> json \<times> bytes) option) \<Rightarrow> bytes
     \<Rightarrow> ClientMessage option" where
  "decode_client_message from_value from_triple bs =
     (if length bs = 1 \<and> bs ! 0 = word_of_nat PING then Some Ping
      else case from_value bs of
        Some (JArr arr) \<Rightarrow>
          (case arr of
             [] \<Rightarrow> None
           | a0 # _ \<Rightarrow>
             (case as_u64 a0 of
                None \<Rightarrow> None
              | Some u \<Rightarrow>
                let c = (word_of_nat u :: 8 word)
                in if c = word_of_nat LEAVE_ROOM then Some Leave
                   else if c = word_of_nat ROOM_DATA then
                     (if length arr > 1
                      then (case mt_from_value (arr ! 1) of
                              None \<Rightarrow> None
                            | Some t \<Rightarrow> Some (Data t (if length arr > 2 then arr ! 2 else JNull)))
                      else None)
                   else None))
      | Some _ \<Rightarrow> None
      | None \<Rightarrow>
          (case from_triple bs of
             None \<Rightarrow> None
           | Some (c, t, payload) \<Rightarrow>
               if c \<noteq> word_of_nat ROOM_DATA_BYTES then None
               else map_option (\<lambda>mt. DataBytes mt payload) (mt_from_value t)))"

section \<open>Round trips\<close>

lemma mt_round_trip [simp]: "mt_from_value (mt_to_value t) = Some t"
proof (cases t)
  case (Num n)
  have "- (2 ^ 63) \<le> sint n" "sint n < 2 ^ 63"
    using sint_range_size [of n] by (simp_all add: word_size)
  then show ?thesis
    by (simp add: Num mt_to_value_def mt_from_value_def)
qed (simp add: mt_to_value_def mt_from_value_def)

lemma mt_to_value_inject: "mt_to_value s = mt_to_value t \<Longrightarrow> s = t"
  by (metis mt_round_trip option.inject)

text \<open>
  What the decoder relies on for one frame: the bytes of a packed value are read back as
  that value, those of a triple with a blob are not a JSON value and are read back as the
  triple, and a document that is an array takes more than one byte unless it is empty.
\<close>

fun codec_reads ::
  "(bytes \<Rightarrow> json option) \<Rightarrow> (bytes \<Rightarrow> (8 word \<times> json \<times> bytes) option)
     \<Rightarrow> (frame \<Rightarrow> bytes) \<Rightarrow> frame \<Rightarrow> bool" where
  "codec_reads from_value from_triple enc (Packed v) \<longleftrightarrow>
     from_value (enc (Packed v)) = Some v \<and> length (enc (Packed v)) \<noteq> 1"
| "codec_reads from_value from_triple enc (PackedBytes c t b) \<longleftrightarrow>
     from_value (enc (PackedBytes c t b)) = None
     \<and> from_triple (enc (PackedBytes c t b)) = Some (word_of_nat c, t, b)
     \<and> length (enc (PackedBytes c t b)) \<noteq> 1"
| "codec_reads from_value from_triple enc (RawByte n) \<longleftrightarrow> enc (RawByte n) = [word_of_nat n]"

text \<open>The frame that a client sends for a message.\<close>

fun client_frame :: "ClientMessage \<Rightarrow> frame" where
  "client_frame Leave = leave_frame"
| "client_frame (Data t p) = room_data t p"
| "client_frame (DataBytes t b) = room_data_bytes t b"
| "client_frame Ping = ping"

lemmas frame_defs = join_room_def error_frame_def room_state_def room_state_patch_def room_data_def
  room_data_bytes_def leave_frame_def ping_def

text \<open>
  C26. What a client sends is what the room decodes: each of the four client messages,
  framed and encoded, is read back as itself, its type (a string or any 64-bit number) and
  payload unchanged.
\<close>

theorem decode_client_frame:
  assumes "codec_reads from_value from_triple enc (client_frame m)"
  shows "decode_client_message from_value from_triple (enc (client_frame m)) = Some m"
  using assms
  by (cases m)
    (auto simp: decode_client_message_def frame_defs frame_code_defs Let_def split: if_splits)

text \<open>
  Frames of the server are never taken for client messages: a join handshake, an
  error, a state or a patch that reaches the decoder is dropped.
\<close>

lemma decode_server_frame:
  assumes "codec_reads from_value from_triple enc f"
    and "f \<in> {join_room tok ser hs, error_frame c msg, room_state st, room_state_patch st}"
  shows "decode_client_message from_value from_triple (enc f) = None"
  using assms
  by (auto simp: decode_client_message_def frame_defs frame_code_defs Let_def)

text \<open>
  The cast to a byte drops the high bits of the code: an array that starts with a number
  equal to 12 modulo 256 is a leave.
\<close>

lemma decode_code_truncated:
  assumes "from_value bs = Some (JArr [jint (int (12 + 256 * k))])" and "12 + 256 * k < 2 ^ 64"
    and "length bs \<noteq> 1"
  shows "decode_client_message from_value from_triple bs = Some Leave"
proof -
  have "(256 :: 8 word) * word_of_nat k = 0 * word_of_nat k"
    by (intro arg_cong [where f = "\<lambda>x. x * word_of_nat k"]) simp
  then have "(word_of_nat (12 + 256 * k) :: 8 word) = 12"
    by simp
  with assms show ?thesis
    by (simp add: decode_client_message_def frame_code_defs Let_def nat_add_distrib)
qed

definition sample_enc :: "frame \<Rightarrow> bytes" where
  "sample_enc f = (case f of Packed v \<Rightarrow> [0x93, 0x0d] | PackedBytes c t b \<Rightarrow> [0x93, 0x11] | RawByte n \<Rightarrow> [word_of_nat n])"

theorem decode_client_frame_witness:
  "decode_client_message (\<lambda>bs. if bs = [0x93, 0x0d] then Some (JArr [jint 13, jint (-7), JNull]) else None)
     (\<lambda>bs. None) (sample_enc (client_frame (Data (Num (- 7)) JNull)))
   = Some (Data (Num (- 7)) JNull)"
  by (rule decode_client_frame)
    (simp add: frame_defs frame_code_defs sample_enc_def mt_to_value_def)

end
