(* ===== verification/Client.thy ===== *)
theory Client
  imports Protocol
begin

text \<open>
  The server-side client handle, \<^verbatim>\<open>crates/colyseus/src/client.rs\<close>, and the
  traffic events of \<^verbatim>\<open>room.rs\<close> it reports. A handle is shared
  (\<^verbatim>\<open>Arc<ClientInner>\<close> with interior mutability); this theory has the inner record
  and the operations on it, the room keeps the records in a store and passes addresses.
  The queue for \<^verbatim>\<open>after_next_patch\<close> messages and the tap belong to the room and
  are passed in and out.
\<close>

section \<open>Traffic events\<close>

record RoomEventLog =
  log_at :: millis
  log_direction :: string
  log_kind :: string
  log_client :: "string option"
  log_msg_type :: "string option"
  log_payload :: "json option"
  log_bytes :: nat

definition event_new :: "millis \<Rightarrow> string \<Rightarrow> string \<Rightarrow> RoomEventLog" where
  "event_new wall direction kind =
     \<lparr>log_at = wall, log_direction = direction, log_kind = kind, log_client = None,
      log_msg_type = None, log_payload = None, log_bytes = 0\<rparr>"

definition event_client :: "string \<Rightarrow> RoomEventLog \<Rightarrow> RoomEventLog" where
  "event_client session_id e = e\<lparr>log_client := Some session_id\<rparr>"

definition event_msg_type :: "MessageType \<Rightarrow> RoomEventLog \<Rightarrow> RoomEventLog" where
  "event_msg_type t e = e\<lparr>log_msg_type := Some (mt_display t)\<rparr>"

definition event_payload :: "json \<Rightarrow> RoomEventLog \<Rightarrow> RoomEventLog" where
  "event_payload payload e = e\<lparr>log_payload := Some payload\<rparr>"

definition event_bytes :: "nat \<Rightarrow> RoomEventLog \<Rightarrow> RoomEventLog" where
  "event_bytes n e = e\<lparr>log_bytes := n\<rparr>"

text \<open>The broadcast channel of events: how many subscribers there are, and what was sent.\<close>

record EventTap =
  receiver_count :: nat
  tap_events :: "RoomEventLog list"

definition tap_send :: "RoomEventLog \<Rightarrow> EventTap \<Rightarrow> EventTap" where
  "tap_send e t = (if receiver_count t > 0 then t\<lparr>tap_events := tap_events t @ [e]\<rparr> else t)"

section \<open>The client record\<close>

datatype ClientState = Joining | Joined | Reconnecting | Reconnected | Leaving | Closed

datatype Outbound = Bytes frame | Close nat string

record SendOptions =
  after_next_patch :: bool

definition default_send_options :: SendOptions where
  "default_send_options = \<lparr>after_next_patch = False\<rparr>"

datatype AfterPatchTarget = ToClient string | ToAll "string option"

record AfterPatchItem =
  item_target :: AfterPatchTarget
  item_bytes :: frame

text \<open>
  \<open>tx\<close> is what was put on the channel to the writer task, \<open>tx_open\<close> whether its
  receiver is alive; a room's queue and tap are attached or not.
\<close>

record client =
  connection_id :: string
  session_id :: string
  tx :: "Outbound list"
  tx_open :: bool
  client_state :: ClientState
  client_auth :: "json option"
  user_data :: "json option"
  reconnection_token :: string
  pending :: "frame list"
  after_patch_attached :: bool
  tap_attached :: bool
  rate :: "instant \<times> nat"

text \<open>\<open>conn\<close> is the generated connection id.\<close>

definition client_new :: "instant \<Rightarrow> string \<Rightarrow> string \<Rightarrow> client" where
  "client_new now conn sid =
     \<lparr>connection_id = conn, session_id = sid, tx = [], tx_open = True, client_state = Joining,
      client_auth = None, user_data = None, reconnection_token = [], pending = [],
      after_patch_attached = False, tap_attached = False, rate = (now, 0)\<rparr>"

definition orphan :: "instant \<Rightarrow> string \<Rightarrow> string \<Rightarrow> client" where
  "orphan now conn sid = (client_new now conn sid)\<lparr>tx_open := False\<rparr>"

definition state_joined :: "ClientState \<Rightarrow> bool" where
  "state_joined s \<longleftrightarrow> s = Joined \<or> s = Reconnected"

definition is_joined :: "client \<Rightarrow> bool" where
  "is_joined c \<longleftrightarrow> state_joined (client_state c)"

definition tx_send :: "Outbound \<Rightarrow> client \<Rightarrow> client" where
  "tx_send o1 c = (if tx_open c then c\<lparr>tx := tx c @ [o1]\<rparr> else c)"

definition raw_now :: "frame \<Rightarrow> client \<Rightarrow> client" where
  "raw_now f c = tx_send (Bytes f) c"

definition set_client_state :: "ClientState \<Rightarrow> client \<Rightarrow> client" where
  "set_client_state s c = c\<lparr>client_state := s\<rparr>"

definition set_auth :: "json option \<Rightarrow> client \<Rightarrow> client" where
  "set_auth a c = c\<lparr>client_auth := a\<rparr>"

definition set_user_data :: "json \<Rightarrow> client \<Rightarrow> client" where
  "set_user_data v c = c\<lparr>user_data := Some v\<rparr>"

definition set_reconnection_token :: "string \<Rightarrow> client \<Rightarrow> client" where
  "set_reconnection_token t c = c\<lparr>reconnection_token := t\<rparr>"

definition attach_after_patch :: "client \<Rightarrow> client" where
  "attach_after_patch c = c\<lparr>after_patch_attached := True\<rparr>"

definition attach_tap :: "client \<Rightarrow> client" where
  "attach_tap c = c\<lparr>tap_attached := True\<rparr>"

definition flush_pending :: "client \<Rightarrow> client" where
  "flush_pending c = fold raw_now (pending c) (c\<lparr>pending := []\<rparr>)"

definition close_transport :: "nat \<Rightarrow> string \<Rightarrow> client \<Rightarrow> client" where
  "close_transport code reason c = tx_send (Close code reason) c"

definition client_leave :: "nat option \<Rightarrow> string option \<Rightarrow> client \<Rightarrow> client" where
  "client_leave code reason c =
     tx_send (Close (case code of Some n \<Rightarrow> n | None \<Rightarrow> NORMAL_CLOSURE)
                    (case reason of Some r \<Rightarrow> r | None \<Rightarrow> []))
       (set_client_state Leaving c)"

definition client_error :: "nat \<Rightarrow> string \<Rightarrow> client \<Rightarrow> client" where
  "client_error code message c = raw_now (error_frame code message) c"

definition invalid_payload :: "string \<Rightarrow> client \<Rightarrow> client" where
  "invalid_payload err c = client_error INVALID_PAYLOAD (''invalid payload: '' @ err) c"

definition deliver ::
  "frame \<Rightarrow> SendOptions \<Rightarrow> client \<Rightarrow> AfterPatchItem list \<Rightarrow> client \<times> AfterPatchItem list" where
  "deliver bytes options c queue =
     (if after_next_patch options \<and> after_patch_attached c
      then (c, queue @ [\<lparr>item_target = ToClient (session_id c), item_bytes = bytes\<rparr>])
      else (case client_state c of
              Joined \<Rightarrow> (raw_now bytes c, queue)
            | Reconnected \<Rightarrow> (raw_now bytes c, queue)
            | Joining \<Rightarrow> (c\<lparr>pending := pending c @ [bytes]\<rparr>, queue)
            | Reconnecting \<Rightarrow> (c\<lparr>pending := pending c @ [bytes]\<rparr>, queue)
            | _ \<Rightarrow> (c, queue)))"

definition send_with_options ::
  "millis \<Rightarrow> MessageType \<Rightarrow> json \<Rightarrow> SendOptions \<Rightarrow> client \<Rightarrow> AfterPatchItem list \<Rightarrow> EventTap
     \<Rightarrow> client \<times> AfterPatchItem list \<times> EventTap" where
  "send_with_options wall msg_type message options c queue tap =
     (let tap' = (if tap_attached c
                  then tap_send (event_payload message (event_msg_type msg_type
                         (event_client (session_id c) (event_new wall ''out'' ''send'')))) tap
                  else tap);
          (c', queue') = deliver (room_data msg_type message) options c queue
      in (c', queue', tap'))"

definition send_bytes ::
  "millis \<Rightarrow> MessageType \<Rightarrow> bytes \<Rightarrow> client \<Rightarrow> AfterPatchItem list \<Rightarrow> EventTap
     \<Rightarrow> client \<times> AfterPatchItem list \<times> EventTap" where
  "send_bytes wall msg_type payload c queue tap =
     (let tap' = (if tap_attached c
                  then tap_send (event_bytes (length payload) (event_msg_type msg_type
                         (event_client (session_id c) (event_new wall ''out'' ''send'')))) tap
                  else tap);
          (c', queue') = deliver (room_data_bytes msg_type payload) default_send_options c queue
      in (c', queue', tap'))"

text \<open>The rate check at instant \<open>now\<close>.\<close>

definition check_rate :: "nat option \<Rightarrow> instant \<Rightarrow> client \<Rightarrow> bool \<times> client" where
  "check_rate max_per_second now c =
     (case max_per_second of
        None \<Rightarrow> (True, c)
      | Some mx \<Rightarrow>
          let r = (if as_secs (now - fst (rate c)) \<ge> 1 then (now, 0) else rate c);
              r' = (fst r, snd r + 1)
          in (snd r' \<le> mx, c\<lparr>rate := r'\<rparr>))"

section \<open>Delivery\<close>

lemmas client_op_defs =
  raw_now_def tx_send_def set_client_state_def set_auth_def set_user_data_def
  set_reconnection_token_def attach_after_patch_def attach_tap_def close_transport_def
  client_leave_def client_error_def invalid_payload_def

lemma raw_now_fields [simp]:
  "client_state (raw_now f c) = client_state c" "session_id (raw_now f c) = session_id c"
  "connection_id (raw_now f c) = connection_id c" "tx_open (raw_now f c) = tx_open c"
  "reconnection_token (raw_now f c) = reconnection_token c" "pending (raw_now f c) = pending c"
  "client_auth (raw_now f c) = client_auth c" "user_data (raw_now f c) = user_data c"
  by (simp_all add: client_op_defs)

lemma tx_raw_now [simp]: "tx (raw_now f c) = tx c @ (if tx_open c then [Bytes f] else [])"
  by (simp add: client_op_defs)

lemma fold_raw_now:
  "fold raw_now fs c = (if tx_open c then c\<lparr>tx := tx c @ map Bytes fs\<rparr> else c)"
  by (induction fs arbitrary: c) (simp_all add: client_op_defs)

lemma flush_pending_eq:
  "flush_pending c =
     (if tx_open c then c\<lparr>pending := [], tx := tx c @ map Bytes (pending c)\<rparr> else c\<lparr>pending := []\<rparr>)"
  by (simp add: flush_pending_def fold_raw_now)

lemma flush_pending_fields [simp]:
  "client_state (flush_pending c) = client_state c" "session_id (flush_pending c) = session_id c"
  "connection_id (flush_pending c) = connection_id c" "pending (flush_pending c) = []"
  "reconnection_token (flush_pending c) = reconnection_token c"
  "client_auth (flush_pending c) = client_auth c" "user_data (flush_pending c) = user_data c"
  by (simp_all add: flush_pending_eq)

text \<open>A run of sends to one client, with the default options.\<close>

fun deliver_all :: "frame list \<Rightarrow> client \<Rightarrow> client" where
  "deliver_all [] c = c"
| "deliver_all (f # fs) c = deliver_all fs (fst (deliver f default_send_options c []))"

lemma deliver_pending:
  "client_state c \<in> {Joining, Reconnecting} \<Longrightarrow> deliver_all fs c = c\<lparr>pending := pending c @ fs\<rparr>"
proof (induction fs arbitrary: c)
  case (Cons f fs)
  then show ?case
    by (auto simp: deliver_def default_send_options_def)
qed simp

text \<open>
  C23. Messages sent to a client that is still joining (or reconnecting) are neither lost nor
  reordered: they wait, and once the join frames went out the flush puts them on the wire in
  the order they were sent, after those frames.
\<close>

theorem pending_messages_in_order:
  assumes "client_state c \<in> {Joining, Reconnecting}" and "tx_open c" and "pending c = []"
  shows "tx (flush_pending (raw_now state (raw_now hello (set_client_state Joined (deliver_all fs c)))))
    = tx c @ [Bytes hello, Bytes state] @ map Bytes fs"
  using assms by (simp add: deliver_pending flush_pending_eq client_op_defs)

theorem pending_messages_in_order_witness:
  "tx (flush_pending (raw_now (room_state JNull) (raw_now (join_room ''t'' ''none'' None)
       (set_client_state Joined (deliver_all [ping, leave_frame] (client_new 0 ''c'' ''s''))))))
   = [Bytes (join_room ''t'' ''none'' None), Bytes (room_state JNull), Bytes ping, Bytes leave_frame]"
  using pending_messages_in_order [of "client_new 0 ''c'' ''s''" "room_state JNull"
      "join_room ''t'' ''none'' None" "[ping, leave_frame]"]
  by (simp add: client_new_def del: deliver_all.simps)

section \<open>Rate limiting\<close>

text \<open>The outcomes of the checks of messages that arrive at the instants \<open>ts\<close>.\<close>

fun rate_run :: "nat \<Rightarrow> instant list \<Rightarrow> client \<Rightarrow> bool list" where
  "rate_run mx [] c = []"
| "rate_run mx (t # ts) c =
     (let (ok, c') = check_rate (Some mx) t c in ok # rate_run mx ts c')"

abbreviation accepted :: "nat \<Rightarrow> instant list \<Rightarrow> client \<Rightarrow> nat" where
  "accepted mx ts c \<equiv> count_list (rate_run mx ts c) True"

lemma one_second: "Suc 0 \<le> as_secs d \<longleftrightarrow> d \<ge> 1000000000"
proof -
  have "Suc 0 \<le> d div 1000000000 \<longleftrightarrow> 1 * 1000000000 \<le> d"
    using less_eq_div_iff_mult_less_eq [of 1000000000 1 d] by simp
  then show ?thesis by (simp add: as_secs_def)
qed

text \<open>Inside a window that is already open, at most what the window has left is accepted.\<close>

lemma accepted_in_window:
  assumes "\<forall>t \<in> set ts. t - fst (rate c) < 1000000000"
  shows "accepted mx ts c \<le> mx - snd (rate c)"
  using assms
proof (induction ts arbitrary: c)
  case (Cons t ts)
  define c' where "c' = c\<lparr>rate := (fst (rate c), snd (rate c) + 1)\<rparr>"
  have step: "check_rate (Some mx) t c = (snd (rate c) + 1 \<le> mx, c')"
    using Cons.prems by (simp add: check_rate_def Let_def one_second c'_def)
  have "accepted mx ts c' \<le> mx - snd (rate c')"
    using Cons.prems by (intro Cons.IH) (simp add: c'_def)
  then show ?case
    by (cases "Suc (snd (rate c)) \<le> mx") (simp_all add: step c'_def)
qed simp

text \<open>A message that opens a window is the first of it.\<close>

lemma accepted_reset:
  assumes "t - fst (rate c) \<ge> 1000000000" and "\<forall>u \<in> set ts. u - t < 1000000000"
  shows "accepted mx (t # ts) c \<le> mx"
proof -
  have step: "check_rate (Some mx) t c = (1 \<le> mx, c\<lparr>rate := (t, 1)\<rparr>)"
    using assms(1) by (simp add: check_rate_def Let_def one_second)
  show ?thesis
    using accepted_in_window [of ts "c\<lparr>rate := (t, 1)\<rparr>" mx] assms(2)
    by (cases "Suc 0 \<le> mx") (simp_all add: step)
qed

lemma accepted_split:
  assumes "sorted ts" and "\<forall>t \<in> set ts. a \<le> t \<and> t < a + 1000000000"
  shows "accepted mx ts c \<le> (mx - snd (rate c)) + mx"
  using assms
proof (induction ts arbitrary: c)
  case (Cons t ts)
  show ?case
  proof (cases "t - fst (rate c) < 1000000000")
    case True
    define c' where "c' = c\<lparr>rate := (fst (rate c), snd (rate c) + 1)\<rparr>"
    have step: "check_rate (Some mx) t c = (snd (rate c) + 1 \<le> mx, c')"
      using True by (simp add: check_rate_def Let_def one_second c'_def)
    have "accepted mx ts c' \<le> (mx - snd (rate c')) + mx"
      using Cons.prems by (intro Cons.IH) simp_all
    then show ?thesis
      by (cases "Suc (snd (rate c)) \<le> mx") (simp_all add: step c'_def)
  next
    case False
    have "accepted mx (t # ts) c \<le> mx"
      using False Cons.prems by (intro accepted_reset) fastforce+
    then show ?thesis by simp
  qed
qed simp

text \<open>
  C35. The rate limiter bounds bursts: of the messages that arrive at the instants \<open>ts\<close>,
  all inside one second, at most twice the limit are accepted, whatever window was open
  before; and of those that fall into the open window at most the limit.
\<close>

theorem check_rate_bounds_bursts:
  assumes "sorted ts" and "\<forall>t \<in> set ts. a \<le> t \<and> t < a + from_secs 1"
  shows "accepted mx ts c \<le> 2 * mx
    \<and> (if \<forall>t \<in> set ts. t - fst (rate c) < from_secs 1 then accepted mx ts c \<le> mx - snd (rate c) else True)"
proof -
  have "accepted mx ts c \<le> (mx - snd (rate c)) + mx"
    using assms by (intro accepted_split [where a = a]) (auto simp: from_secs_def)
  moreover have "accepted mx ts c \<le> mx - snd (rate c)"
    if "\<forall>t \<in> set ts. t - fst (rate c) < from_secs 1"
    using that by (intro accepted_in_window) (simp add: from_secs_def)
  ultimately show ?thesis by auto
qed

theorem check_rate_bounds_bursts_witness:
  "accepted 2 [900000000, 900000001, 900000002, 1800000000, 1800000001, 1800000002]
     (client_new 0 ''c'' ''s'') \<le> 2 * 2"
  using check_rate_bounds_bursts
    [of "[900000000, 900000001, 900000002, 1800000000, 1800000001, 1800000002]" 900000000 2
        "client_new 0 ''c'' ''s''"]
  by (simp add: from_secs_def)

text \<open>
  The bound is reached: the window is fixed, not sliding, so a burst across its end gets
  twice the limit through within a second.
\<close>

lemma check_rate_double_burst:
  "rate_run 2 [900000000, 900000001, 1000000000, 1000000001] (client_new 0 ''c'' ''s'')
     = [True, True, True, True]"
  by (simp add: check_rate_def client_new_def Let_def as_secs_def)

end
