(* ===== verification/Driver.thy ===== *)
theory Driver
  imports Json Errors "HOL-Library.Multiset"
begin

text \<open>
  Room listings and the matchmaking driver, \<^verbatim>\<open>crates/colyseus/src/driver.rs\<close>: the
  listing and its flat JSON form, the parsers of HTTP query parameters and of the JSON
  filter, the matching of a condition, the sort, and the in-memory driver. The driver's
  concurrent map is an association list whose order is its iteration order. The rendering
  of a float as text (the crate \<^verbatim>\<open>ryu\<close>, behind \<^verbatim>\<open>Number::to_string\<close>) is the
  argument \<open>ff\<close>.
\<close>

section \<open>Listings\<close>

record RoomListing =
  l_room_id :: string
  l_name :: string
  l_process_id :: string
  l_clients :: nat
  l_max_clients :: "nat option"
  l_locked :: bool
  l_private :: bool
  l_metadata :: "json option"
  l_created_at :: nat
  l_extra :: obj

text \<open>The fields in the order of the struct; the extra fields are flattened in last.\<close>

definition to_flat_value :: "RoomListing \<Rightarrow> json" where
  "to_flat_value l =
     JObj (fold (\<lambda>(k, v). map_insert k v)
       ([(''roomId'', JStr (l_room_id l)),
         (''name'', JStr (l_name l)),
         (''processId'', JStr (l_process_id l)),
         (''clients'', jint (int (l_clients l)))]
        @ (case l_max_clients l of None \<Rightarrow> [] | Some n \<Rightarrow> [(''maxClients'', jint (int n))])
        @ [(''locked'', JBool (l_locked l)), (''private'', JBool (l_private l))]
        @ (case l_metadata l of None \<Rightarrow> [] | Some v \<Rightarrow> [(''metadata'', v)])
        @ [(''createdAt'', jint (int (l_created_at l)))]
        @ l_extra l) [])"

record ListingEntry =
  listing :: RoomListing
  flat :: json

definition entry_new :: "RoomListing \<Rightarrow> ListingEntry" where
  "entry_new l = \<lparr>listing = l, flat = to_flat_value l\<rparr>"

type_synonym SortOptions = "(string \<times> int) list"
type_synonym Conditions = obj

section \<open>Queries\<close>

datatype Op = Eq | Ne | Gt | Gte | Lt | Lte | In "json list" | Exists | NotExists

record Condition =
  cond_op :: Op
  cond_value :: "json option"

definition condition_eq :: "json \<Rightarrow> Condition" where
  "condition_eq v = \<lparr>cond_op = Eq, cond_value = Some v\<rparr>"

record RoomQuery =
  q_name :: "string option"
  q_conditions :: "(string \<times> Condition) list"
  q_sort :: SortOptions
  q_limit :: "nat option"
  q_offset :: nat
  q_count :: bool

definition default_query :: RoomQuery where
  "default_query =
     \<lparr>q_name = None, q_conditions = [], q_sort = [], q_limit = None, q_offset = 0, q_count = False\<rparr>"

record RoomQueryResult =
  items :: "RoomListing list"
  total :: nat
  r_limit :: "nat option"
  r_offset :: nat
  next_offset :: "nat option"

definition builder_name :: "string \<Rightarrow> RoomQuery \<Rightarrow> RoomQuery" where
  "builder_name n q = q\<lparr>q_name := Some n\<rparr>"

definition builder_filter :: "string \<Rightarrow> json \<Rightarrow> RoomQuery \<Rightarrow> RoomQuery" where
  "builder_filter field v q = q\<lparr>q_conditions := q_conditions q @ [(field, condition_eq v)]\<rparr>"

definition builder_condition :: "string \<Rightarrow> Condition \<Rightarrow> RoomQuery \<Rightarrow> RoomQuery" where
  "builder_condition field c q = q\<lparr>q_conditions := q_conditions q @ [(field, c)]\<rparr>"

definition builder_sort :: "string \<Rightarrow> bool \<Rightarrow> RoomQuery \<Rightarrow> RoomQuery" where
  "builder_sort field desc q = q\<lparr>q_sort := q_sort q @ [(field, if desc then -1 else 1)]\<rparr>"

definition builder_limit :: "nat \<Rightarrow> RoomQuery \<Rightarrow> RoomQuery" where
  "builder_limit n q = q\<lparr>q_limit := Some n\<rparr>"

definition builder_offset :: "nat \<Rightarrow> RoomQuery \<Rightarrow> RoomQuery" where
  "builder_offset n q = q\<lparr>q_offset := n\<rparr>"

definition builder_count_only :: "RoomQuery \<Rightarrow> RoomQuery" where
  "builder_count_only q = q\<lparr>q_count := True\<rparr>"

section \<open>Parsing query parameters\<close>

definition parse_sort_part :: "string \<Rightarrow> string \<times> int" where
  "parse_sort_part part =
     (case rsplit_once (CHR '':'') part of
        Some (f, d) \<Rightarrow>
          if d = ''asc'' \<or> d = ''1'' then (f, 1)
          else if d = ''desc'' \<or> d = ''-1'' then (f, -1)
          else (part, 1)
      | None \<Rightarrow> (part, 1))"

fun parse_sort_parts :: "string list \<Rightarrow> (string, SortOptions) result" where
  "parse_sort_parts [] = Inr []"
| "parse_sort_parts (p # ps) =
     (let part = str_trim p
      in if part = [] then parse_sort_parts ps
         else (case parse_sort_part part of
                 (field, dir) \<Rightarrow>
                   if field = [] then Inl (''invalid sort key '' @ quote @ part @ quote)
                   else (case parse_sort_parts ps of
                           Inl e \<Rightarrow> Inl e
                         | Inr rest \<Rightarrow> Inr ((field, dir) # rest))))"

definition parse_sort :: "string \<Rightarrow> (string, SortOptions) result" where
  "parse_sort raw = parse_sort_parts (split_on (CHR '','') raw)"

definition parse_bool :: "string \<Rightarrow> bool option" where
  "parse_bool s = (if s = ''true'' then Some True else if s = ''false'' then Some False else None)"

text \<open>\<^verbatim>\<open>parse::<i64>()\<close>: a sign, digits, within the width.\<close>

definition parse_i64 :: "string \<Rightarrow> int option" where
  "parse_i64 s =
     (case s of
        c # t \<Rightarrow>
          if c = CHR ''-'' then
            (if all_digits t \<and> digits_val t \<le> 2 ^ 63 then Some (- int (digits_val t)) else None)
          else map_option int (parse_unsigned 63 s)
      | [] \<Rightarrow> None)"

definition OPS :: "string list" where
  "OPS = [''eq'', ''ne'', ''gt'', ''gte'', ''lt'', ''lte'', ''in'', ''exists'', ''notExists'']"

section \<open>Reading a float\<close>

text \<open>
  \<^verbatim>\<open>parse::<f64>()\<close>: an optional sign and \<open>inf\<close>, \<open>infinity\<close>,
  \<open>nan\<close> in any case, or decimal digits with an optional point and exponent, rounded to
  the nearest 64-bit float, ties to even. \<open>Some None\<close> is a float that is not finite.
\<close>

definition round_quotient :: "nat \<Rightarrow> nat \<Rightarrow> rat option" where
  "round_quotient p q =
     (if p = 0 then Some 0
      else let k = int (bit_length p) - int (bit_length q);
               top = (if p * 2 ^ nat (- k) < q * 2 ^ nat k then k - 1 else k);
               e = max (top - 52) (- 1074);
               num = p * 2 ^ nat (- e);
               den = q * 2 ^ nat e;
               n = num div den;
               r = num mod den;
               m = (if 2 * r > den \<or> (2 * r = den \<and> odd n) then n + 1 else n);
               v = of_nat (m * 2 ^ nat e) / of_nat (2 ^ nat (- e))
           in if v \<ge> 2 ^ 1024 then None else Some v)"

definition lower_char :: "char \<Rightarrow> char" where
  "lower_char c =
     (if 65 \<le> (of_char c :: nat) \<and> (of_char c :: nat) \<le> 90 then char_of (of_char c + 32 :: nat) else c)"

definition split_sign :: "string \<Rightarrow> bool \<times> string" where
  "split_sign s =
     (case s of
        c # t \<Rightarrow> if c = CHR ''-'' then (True, t) else if c = CHR ''+'' then (False, t) else (False, s)
      | [] \<Rightarrow> (False, s))"

definition decimal_f64 :: "bool \<Rightarrow> nat \<Rightarrow> int \<Rightarrow> rat option" where
  "decimal_f64 neg digits ex =
     map_option (\<lambda>v. if neg then - v else v)
       (round_quotient (digits * 10 ^ nat ex) (10 ^ nat (- ex)))"

definition parse_f64 :: "string \<Rightarrow> rat option option" where
  "parse_f64 s =
     (let (neg, t) = split_sign s
      in if map lower_char t \<in> {''inf'', ''infinity'', ''nan''} then Some None
         else let ip = takeWhile is_digit t;
                  rest = dropWhile is_digit t;
                  (fp, rest') = (case rest of
                       c # r \<Rightarrow> if c = CHR ''.'' then (takeWhile is_digit r, dropWhile is_digit r)
                                else ([], rest)
                     | [] \<Rightarrow> ([], []));
                  digits = digits_val (ip @ fp)
              in if ip = [] \<and> fp = [] then None
                 else (case rest' of
                         [] \<Rightarrow> Some (decimal_f64 neg digits (- int (length fp)))
                       | c # r \<Rightarrow>
                           if c = CHR ''e'' \<or> c = CHR ''E'' then
                             (let (eneg, ds) = split_sign r;
                                  ex = (if eneg then - int (digits_val ds) else int (digits_val ds))
                              in if all_digits ds
                                 then Some (decimal_f64 neg digits (ex - int (length fp)))
                                 else None)
                           else None))"

definition parse_value :: "string \<Rightarrow> json" where
  "parse_value raw =
     (case parse_i64 raw of
        Some n \<Rightarrow> jint n
      | None \<Rightarrow>
          (case parse_f64 raw of
             Some (Some f) \<Rightarrow> JNum (NFlt f)
           | Some None \<Rightarrow> JNull
           | None \<Rightarrow>
               if raw = ''true'' then JBool True
               else if raw = ''false'' then JBool False
               else if raw = ''null'' then JNull
               else JStr raw))"

definition parse_condition :: "string \<Rightarrow> string \<Rightarrow> (string, string \<times> Condition) result" where
  "parse_condition key raw =
     (let (field, suffix) = (case rsplit_once (CHR ''.'') key of
            Some (f, s) \<Rightarrow> if s \<in> set OPS then (f, Some s) else (key, None)
          | None \<Rightarrow> (key, None));
          cond = (\<lambda>op. Inr (field, \<lparr>cond_op = op, cond_value = Some (parse_value raw)\<rparr>))
      in if field = [] then Inl (''invalid filter field '' @ quote @ key @ quote)
         else (case suffix of
             None \<Rightarrow> cond Eq
           | Some s \<Rightarrow>
               if s = ''eq'' then cond Eq
               else if s = ''ne'' then cond Ne
               else if s = ''gt'' then cond Gt
               else if s = ''gte'' then cond Gte
               else if s = ''lt'' then cond Lt
               else if s = ''lte'' then cond Lte
               else if s = ''in'' then
                 Inr (field, \<lparr>cond_op = In (map parse_value (split_on (CHR '','') raw)), cond_value = None\<rparr>)
               else (case parse_bool raw of
                       None \<Rightarrow> Inl (''invalid exists value '' @ quote @ raw @ quote)
                     | Some ex \<Rightarrow>
                         Inr (field, \<lparr>cond_op = (if ex then Exists else NotExists), cond_value = None\<rparr>))))"

text \<open>The map of parameters, in its iteration order.\<close>

fun from_params_loop :: "(string \<times> string) list \<Rightarrow> RoomQuery \<Rightarrow> (string, RoomQuery) result" where
  "from_params_loop [] q = Inr q"
| "from_params_loop ((key, raw) # ps) q =
     (if key = ''name'' then from_params_loop ps (q\<lparr>q_name := Some raw\<rparr>)
      else if key = ''sort'' then
        (case parse_sort raw of
           Inl e \<Rightarrow> Inl e
         | Inr so \<Rightarrow> from_params_loop ps (q\<lparr>q_sort := so\<rparr>))
      else if key = ''limit'' then
        (case parse_usize raw of
           None \<Rightarrow> Inl (''invalid limit '' @ quote @ raw @ quote)
         | Some n \<Rightarrow> from_params_loop ps (q\<lparr>q_limit := Some n\<rparr>))
      else if key = ''offset'' then
        (case parse_usize raw of
           None \<Rightarrow> Inl (''invalid offset '' @ quote @ raw @ quote)
         | Some n \<Rightarrow> from_params_loop ps (q\<lparr>q_offset := n\<rparr>))
      else if key = ''count'' then
        (case parse_bool raw of
           None \<Rightarrow> Inl (''invalid count '' @ quote @ raw @ quote)
         | Some b \<Rightarrow> from_params_loop ps (q\<lparr>q_count := b\<rparr>))
      else (case parse_condition key raw of
              Inl e \<Rightarrow> Inl e
            | Inr c \<Rightarrow> from_params_loop ps (q\<lparr>q_conditions := q_conditions q @ [c]\<rparr>)))"

definition from_params :: "(string \<times> string) list \<Rightarrow> (string, RoomQuery) result" where
  "from_params params = from_params_loop params default_query"

section \<open>The JSON filter\<close>

definition filter_op :: "string \<Rightarrow> string \<Rightarrow> json \<Rightarrow> (string, Condition) result" where
  "filter_op field op value =
     (let cond = (\<lambda>p. Inr \<lparr>cond_op = p, cond_value = Some value\<rparr>)
      in if op = ''eq'' then cond Eq
         else if op = ''ne'' then cond Ne
         else if op = ''gt'' then cond Gt
         else if op = ''gte'' then cond Gte
         else if op = ''lt'' then cond Lt
         else if op = ''lte'' then cond Lte
         else if op = ''in'' then
           (case value of
              JArr vs \<Rightarrow> Inr \<lparr>cond_op = In vs, cond_value = None\<rparr>
            | _ \<Rightarrow> Inl (quote @ ''in'' @ quote @ '' expects an array for '' @ quote @ field @ quote))
         else if op = ''exists'' \<or> op = ''notExists'' then
           (case as_bool value of
              None \<Rightarrow> Inl (quote @ ''exists'' @ quote @ '' expects a boolean for '' @ quote @ field @ quote)
            | Some ex \<Rightarrow>
                let ex' = (if op = ''notExists'' then \<not> ex else ex)
                in Inr \<lparr>cond_op = (if ex' then Exists else NotExists), cond_value = None\<rparr>)
         else Inl (''unknown filter operator '' @ quote @ op @ quote))"

fun filter_ops :: "string \<Rightarrow> obj \<Rightarrow> (string, (string \<times> Condition) list) result" where
  "filter_ops field [] = Inr []"
| "filter_ops field ((op, value) # ops) =
     (case filter_op field op value of
        Inl e \<Rightarrow> Inl e
      | Inr c \<Rightarrow>
          (case filter_ops field ops of
             Inl e \<Rightarrow> Inl e
           | Inr cs \<Rightarrow> Inr ((field, c) # cs)))"

fun filter_fields :: "obj \<Rightarrow> (string, (string \<times> Condition) list) result" where
  "filter_fields [] = Inr []"
| "filter_fields ((field, raw) # rest) =
     (if field = [] then Inl ''empty filter field''
      else case (case raw of
                   JObj ops \<Rightarrow>
                     if ops = [] then Inl (''empty operator object for '' @ quote @ field @ quote)
                     else filter_ops field ops
                 | v \<Rightarrow> Inr [(field, condition_eq v)]) of
             Inl e \<Rightarrow> Inl e
           | Inr cs \<Rightarrow>
               (case filter_fields rest of
                  Inl e \<Rightarrow> Inl e
                | Inr ds \<Rightarrow> Inr (cs @ ds)))"

definition parse_filter :: "json \<Rightarrow> (string, (string \<times> Condition) list) result" where
  "parse_filter f =
     (case f of
        JObj m \<Rightarrow> filter_fields m
      | _ \<Rightarrow> Inl ''filter must be a JSON object'')"

section \<open>Matching\<close>

fun resolve_parts :: "json \<Rightarrow> string list \<Rightarrow> json option" where
  "resolve_parts cur [] = Some cur"
| "resolve_parts cur (p # ps) = Option.bind (json_get cur p) (\<lambda>c. resolve_parts c ps)"

definition resolve_path :: "json \<Rightarrow> string \<Rightarrow> json option" where
  "resolve_path d path = resolve_parts d (split_on (CHR ''.'') path)"

fun num_to_string :: "(rat \<Rightarrow> string) \<Rightarrow> jnum \<Rightarrow> string" where
  "num_to_string ff (NInt i) = show_int i"
| "num_to_string ff (NFlt f) = ff f"

definition value_eq :: "(rat \<Rightarrow> string) \<Rightarrow> json \<Rightarrow> json \<Rightarrow> bool" where
  "value_eq ff a b =
     (if a = b then True
      else case (a, b) of
          (JNum x, JNum y) \<Rightarrow> num_as_f64 x = num_as_f64 y
        | (JStr x, JNum y) \<Rightarrow> x = num_to_string ff y
        | (JNum x, JStr y) \<Rightarrow> num_to_string ff x = y
        | _ \<Rightarrow> False)"

definition value_cmp :: "json \<Rightarrow> json \<Rightarrow> ordering option" where
  "value_cmp a b =
     (case (a, b) of
        (JNum x, JNum y) \<Rightarrow> Some (cmp (num_as_f64 x) (num_as_f64 y))
      | (JStr x, JStr y) \<Rightarrow> Some (cmp x y)
      | (JBool x, JBool y) \<Rightarrow> Some (cmp x y)
      | _ \<Rightarrow> None)"

definition ordered :: "json option \<Rightarrow> json option \<Rightarrow> (ordering \<Rightarrow> bool) \<Rightarrow> bool" where
  "ordered actual expected test =
     (case expected of
        None \<Rightarrow> False
      | Some e \<Rightarrow>
          (case Option.bind actual (\<lambda>a. value_cmp a e) of
             None \<Rightarrow> False
           | Some o1 \<Rightarrow> test o1))"

definition matches_condition :: "(rat \<Rightarrow> string) \<Rightarrow> json option \<Rightarrow> Condition \<Rightarrow> bool" where
  "matches_condition ff actual c =
     (let expected = (case cond_value c of Some v \<Rightarrow> v | None \<Rightarrow> JNull)
      in case cond_op c of
          Eq \<Rightarrow> (case actual of Some a \<Rightarrow> value_eq ff a expected | None \<Rightarrow> False)
        | Ne \<Rightarrow> \<not> (case actual of Some a \<Rightarrow> value_eq ff a expected | None \<Rightarrow> False)
        | Gt \<Rightarrow> ordered actual (cond_value c) (\<lambda>o1. o1 = Greater)
        | Gte \<Rightarrow> ordered actual (cond_value c) (\<lambda>o1. o1 \<noteq> Less)
        | Lt \<Rightarrow> ordered actual (cond_value c) (\<lambda>o1. o1 = Less)
        | Lte \<Rightarrow> ordered actual (cond_value c) (\<lambda>o1. o1 \<noteq> Greater)
        | In vs \<Rightarrow> (case actual of Some a \<Rightarrow> list_ex (\<lambda>v. value_eq ff a v) vs | None \<Rightarrow> False)
        | Exists \<Rightarrow> actual \<noteq> None
        | NotExists \<Rightarrow> actual = None)"

text \<open>
  The comparator of the sort: the first key that distinguishes the two values decides;
  an absent field is null, and values that cannot be compared count as equal.
\<close>

definition field_or_null :: "json \<Rightarrow> string \<Rightarrow> json" where
  "field_or_null d field = (case resolve_path d field of Some v \<Rightarrow> v | None \<Rightarrow> JNull)"

fun listing_cmp :: "SortOptions \<Rightarrow> json \<Rightarrow> json \<Rightarrow> ordering" where
  "listing_cmp [] fa fb = Equal"
| "listing_cmp ((field, dir) # so) fa fb =
     (let o1 = (case value_cmp (field_or_null fa field) (field_or_null fb field) of
                  Some o2 \<Rightarrow> o2 | None \<Rightarrow> Equal);
          o3 = (if dir < 0 then reverse_ordering o1 else o1)
      in if o3 \<noteq> Equal then o3 else listing_cmp so fa fb)"

text \<open>
  \<^verbatim>\<open>sort_by\<close> is a stable sort: on a comparator that is a total order every stable
  sort computes the same list, given here by insertion.
\<close>

fun insert_by :: "('a \<Rightarrow> 'a \<Rightarrow> ordering) \<Rightarrow> 'a \<Rightarrow> 'a list \<Rightarrow> 'a list" where
  "insert_by c x [] = [x]"
| "insert_by c x (y # ys) = (if c y x = Less then y # insert_by c x ys else x # y # ys)"

fun sort_by :: "('a \<Rightarrow> 'a \<Rightarrow> ordering) \<Rightarrow> 'a list \<Rightarrow> 'a list" where
  "sort_by c [] = []"
| "sort_by c (x # xs) = insert_by c x (sort_by c xs)"

definition sort_listings :: "SortOptions \<Rightarrow> (RoomListing \<times> json) list \<Rightarrow> (RoomListing \<times> json) list" where
  "sort_listings so xs = sort_by (\<lambda>(_, fa) (_, fb). listing_cmp so fa fb) xs"

section \<open>The in-memory driver\<close>

record LocalDriver =
  listings :: "(string \<times> ListingEntry) list"

definition driver_new :: LocalDriver where
  "driver_new = \<lparr>listings = []\<rparr>"

definition driver_len :: "LocalDriver \<Rightarrow> nat" where
  "driver_len d = length (listings d)"

definition driver_get :: "string \<Rightarrow> LocalDriver \<Rightarrow> RoomListing option" where
  "driver_get rid d = map_option listing (map_of (listings d) rid)"

definition driver_insert :: "RoomListing \<Rightarrow> LocalDriver \<Rightarrow> LocalDriver" where
  "driver_insert l d = d\<lparr>listings := AList.update (l_room_id l) (entry_new l) (listings d)\<rparr>"

definition driver_update_by_id ::
  "string \<Rightarrow> (RoomListing \<Rightarrow> RoomListing) \<Rightarrow> LocalDriver \<Rightarrow> bool \<times> LocalDriver" where
  "driver_update_by_id rid f d =
     (case map_of (listings d) rid of
        None \<Rightarrow> (False, d)
      | Some e \<Rightarrow> (True, d\<lparr>listings := AList.update rid (entry_new (f (listing e))) (listings d)\<rparr>))"

definition driver_remove :: "string \<Rightarrow> LocalDriver \<Rightarrow> bool \<times> LocalDriver" where
  "driver_remove rid d =
     (map_of (listings d) rid \<noteq> None, d\<lparr>listings := AList.delete rid (listings d)\<rparr>)"

definition driver_all :: "LocalDriver \<Rightarrow> RoomListing list" where
  "driver_all d = map (\<lambda>(_, e). listing e) (listings d)"

definition driver_clear :: "LocalDriver \<Rightarrow> LocalDriver" where
  "driver_clear d = d\<lparr>listings := []\<rparr>"

definition entry_matches :: "(rat \<Rightarrow> string) \<Rightarrow> RoomQuery \<Rightarrow> ListingEntry \<Rightarrow> bool" where
  "entry_matches ff q e \<longleftrightarrow>
     (case q_name q of
        None \<Rightarrow> True
      | Some n \<Rightarrow> Option.bind (json_get (flat e) ''name'') as_str = Some n)
     \<and> list_all (\<lambda>(field, c). matches_condition ff (resolve_path (flat e) field) c) (q_conditions q)"

definition USIZE_MAX :: nat where
  "USIZE_MAX = 2 ^ 64 - 1"

definition driver_query_rooms ::
  "(rat \<Rightarrow> string) \<Rightarrow> RoomQuery \<Rightarrow> LocalDriver \<Rightarrow> RoomQueryResult" where
  "driver_query_rooms ff q d =
     (let matched = map (\<lambda>(_, e). (listing e, flat e))
            (filter (\<lambda>(_, e). entry_matches ff q e) (listings d));
          matched = (if q_sort q \<noteq> [] then sort_listings (q_sort q) matched else matched);
          tot = length matched
      in if q_count q
         then \<lparr>items = [], total = tot, r_limit = q_limit q, r_offset = q_offset q, next_offset = None\<rparr>
         else let offset = min (q_offset q) tot;
                  limit = (case q_limit q of Some n \<Rightarrow> n | None \<Rightarrow> USIZE_MAX);
                  its = map fst (take limit (drop offset matched))
              in \<lparr>items = its, total = tot, r_limit = q_limit q, r_offset = offset,
                  next_offset = (if offset + length its < tot then Some (offset + length its) else None)\<rparr>)"

text \<open>The two methods with a default body in the trait.\<close>

definition driver_query ::
  "(rat \<Rightarrow> string) \<Rightarrow> Conditions \<Rightarrow> SortOptions option \<Rightarrow> LocalDriver \<Rightarrow> RoomListing list" where
  "driver_query ff conditions so d =
     items (driver_query_rooms ff
       \<lparr>q_name = None,
        q_conditions = map (\<lambda>(field, v). (field, \<lparr>cond_op = Eq, cond_value = Some v\<rparr>)) conditions,
        q_sort = (case so of Some s1 \<Rightarrow> s1 | None \<Rightarrow> []),
        q_limit = None, q_offset = 0, q_count = False\<rparr> d)"

definition driver_find_one ::
  "(rat \<Rightarrow> string) \<Rightarrow> Conditions \<Rightarrow> SortOptions option \<Rightarrow> LocalDriver \<Rightarrow> RoomListing option" where
  "driver_find_one ff conditions so d =
     (case driver_query ff conditions so d of [] \<Rightarrow> None | l # _ \<Rightarrow> Some l)"

section \<open>The directory interface\<close>

text \<open>
  What the rooms and the matchmaker rely on in a driver: the laws of its look-up under
  every operation that changes it, for the trait \<^verbatim>\<open>Driver\<close>.
\<close>

locale room_directory =
  fixes get :: "string \<Rightarrow> 'd \<Rightarrow> RoomListing option"
    and ins :: "RoomListing \<Rightarrow> 'd \<Rightarrow> 'd"
    and upd :: "string \<Rightarrow> (RoomListing \<Rightarrow> RoomListing) \<Rightarrow> 'd \<Rightarrow> bool \<times> 'd"
    and rem :: "string \<Rightarrow> 'd \<Rightarrow> bool \<times> 'd"
    and every :: "'d \<Rightarrow> RoomListing list"
    and inv :: "'d \<Rightarrow> bool"
  assumes get_ins: "get r (ins l d) = (if r = l_room_id l then Some l else get r d)"
    and get_upd: "get r (snd (upd rid f d)) = (if r = rid then map_option f (get rid d) else get r d)"
    and upd_found: "fst (upd rid f d) \<longleftrightarrow> get rid d \<noteq> None"
    and get_rem: "get r (snd (rem rid d)) = (if r = rid then None else get r d)"
    and rem_found: "fst (rem rid d) \<longleftrightarrow> get rid d \<noteq> None"
    and every_get: "inv d \<Longrightarrow> set (every d) = {l. \<exists>r. get r d = Some l}"
    and inv_ins: "inv d \<Longrightarrow> inv (ins l d)"
    and inv_upd: "inv d \<Longrightarrow> inv (snd (upd rid f d))"
    and inv_rem: "inv d \<Longrightarrow> inv (snd (rem rid d))"
begin

text \<open>The updates a room makes to its own listing, one after the other.\<close>

definition updates :: "string \<Rightarrow> (RoomListing \<Rightarrow> RoomListing) list \<Rightarrow> 'd \<Rightarrow> 'd" where
  "updates rid fs d = fold (\<lambda>f d'. snd (upd rid f d')) fs d"

lemma updates_simps [simp]:
  "updates rid [] d = d" "updates rid (f # fs) d = updates rid fs (snd (upd rid f d))"
  by (simp_all add: updates_def)

lemma get_updates:
  "get r (updates rid fs d) = (if r = rid then map_option (fold (\<lambda>f. f) fs) (get rid d) else get r d)"
proof (induction fs arbitrary: d)
  case Nil
  show ?case by (cases "get rid d") auto
next
  case (Cons f fs)
  show ?case by (cases "get rid d") (auto simp: Cons.IH get_upd)
qed

lemma inv_updates: "inv d \<Longrightarrow> inv (updates rid fs d)"
  by (induction fs arbitrary: d) (simp_all add: inv_upd)

text \<open>
  From registration to disposal a listing is visible with its latest fields, no other
  listing is touched, and afterwards nothing of it is left.
\<close>

lemma listing_lifecycle:
  assumes "l_room_id l = rid"
  shows "get r (updates rid fs (ins l d)) = (if r = rid then Some (fold (\<lambda>f. f) fs l) else get r d)"
    and "get r (snd (rem rid (updates rid fs (ins l d)))) = (if r = rid then None else get r d)"
  using assms by (simp_all add: get_updates get_ins get_rem)

end

definition driver_inv :: "LocalDriver \<Rightarrow> bool" where
  "driver_inv d \<longleftrightarrow> distinct (map fst (listings d))"

lemma driver_get_simps [simp, map_simps]:
  "driver_get r (driver_insert l d) = (if r = l_room_id l then Some l else driver_get r d)"
  "driver_get r (snd (driver_update_by_id rid f d))
     = (if r = rid then map_option f (driver_get rid d) else driver_get r d)"
  "driver_get r (snd (driver_remove rid d)) = (if r = rid then None else driver_get r d)"
  by (auto simp: driver_get_def driver_insert_def driver_update_by_id_def driver_remove_def
      update_conv' delete_conv' entry_new_def split: option.splits)

lemma driver_inv_simps [simp]:
  "driver_inv driver_new"
  "driver_inv d \<Longrightarrow> driver_inv (driver_insert l d)"
  "driver_inv d \<Longrightarrow> driver_inv (snd (driver_update_by_id rid f d))"
  "driver_inv d \<Longrightarrow> driver_inv (snd (driver_remove rid d))"
  by (auto simp: driver_inv_def driver_new_def driver_insert_def driver_update_by_id_def
      driver_remove_def distinct_update distinct_delete split: option.splits)

interpretation local_driver: room_directory driver_get driver_insert driver_update_by_id
  driver_remove driver_all driver_inv
proof unfold_locales
  fix d rid f
  show "fst (driver_update_by_id rid f d) \<longleftrightarrow> driver_get rid d \<noteq> None"
    by (simp add: driver_update_by_id_def driver_get_def split: option.splits)
  show "fst (driver_remove rid d) \<longleftrightarrow> driver_get rid d \<noteq> None"
    by (simp add: driver_remove_def driver_get_def)
next
  fix d
  assume "driver_inv d"
  then have "map_of (listings d) r = Some e \<longleftrightarrow> (r, e) \<in> set (listings d)" for r e
    by (simp add: driver_inv_def)
  then show "set (driver_all d) = {l. \<exists>r. driver_get r d = Some l}"
    by (force simp: driver_all_def driver_get_def)
qed simp_all

text \<open>
  The life of a listing in the in-memory driver: after a room registers its listing and
  updates it any number of times (it keeps its id), a look-up finds exactly the updated
  listing and every other listing is as before; after its removal the look-up finds nothing
  and the others are still as before.
\<close>

theorem driver_listing_lifecycle:
  "let registered = fold (\<lambda>f d'. snd (driver_update_by_id (l_room_id l) f d')) fs (driver_insert l d)
   in driver_get r registered
        = (if r = l_room_id l then Some (fold (\<lambda>f. f) fs l) else driver_get r d)
      \<and> driver_get r (snd (driver_remove (l_room_id l) registered))
        = (if r = l_room_id l then None else driver_get r d)"
  using local_driver.listing_lifecycle [of l "l_room_id l" r fs d] by (simp add: local_driver.updates_def)

text \<open>The entries of the driver are listings under their own id, each with its flat form.\<close>

definition driver_wf :: "LocalDriver \<Rightarrow> bool" where
  "driver_wf d \<longleftrightarrow> driver_inv d
     \<and> (\<forall>(rid, e) \<in> set (listings d). rid = l_room_id (listing e) \<and> flat e = to_flat_value (listing e))"

lemma driver_wf_get: "driver_wf d \<Longrightarrow> (rid, e) \<in> set (listings d) \<Longrightarrow> driver_get (l_room_id (listing e)) d = Some (listing e)"
  by (auto simp: driver_wf_def driver_inv_def driver_get_def)

lemma driver_wf_ops:
  assumes "driver_wf d"
  shows "driver_wf (driver_insert l d)" and "driver_wf (snd (driver_remove rid d))" and "driver_wf (driver_clear d)"
    and "(\<And>l'. l_room_id (f l') = l_room_id l') \<Longrightarrow> driver_wf (snd (driver_update_by_id rid f d))"
proof -
  show "driver_wf (driver_insert l d)"
    using assms set_update_subset [of "l_room_id l" "entry_new l" "listings d"]
    by (auto simp: driver_wf_def driver_insert_def driver_inv_def distinct_update entry_new_def)
  show "driver_wf (snd (driver_remove rid d))" "driver_wf (driver_clear d)"
    using assms set_delete_subset [of rid "listings d"]
    by (auto simp: driver_wf_def driver_remove_def driver_clear_def driver_inv_def distinct_delete)
  show "driver_wf (snd (driver_update_by_id rid f d))" if f: "\<And>l'. l_room_id (f l') = l_room_id l'"
  proof (cases "map_of (listings d) rid")
    case None
    then show ?thesis using assms by (simp add: driver_update_by_id_def)
  next
    case (Some e)
    then have "rid = l_room_id (listing e)" using assms map_of_SomeD [OF Some] by (auto simp: driver_wf_def)
    then show ?thesis
      using assms Some f set_update_subset [of rid "entry_new (f (listing e))" "listings d"]
      by (auto simp: driver_wf_def driver_update_by_id_def driver_inv_def distinct_update entry_new_def)
  qed
qed

text \<open>
  What a room may do to the driver: its own listing changes, and goes only when the room
  ends (\<open>b\<close>); the listings of the others stay as they are.
\<close>

definition owned :: "bool \<Rightarrow> string \<Rightarrow> LocalDriver \<Rightarrow> LocalDriver \<Rightarrow> bool" where
  "owned b rid d d' \<longleftrightarrow> (driver_wf d \<longrightarrow> driver_wf d') \<and> (\<forall>r. r \<noteq> rid \<longrightarrow> driver_get r d' = driver_get r d)
     \<and> (b \<or> (driver_get rid d' = None \<longleftrightarrow> driver_get rid d = None))"

lemma owned_refl [simp]: "owned b rid d d"
  by (simp add: owned_def)

lemma owned_trans: "owned b rid d d' \<Longrightarrow> owned b rid d' d'' \<Longrightarrow> owned b rid d d''"
  by (auto simp: owned_def)

lemma owned_weaken: "owned b rid d d' \<Longrightarrow> (b \<Longrightarrow> b') \<Longrightarrow> owned b' rid d d'"
  by (auto simp: owned_def)

lemma owned_True: "owned b rid d d' \<Longrightarrow> owned True rid d d'"
  by (simp add: owned_def)

lemma owned_join: "owned b rid d d' \<Longrightarrow> owned b' rid d' d'' \<Longrightarrow> (b \<Longrightarrow> b') \<Longrightarrow> owned b' rid d d''"
  by (auto simp: owned_def)

lemma owned_update:
  assumes "owned b rid d0 d" and "\<And>l'. l_room_id (f l') = l_room_id l'"
  shows "owned b rid d0 (snd (driver_update_by_id rid f d))"
  using assms(1) driver_wf_ops(4) [of d f rid, OF _ assms(2)] by (auto simp: owned_def)

lemma owned_remove: "owned b rid d0 d \<Longrightarrow> owned True rid d0 (snd (driver_remove rid d))"
  using driver_wf_ops(2) [of d rid] by (auto simp: owned_def)

section \<open>Sorting\<close>

text \<open>A comparator that is a total preorder on a set of values.\<close>

definition total_cmp :: "('a \<Rightarrow> 'a \<Rightarrow> ordering) \<Rightarrow> 'a set \<Rightarrow> bool" where
  "total_cmp c A \<longleftrightarrow>
     (\<forall>x \<in> A. \<forall>y \<in> A. c y x = reverse_ordering (c x y))
     \<and> (\<forall>x \<in> A. \<forall>y \<in> A. \<forall>z \<in> A. c x y \<noteq> Greater \<longrightarrow> c y z \<noteq> Greater \<longrightarrow> c x z \<noteq> Greater)"

lemma reverse_ordering_simps [simp]:
  "reverse_ordering o1 = Greater \<longleftrightarrow> o1 = Less" "reverse_ordering o1 = Less \<longleftrightarrow> o1 = Greater"
  "reverse_ordering o1 = Equal \<longleftrightarrow> o1 = Equal" "Greater = reverse_ordering o1 \<longleftrightarrow> o1 = Less"
  by (cases o1; simp)+

lemma mset_insert_by [simp]: "mset (insert_by c x ys) = add_mset x (mset ys)"
  by (induction ys) auto

lemma mset_sort_by [simp]: "mset (sort_by c xs) = mset xs"
  by (induction xs) auto

lemma set_insert_by [simp]: "set (insert_by c x ys) = insert x (set ys)"
  by (metis mset_insert_by set_mset_add_mset_insert set_mset_mset)

lemma set_sort_by [simp]: "set (sort_by c xs) = set xs"
  by (metis mset_sort_by set_mset_mset)

lemma length_sort_by [simp]: "length (sort_by c xs) = length xs"
  by (metis mset_sort_by size_mset)

lemma total_cmp_mono: "total_cmp c A \<Longrightarrow> B \<subseteq> A \<Longrightarrow> total_cmp c B"
  unfolding total_cmp_def by (meson subsetD)

lemma total_cmp_rev: "total_cmp c A \<Longrightarrow> x \<in> A \<Longrightarrow> y \<in> A \<Longrightarrow> c y x = reverse_ordering (c x y)"
  unfolding total_cmp_def by blast

lemma total_cmp_trans:
  "total_cmp c A \<Longrightarrow> x \<in> A \<Longrightarrow> y \<in> A \<Longrightarrow> z \<in> A \<Longrightarrow> c x y \<noteq> Greater \<Longrightarrow> c y z \<noteq> Greater
     \<Longrightarrow> c x z \<noteq> Greater"
  unfolding total_cmp_def by blast

lemma sorted_insert_by:
  assumes "total_cmp c (insert x (set ys))" and "sorted_wrt (\<lambda>a b. c a b \<noteq> Greater) ys"
  shows "sorted_wrt (\<lambda>a b. c a b \<noteq> Greater) (insert_by c x ys)"
  using assms
proof (induction ys)
  case (Cons y ys)
  show ?case
  proof (cases "c y x = Less")
    case True
    have "total_cmp c (insert x (set ys))"
      using Cons.prems(1) by (rule total_cmp_mono) auto
    with Cons.IH Cons.prems(2) have "sorted_wrt (\<lambda>a b. c a b \<noteq> Greater) (insert_by c x ys)"
      by simp
    with Cons.prems(2) True show ?thesis by simp
  next
    case False
    then have xy: "c x y \<noteq> Greater"
      using total_cmp_rev [OF Cons.prems(1), of y x] by simp
    have "c x z \<noteq> Greater" if "z \<in> set ys" for z
      using that Cons.prems(2) xy total_cmp_trans [OF Cons.prems(1), of x y z] by simp
    with False xy Cons.prems(2) show ?thesis by simp
  qed
qed simp

lemma sorted_sort_by:
  "total_cmp c (set xs) \<Longrightarrow> sorted_wrt (\<lambda>a b. c a b \<noteq> Greater) (sort_by c xs)"
proof (induction xs)
  case (Cons x xs)
  have "total_cmp c (set xs)"
    using Cons.prems by (rule total_cmp_mono) auto
  with Cons show ?case
    using sorted_insert_by [of c x "sort_by c xs"] by simp
qed simp

lemma equal_before:
  assumes "total_cmp c A" "x \<in> A" "y \<in> A" "e \<in> A" "c x e = Equal" "c y x = Less"
  shows "c y e \<noteq> Equal"
proof
  assume "c y e = Equal"
  have "c e y \<noteq> Greater" "c x e \<noteq> Greater"
    using total_cmp_rev [OF assms(1), of y e] assms \<open>c y e = Equal\<close> by auto
  then have "c x y \<noteq> Greater"
    using assms by (intro total_cmp_trans [OF assms(1), of x e y])
  moreover have "c x y = Greater"
    using total_cmp_rev [OF assms(1), of y x] assms by auto
  ultimately show False by simp
qed

lemma stable_insert_by:
  assumes "total_cmp c A" and "insert x (insert e (set ys)) \<subseteq> A"
  shows "filter (\<lambda>z. c z e = Equal) (insert_by c x ys) = filter (\<lambda>z. c z e = Equal) (x # ys)"
  using assms(2)
proof (induction ys)
  case (Cons y ys)
  then show ?case
    using equal_before [OF assms(1), of x y e] by (cases "c y x = Less") simp_all
qed simp

lemma stable_sort_by:
  assumes "total_cmp c A" and "insert e (set xs) \<subseteq> A"
  shows "filter (\<lambda>z. c z e = Equal) (sort_by c xs) = filter (\<lambda>z. c z e = Equal) xs"
  using assms(2)
proof (induction xs)
  case (Cons x xs)
  then have "filter (\<lambda>z. c z e = Equal) (insert_by c x (sort_by c xs))
      = filter (\<lambda>z. c z e = Equal) (x # sort_by c xs)"
    by (intro stable_insert_by [OF assms(1)]) auto
  with Cons show ?case by simp
qed simp

text \<open>
  Values of one kind are totally preordered by the comparison; so are flat listings whose
  sort fields have one kind each.
\<close>

definition same_kind :: "json \<Rightarrow> json \<Rightarrow> bool" where
  "same_kind a b \<longleftrightarrow> value_cmp a b \<noteq> None \<or> (a = JNull \<and> b = JNull)"

definition uniform :: "SortOptions \<Rightarrow> json set \<Rightarrow> bool" where
  "uniform so A \<longleftrightarrow>
     (\<forall>(f, _) \<in> set so. \<forall>x \<in> A. \<forall>y \<in> A. same_kind (field_or_null x f) (field_or_null y f))"

definition key_cmp :: "string \<Rightarrow> int \<Rightarrow> json \<Rightarrow> json \<Rightarrow> ordering" where
  "key_cmp f dir x y =
     (let o1 = (case value_cmp (field_or_null x f) (field_or_null y f) of Some o2 \<Rightarrow> o2 | None \<Rightarrow> Equal)
      in if dir < 0 then reverse_ordering o1 else o1)"

lemma listing_cmp_Cons:
  "listing_cmp ((f, dir) # so) x y =
     (if key_cmp f dir x y \<noteq> Equal then key_cmp f dir x y else listing_cmp so x y)"
  by (simp add: key_cmp_def Let_def)

lemma value_cmp_total:
  assumes "\<forall>x \<in> A. \<forall>y \<in> A. same_kind x y"
  shows "total_cmp (\<lambda>x y. case value_cmp x y of Some o2 \<Rightarrow> o2 | None \<Rightarrow> Equal) A"
proof -
  let ?c = "\<lambda>x y. case value_cmp x y of Some o2 \<Rightarrow> o2 | None \<Rightarrow> Equal"
  have rev: "?c y x = reverse_ordering (?c x y)" for x y
    by (auto simp: value_cmp_def split: json.splits)
  have trans: "?c x z \<noteq> Greater"
    if "x \<in> A" "y \<in> A" "z \<in> A" "?c x y \<noteq> Greater" "?c y z \<noteq> Greater" for x y z
    using assms that
    by (cases x; cases y; cases z) (fastforce simp: same_kind_def value_cmp_def)+
  show ?thesis
    unfolding total_cmp_def using rev trans by blast
qed

lemma total_cmp_direction:
  assumes "total_cmp c A"
  shows "total_cmp (\<lambda>x y. if dir < (0 :: int) then reverse_ordering (c x y) else c x y) A"
proof -
  note rev = total_cmp_rev [OF assms] and trans = total_cmp_trans [OF assms]
  have swap: "reverse_ordering (c x y) = c y x" if "x \<in> A" "y \<in> A" for x y
    using rev [OF that] by simp
  have "reverse_ordering (c x z) \<noteq> Greater"
    if "x \<in> A" "y \<in> A" "z \<in> A" "reverse_ordering (c x y) \<noteq> Greater" "reverse_ordering (c y z) \<noteq> Greater"
    for x y z
    using that trans [of z y x] by (simp only: swap) blast
  moreover have "reverse_ordering (c y x) = reverse_ordering (reverse_ordering (c x y))"
    if "x \<in> A" "y \<in> A" for x y
    using rev [OF that] by simp
  ultimately have "total_cmp (\<lambda>x y. reverse_ordering (c x y)) A"
    unfolding total_cmp_def by blast
  then show ?thesis
    using assms by (cases "dir < 0") simp_all
qed

lemma total_cmp_lex:
  assumes k: "total_cmp k A" and r: "total_cmp r A"
  shows "total_cmp (\<lambda>x y. if k x y \<noteq> Equal then k x y else r x y) A"
proof -
  let ?c = "\<lambda>x y. if k x y \<noteq> Equal then k x y else r x y"
  have rev: "?c y x = reverse_ordering (?c x y)" if "x \<in> A" "y \<in> A" for x y
    using total_cmp_rev [OF k that] total_cmp_rev [OF r that] by auto
  have trans: "?c x z \<noteq> Greater"
    if A: "x \<in> A" "y \<in> A" "z \<in> A" and xy: "?c x y \<noteq> Greater" and yz: "?c y z \<noteq> Greater" for x y z
  proof -
    have kxy: "k x y \<noteq> Greater" "k y z \<noteq> Greater" using xy yz by (auto split: if_splits)
    note kxz = total_cmp_trans [OF k A kxy]
    show ?thesis
    proof (cases "k x z = Equal")
      case True
      have "k y z = Equal" "k x y = Equal"
        using total_cmp_trans [OF k A(2,3,1)] total_cmp_trans [OF k A(3,1,2)] kxy True
          total_cmp_rev [OF k A(1,3)] total_cmp_rev [OF k A(1,2)] total_cmp_rev [OF k A(2,3)]
        by (metis ordering.exhaust reverse_ordering.simps ordering.distinct)+
      with True xy yz show ?thesis
        using total_cmp_trans [OF r A] by (auto split: if_splits)
    qed (use kxz in simp)
  qed
  show ?thesis
    unfolding total_cmp_def using rev trans by blast
qed

lemma key_cmp_total:
  assumes "\<forall>x \<in> A. \<forall>y \<in> A. same_kind (field_or_null x f) (field_or_null y f)"
  shows "total_cmp (key_cmp f dir) A"
proof -
  let ?c = "\<lambda>x y. case value_cmp x y of Some o2 \<Rightarrow> o2 | None \<Rightarrow> Equal"
  have "total_cmp ?c ((\<lambda>x. field_or_null x f) ` A)"
    using assms by (intro value_cmp_total) auto
  then have "total_cmp (\<lambda>x y. ?c (field_or_null x f) (field_or_null y f)) A"
    unfolding total_cmp_def by blast
  from total_cmp_direction [OF this, of dir] show ?thesis
    by (simp add: key_cmp_def [abs_def] Let_def)
qed

lemma listing_cmp_total: "uniform so A \<Longrightarrow> total_cmp (listing_cmp so) A"
proof (induction so)
  case Nil
  show ?case by (simp add: total_cmp_def)
next
  case (Cons fd so)
  obtain f dir where fd: "fd = (f, dir)" by (cases fd)
  have "total_cmp (key_cmp f dir) A" "total_cmp (listing_cmp so) A"
    using Cons by (auto simp: fd uniform_def intro: key_cmp_total)
  from total_cmp_lex [OF this] show ?case
    by (simp add: fd listing_cmp_Cons [abs_def])
qed

lemma total_cmp_vimage: "total_cmp c (g ` A) \<Longrightarrow> total_cmp (\<lambda>x y. c (g x) (g y)) A"
  unfolding total_cmp_def by blast


text \<open>
  C38. Without that condition the comparator is no order: among a listing with the field
  2, one without the field and one with the field 1, each neighbour ties and yet the first
  is greater than the last. The library sort of the code may then leave the listings
  unsorted, or panic.
\<close>

theorem listing_cmp_not_transitive:
  "\<exists>x y z. listing_cmp [(''level'', 1)] x y = Equal \<and> listing_cmp [(''level'', 1)] y z = Equal
     \<and> listing_cmp [(''level'', 1)] x z = Greater"
  by (rule exI [of _ "JObj [(''level'', jint 2)]"], rule exI [of _ "JObj []"],
      rule exI [of _ "JObj [(''level'', jint 1)]"])
    (simp add: field_or_null_def resolve_path_def value_cmp_def f64_of_int_small)


section \<open>Pages\<close>

definition matched_entries ::
  "(rat \<Rightarrow> string) \<Rightarrow> RoomQuery \<Rightarrow> LocalDriver \<Rightarrow> RoomListing list" where
  "matched_entries ff q d =
     (let m = map (\<lambda>(_, e). (listing e, flat e)) (filter (\<lambda>(_, e). entry_matches ff q e) (listings d))
      in map fst (if q_sort q \<noteq> [] then sort_listings (q_sort q) m else m))"

lemma entry_matches_offset [simp]: "entry_matches ff (q\<lparr>q_offset := n\<rparr>) e = entry_matches ff q e"
  by (simp add: entry_matches_def)

lemma matched_entries_offset [simp]:
  "matched_entries ff (q\<lparr>q_offset := n\<rparr>) d = matched_entries ff q d"
  by (simp add: matched_entries_def Let_def cong: if_cong)

lemma mset_matched_entries:
  "mset (matched_entries ff q d) = mset (map listing (filter (entry_matches ff q) (map snd (listings d))))"
  by (simp add: matched_entries_def Let_def sort_listings_def filter_map comp_def case_prod_beta'
      multiset.map_comp)

lemma query_page:
  assumes "\<not> q_count q" and "q_limit q = Some n"
  shows "items (driver_query_rooms ff q d) = take n (drop (q_offset q) (matched_entries ff q d))"
    and "next_offset (driver_query_rooms ff q d) =
      (if q_offset q + n < length (matched_entries ff q d) \<and> q_offset q < length (matched_entries ff q d)
       then Some (q_offset q + n) else None)"
    and "total (driver_query_rooms ff q d) = length (matched_entries ff q d)"
proof -
  define m where "m =
    (let m0 = map (\<lambda>(_, e). (listing e, flat e)) (filter (\<lambda>(_, e). entry_matches ff q e) (listings d))
     in if q_sort q \<noteq> [] then sort_listings (q_sort q) m0 else m0)"
  let ?o = "min (q_offset q) (length m)"
  have drop: "drop ?o m = drop (q_offset q) m"
    by (simp add: min_def)
  have entries: "matched_entries ff q d = map fst m"
    by (simp add: matched_entries_def m_def Let_def)
  have r: "driver_query_rooms ff q d =
      (let its = map fst (take n (drop ?o m))
       in \<lparr>items = its, total = length m, r_limit = q_limit q, r_offset = ?o,
           next_offset = (if ?o + length its < length m then Some (?o + length its) else None)\<rparr>)"
    using assms unfolding driver_query_rooms_def m_def Let_def by (simp cong: if_cong)
  show "items (driver_query_rooms ff q d) = take n (drop (q_offset q) (matched_entries ff q d))"
    unfolding r Let_def drop entries by (simp add: take_map drop_map)
  show "next_offset (driver_query_rooms ff q d) =
      (if q_offset q + n < length (matched_entries ff q d) \<and> q_offset q < length (matched_entries ff q d)
       then Some (q_offset q + n) else None)"
    unfolding r Let_def drop entries by (auto simp: min_def)
  show "total (driver_query_rooms ff q d) = length (matched_entries ff q d)"
    unfolding r Let_def entries by simp
qed

text \<open>A client that follows \<open>nextOffset\<close>, for at most \<open>k\<close> requests.\<close>

fun follow_pages :: "(rat \<Rightarrow> string) \<Rightarrow> nat \<Rightarrow> RoomQuery \<Rightarrow> LocalDriver \<Rightarrow> RoomListing list" where
  "follow_pages ff 0 q d = []"
| "follow_pages ff (Suc k) q d =
     (let r = driver_query_rooms ff q d
      in items r @ (case next_offset r of
           None \<Rightarrow> []
         | Some n \<Rightarrow> follow_pages ff k (q\<lparr>q_offset := n\<rparr>) d))"

lemma follow_pages_eq:
  assumes "\<not> q_count q" and "q_limit q = Some n" and "0 < n"
    and "length (matched_entries ff q d) - q_offset q \<le> k"
  shows "follow_pages ff k q d = drop (q_offset q) (matched_entries ff q d)"
  using assms
proof (induction k arbitrary: q)
  case (Suc k)
  note page = query_page [OF Suc.prems(1,2), of ff d]
  show ?case
  proof (cases "next_offset (driver_query_rooms ff q d)")
    case None
    then show ?thesis
      using page Suc.prems(3) by (auto split: if_splits)
  next
    case (Some j)
    then have j: "j = q_offset q + n" "q_offset q + n < length (matched_entries ff q d)"
      using page by (auto split: if_splits)
    have "follow_pages ff k (q\<lparr>q_offset := j\<rparr>) d = drop j (matched_entries ff q d)"
      using Suc.IH [of "q\<lparr>q_offset := j\<rparr>"] Suc.prems j by simp
    then have "follow_pages ff (Suc k) q d
        = take n (drop (q_offset q) (matched_entries ff q d)) @ drop j (matched_entries ff q d)"
      by (simp add: Let_def Some page)
    also have "\<dots> = drop (q_offset q) (matched_entries ff q d)"
      by (metis append_take_drop_id drop_drop j(1) add.commute)
    finally show ?thesis .
  qed
qed simp





end
