(* ===== verification/Presence.thy ===== *)
theory Presence
  imports Json Text
begin

text \<open>
  The in-process presence store, \<^verbatim>\<open>crates/colyseus/src/presence.rs\<close>: topics,
  keys and hashes. A subscriber is the queue of the values published since it subscribed
  (the broadcast channel keeps the last 256 of them for a subscriber that lags; the
  stream drops the lag notice).
\<close>

record LocalPresence =
  topics :: "(string \<times> json list list) list"
  kv :: "(string \<times> json) list"
  hashes :: "(string \<times> (string \<times> json) list) list"

definition presence_new :: LocalPresence where
  "presence_new = \<lparr>topics = [], kv = [], hashes = []\<rparr>"

definition CHANNEL_CAPACITY :: nat where
  "CHANNEL_CAPACITY = 256"

definition channel_push :: "'a \<Rightarrow> 'a list \<Rightarrow> 'a list" where
  "channel_push v q = (let q' = q @ [v] in drop (length q' - CHANNEL_CAPACITY) q')"

definition publish :: "string \<Rightarrow> json \<Rightarrow> LocalPresence \<Rightarrow> LocalPresence" where
  "publish topic message p =
     (case map_of (topics p) topic of
        None \<Rightarrow> p
      | Some subs \<Rightarrow> p\<lparr>topics := AList.update topic (map (channel_push message) subs) (topics p)\<rparr>)"

text \<open>The result is the index of the new subscriber among those of the topic.\<close>

definition subscribe :: "string \<Rightarrow> LocalPresence \<Rightarrow> nat \<times> LocalPresence" where
  "subscribe topic p =
     (let subs = (case map_of (topics p) topic of Some s \<Rightarrow> s | None \<Rightarrow> [])
      in (length subs, p\<lparr>topics := AList.update topic (subs @ [[]]) (topics p)\<rparr>))"

definition presence_set :: "string \<Rightarrow> json \<Rightarrow> LocalPresence \<Rightarrow> LocalPresence" where
  "presence_set key v p = p\<lparr>kv := AList.update key v (kv p)\<rparr>"

definition presence_get :: "string \<Rightarrow> LocalPresence \<Rightarrow> json option" where
  "presence_get key p = map_of (kv p) key"

definition presence_del :: "string \<Rightarrow> LocalPresence \<Rightarrow> LocalPresence" where
  "presence_del key p = p\<lparr>kv := AList.delete key (kv p)\<rparr>"

definition hset :: "string \<Rightarrow> string \<Rightarrow> json \<Rightarrow> LocalPresence \<Rightarrow> LocalPresence" where
  "hset key field v p =
     (let h = (case map_of (hashes p) key of Some h \<Rightarrow> h | None \<Rightarrow> [])
      in p\<lparr>hashes := AList.update key (AList.update field v h) (hashes p)\<rparr>)"

definition hget :: "string \<Rightarrow> string \<Rightarrow> LocalPresence \<Rightarrow> json option" where
  "hget key field p = Option.bind (map_of (hashes p) key) (\<lambda>h. map_of h field)"

definition hdel :: "string \<Rightarrow> string \<Rightarrow> LocalPresence \<Rightarrow> LocalPresence" where
  "hdel key field p =
     (case map_of (hashes p) key of
        None \<Rightarrow> p
      | Some h \<Rightarrow> p\<lparr>hashes := AList.update key (AList.delete field h) (hashes p)\<rparr>)"

definition hgetall :: "string \<Rightarrow> LocalPresence \<Rightarrow> (string \<times> json) list" where
  "hgetall key p = (case map_of (hashes p) key of Some h \<Rightarrow> h | None \<Rightarrow> [])"

section \<open>The interface\<close>

text \<open>
  What room code relies on in a presence backend: reads after writes for keys and for
  the fields of a hash, and no interference between different keys and fields.
\<close>

locale presence_store =
  fixes pset :: "string \<Rightarrow> json \<Rightarrow> 'p \<Rightarrow> 'p"
    and pget :: "string \<Rightarrow> 'p \<Rightarrow> json option"
    and pdel :: "string \<Rightarrow> 'p \<Rightarrow> 'p"
    and hashset :: "string \<Rightarrow> string \<Rightarrow> json \<Rightarrow> 'p \<Rightarrow> 'p"
    and hashget :: "string \<Rightarrow> string \<Rightarrow> 'p \<Rightarrow> json option"
    and hashdel :: "string \<Rightarrow> string \<Rightarrow> 'p \<Rightarrow> 'p"
  assumes get_set: "pget k (pset k' v p) = (if k = k' then Some v else pget k p)"
    and get_del: "pget k (pdel k' p) = (if k = k' then None else pget k p)"
    and hget_hset: "hashget k f (hashset k' f' v p)
          = (if k = k' \<and> f = f' then Some v else hashget k f p)"
    and hget_hdel: "hashget k f (hashdel k' f' p)
          = (if k = k' \<and> f = f' then None else hashget k f p)"
begin

text \<open>A lock built on a key, as multi-process deployments use it: taken, seen, released.\<close>

lemma set_then_del: "pget k (pdel k' (pset k' v p)) = (if k = k' then None else pget k p)"
  by (simp add: get_set get_del)

lemma hset_commute:
  "(k, f) \<noteq> (k', f') \<Longrightarrow> hashget a b (hashset k f v (hashset k' f' w p))
     = hashget a b (hashset k' f' w (hashset k f v p))"
  by (auto simp: hget_hset)

end

interpretation local_presence: presence_store presence_set presence_get presence_del hset hget hdel
  by unfold_locales
    (auto simp: presence_set_def presence_get_def presence_del_def hset_def hget_def hdel_def
      update_conv' delete_conv' Let_def split: option.splits)

lemma hgetall_hget: "map_of (hgetall key p) field = hget key field p"
  by (simp add: hgetall_def hget_def split: option.splits)

text \<open>A subscriber gets what is published after it subscribed, in order, while it keeps up.\<close>

definition inbox :: "string \<Rightarrow> nat \<Rightarrow> LocalPresence \<Rightarrow> json list" where
  "inbox topic i p = (case map_of (topics p) topic of Some subs \<Rightarrow> subs ! i | None \<Rightarrow> [])"

definition subscribers :: "string \<Rightarrow> LocalPresence \<Rightarrow> nat" where
  "subscribers topic p = (case map_of (topics p) topic of Some subs \<Rightarrow> length subs | None \<Rightarrow> 0)"

lemma channel_push_small: "length q < CHANNEL_CAPACITY \<Longrightarrow> channel_push v q = q @ [v]"
  by (simp add: channel_push_def Let_def)

lemma channel_push_bounded: "length (channel_push v q) \<le> CHANNEL_CAPACITY"
  by (simp add: channel_push_def Let_def)

lemma publish_inbox:
  assumes "i < subscribers topic p"
  shows "inbox topic' i (publish topic v p)
      = (if topic' = topic then channel_push v (inbox topic i p) else inbox topic' i p)"
    and "subscribers topic' (publish topic v p) = subscribers topic' p"
  using assms
  by (auto simp: inbox_def subscribers_def publish_def update_conv' split: option.splits)

lemma subscribe_inbox:
  assumes "subscribe topic p = (i, p')"
  shows "inbox topic i p' = []" and "i < subscribers topic p'"
  using assms
  by (auto simp: inbox_def subscribers_def subscribe_def update_conv' Let_def split: option.splits)

lemma published_in_order:
  assumes "i < subscribers topic p" and "length (inbox topic i p) + length vs \<le> CHANNEL_CAPACITY"
  shows "inbox topic i (fold (publish topic) vs p) = inbox topic i p @ vs"
  using assms
proof (induction vs arbitrary: p)
  case (Cons v vs)
  have "inbox topic i (publish topic v p) = inbox topic i p @ [v]"
    using Cons.prems by (simp add: publish_inbox channel_push_small)
  moreover have "subscribers topic (publish topic v p) = subscribers topic p"
    using Cons.prems(1) by (rule publish_inbox(2))
  ultimately show ?case
    using Cons.IH [of "publish topic v p"] Cons.prems by simp
qed simp

text \<open>
  The in-process presence: a subscriber that reads nothing yet holds exactly the
  messages published after it subscribed, in order, for up to 256 of them; and a key or a
  hash field reads as what was last written to it.
\<close>

theorem presence_delivers:
  assumes "subscribe topic p = (i, p')" and "length vs \<le> CHANNEL_CAPACITY"
  shows "inbox topic i (fold (publish topic) vs p') = vs
    \<and> presence_get k (presence_set k' v p) = (if k = k' then Some v else presence_get k p)
    \<and> hget k f (hset k' f' v p) = (if k = k' \<and> f = f' then Some v else hget k f p)"
  using published_in_order [of i topic p' vs] subscribe_inbox [OF assms(1)] assms(2)
    local_presence.get_set local_presence.hget_hset by simp

theorem presence_delivers_witness:
  "inbox ''news'' 0 (fold (publish ''news'') [jint 1, jint 2] (snd (subscribe ''news'' presence_new)))
     = [jint 1, jint 2]"
  using presence_delivers [of "''news''" presence_new 0 "snd (subscribe ''news'' presence_new)"
      "[jint 1, jint 2]"]
  by (simp add: subscribe_def presence_new_def CHANNEL_CAPACITY_def)

end
