(* ===== verification/Snapshot.thy ===== *)
theory Snapshot
  imports Protocol
begin

text \<open>
  Room persistence, \<^verbatim>\<open>crates/colyseus/src/snapshot.rs\<close>: the snapshot record, the
  on-disk envelope, the file store and the background writer. The MessagePack serializer
  of the snapshot (\<^verbatim>\<open>rmp_serde\<close>) and the checksum (\<^verbatim>\<open>crc32fast\<close>)
  are arguments; the file system is a map from file names to contents, whose operations
  succeed or fail as the environment decides.
\<close>

section \<open>The snapshot\<close>

record PersistedReconnection =
  pr_session_id :: string
  pr_token :: string
  pr_expires_at_ms :: "millis option"
  pr_auth :: "json option"
  pr_user_data :: "json option"

record PersistedSeat =
  ps_session_id :: string
  ps_options :: json
  ps_auth :: "json option"
  ps_expires_at_ms :: millis

record RoomSnapshot =
  s_schema_version :: nat
  s_room_id :: string
  s_room_name :: string
  s_process_id :: string
  s_created_at :: millis
  s_saved_at :: millis
  s_clock_elapsed_ms :: millis
  s_options :: json
  s_state :: json
  s_internal :: json
  s_metadata :: "json option"
  s_locked :: bool
  s_private :: bool
  s_max_clients :: "nat option"
  s_filter_extra :: obj
  s_reconnections :: "PersistedReconnection list"
  s_seats :: "PersistedSeat list"

text \<open>\<open>de\<close> is the deserializer of the concrete state type.\<close>

definition snapshot_state :: "(json \<Rightarrow> (string, 's) result) \<Rightarrow> RoomSnapshot \<Rightarrow> (string, 's) result" where
  "snapshot_state de s = de (s_state s)"

definition snapshot_internal :: "(json \<Rightarrow> (string, 'i) result) \<Rightarrow> RoomSnapshot \<Rightarrow> (string, 'i) result" where
  "snapshot_internal de s = de (s_internal s)"

section \<open>The envelope\<close>

text \<open>The bytes of \<open>CLRS\<close>.\<close>

definition MAGIC :: bytes where
  "MAGIC = [0x43, 0x4C, 0x52, 0x53]"

definition ENVELOPE_VERSION :: "32 word" where
  "ENVELOPE_VERSION = 1"

definition to_be_bytes :: "32 word \<Rightarrow> bytes" where
  "to_be_bytes w = [ucast (drop_bit 24 w), ucast (drop_bit 16 w), ucast (drop_bit 8 w), ucast w]"

definition from_be_bytes :: "8 word \<Rightarrow> 8 word \<Rightarrow> 8 word \<Rightarrow> 8 word \<Rightarrow> 32 word" where
  "from_be_bytes a b c d = word_rcat [a, b, c, d]"

definition encode_snapshot ::
  "(RoomSnapshot \<Rightarrow> bytes) \<Rightarrow> (bytes \<Rightarrow> 32 word) \<Rightarrow> RoomSnapshot \<Rightarrow> bytes" where
  "encode_snapshot to_vec crc32 s =
     (let payload = to_vec s
      in MAGIC @ to_be_bytes ENVELOPE_VERSION @ to_be_bytes (crc32 payload) @ payload)"

definition decode_snapshot ::
  "(bytes \<Rightarrow> (string, RoomSnapshot) result) \<Rightarrow> (bytes \<Rightarrow> 32 word) \<Rightarrow> bytes
     \<Rightarrow> (string, RoomSnapshot) result" where
  "decode_snapshot from_slice crc32 bs =
     (if length bs < 12 then Inl ''snapshot too short''
      else if take 4 bs \<noteq> MAGIC then Inl ''bad snapshot magic''
      else let version = from_be_bytes (bs ! 4) (bs ! 5) (bs ! 6) (bs ! 7);
               expected = from_be_bytes (bs ! 8) (bs ! 9) (bs ! 10) (bs ! 11);
               payload = drop 12 bs
           in if version > ENVELOPE_VERSION
              then Inl (''unsupported snapshot envelope version '' @ show_nat (unat version))
              else if crc32 payload \<noteq> expected then Inl ''snapshot checksum mismatch''
              else from_slice payload)"

lemma byte_digits:
  fixes x :: int
  shows "x mod 256 + 256 * (x div 2 ^ 8 mod 256 + 256 * (x div 2 ^ 16 mod 256 + 256 * (x div 2 ^ 24)))
    = x"
proof -
  have split: "x div 2 ^ 8 = x div 256" "x div 2 ^ 16 = x div 256 div 256"
    "x div 2 ^ 24 = x div 256 div 256 div 256"
    by (simp_all add: zdiv_zmult2_eq [symmetric])
  show ?thesis
    unfolding split by (simp only: mod_mult_div_eq)
qed

lemma from_to_be_bytes:
  "to_be_bytes w = [a, b, c, d] \<Longrightarrow> from_be_bytes a b c d = w"
proof -
  assume "to_be_bytes w = [a, b, c, d]"
  then have bytes: "a = ucast (drop_bit 24 w)" "b = ucast (drop_bit 16 w)"
    "c = ucast (drop_bit 8 w)" "d = ucast w"
    by (simp_all add: to_be_bytes_def)
  have "uint (from_be_bytes a b c d)
      = (uint d + 256 * (uint c + 256 * (uint b + 256 * uint a))) mod 2 ^ 32"
  proof -
    have "horner_sum uint 256 (rev [a, b, c, d])
        = uint d + 256 * (uint c + 256 * (uint b + 256 * uint a))"
      by simp
    then show ?thesis
      by (simp only: from_be_bytes_def word_rcat_def comp_apply uint_word_of_int_eq take_bit_eq_mod)
        simp
  qed
  also have "\<dots> = uint w mod 2 ^ 32"
  proof -
    have u: "uint a = uint w div 2 ^ 24 mod 256" "uint b = uint w div 2 ^ 16 mod 256"
      "uint c = uint w div 2 ^ 8 mod 256" "uint d = uint w mod 256"
      by (simp_all add: bytes unsigned_ucast_eq unsigned_drop_bit_eq drop_bit_eq_div uint_div_distrib take_bit_eq_mod)
    have "uint w < 2 ^ 32" using uint_lt2p [of w] by simp
    then have "uint w div 2 ^ 24 mod 256 = uint w div 2 ^ 24"
      by (intro mod_pos_pos_trivial) (auto simp: pos_imp_zdiv_nonneg_iff)
    then show ?thesis
      by (simp only: u byte_digits)
  qed
  also have "\<dots> = uint w"
    using uint_lt2p [of w] by simp
  finally show ?thesis by (rule word_uint_eq_iff [THEN iffD2])
qed

lemma length_to_be_bytes [simp]: "length (to_be_bytes w) = 4"
  by (simp add: to_be_bytes_def)

lemma four_bytes: "length h = 4 \<Longrightarrow> \<exists>a b c d. h = [a, b, c, d]"
  by (simp add: numeral_eq_Suc length_Suc_conv) blast

lemma decode_of_parts:
  assumes "length h = 4"
  shows "decode_snapshot from_slice crc32 (h @ to_be_bytes v @ to_be_bytes c @ payload) =
    (if h \<noteq> MAGIC then Inl ''bad snapshot magic''
     else if v > ENVELOPE_VERSION then Inl (''unsupported snapshot envelope version '' @ show_nat (unat v))
     else if crc32 payload \<noteq> c then Inl ''snapshot checksum mismatch''
     else from_slice payload)"
proof -
  obtain h0 h1 h2 h3 where h: "h = [h0, h1, h2, h3]" using four_bytes [OF assms] by blast
  obtain v0 v1 v2 v3 where v: "to_be_bytes v = [v0, v1, v2, v3]"
    using four_bytes [of "to_be_bytes v"] by auto
  obtain c0 c1 c2 c3 where c: "to_be_bytes c = [c0, c1, c2, c3]"
    using four_bytes [of "to_be_bytes c"] by auto
  define bs where "bs = h @ to_be_bytes v @ to_be_bytes c @ payload"
  have "length bs \<ge> 12" "take 4 bs = h" "drop 12 bs = payload"
    "bs ! 4 = v0" "bs ! 5 = v1" "bs ! 6 = v2" "bs ! 7 = v3"
    "bs ! 8 = c0" "bs ! 9 = c1" "bs ! 10 = c2" "bs ! 11 = c3"
    by (simp_all add: bs_def h v c)
  then show ?thesis
    unfolding bs_def [symmetric]
    by (simp add: decode_snapshot_def Let_def from_to_be_bytes [OF v] from_to_be_bytes [OF c])
qed

text \<open>
  C25. The envelope round trip and its rejections: a snapshot that MessagePack reads back
  is read back from its envelope; any four-byte prefix other than the magic, any newer
  version, any payload that does not match the checksum in the header, and any input
  shorter than the header is an error, before the payload is looked at.
\<close>

theorem envelope_roundtrip:
  assumes "from_slice (to_vec s) = Inr s"
  shows "decode_snapshot from_slice crc32 (encode_snapshot to_vec crc32 s) = Inr s
    \<and> (length h = 4 \<longrightarrow> h \<noteq> MAGIC \<or> v > ENVELOPE_VERSION \<or> crc32 payload \<noteq> c \<longrightarrow>
        (\<exists>e. decode_snapshot from_slice crc32 (h @ to_be_bytes v @ to_be_bytes c @ payload) = Inl e))
    \<and> (length bs < 12 \<longrightarrow> (\<exists>e. decode_snapshot from_slice crc32 bs = Inl e))"
proof -
  have "length MAGIC = 4" by (simp add: MAGIC_def)
  then show ?thesis
    using assms decode_of_parts [of MAGIC from_slice crc32 ENVELOPE_VERSION "crc32 (to_vec s)" "to_vec s"]
      decode_of_parts [of h from_slice crc32 v c payload]
    by (auto simp: encode_snapshot_def Let_def decode_snapshot_def)
qed

definition sample_snapshot :: RoomSnapshot where
  "sample_snapshot =
     \<lparr>s_schema_version = 1, s_room_id = ''r'', s_room_name = ''game'', s_process_id = ''p'',
      s_created_at = 0, s_saved_at = 0, s_clock_elapsed_ms = 0, s_options = JNull,
      s_state = JObj [(''count'', jint 3)], s_internal = JNull, s_metadata = None, s_locked = False,
      s_private = False, s_max_clients = Some 8, s_filter_extra = [],
      s_reconnections = [\<lparr>pr_session_id = ''s'', pr_token = ''t'', pr_expires_at_ms = Some 5,
        pr_auth = None, pr_user_data = None\<rparr>],
      s_seats = [\<lparr>ps_session_id = ''u'', ps_options = JNull, ps_auth = None, ps_expires_at_ms = 9\<rparr>]\<rparr>"

theorem envelope_roundtrip_witness:
  "decode_snapshot (\<lambda>bs. if bs = [1, 2, 3] then Inr sample_snapshot else Inl ''bad'') (\<lambda>_. 77)
     (encode_snapshot (\<lambda>_. [1, 2, 3]) (\<lambda>_. 77) sample_snapshot) = Inr sample_snapshot"
  by (rule envelope_roundtrip [THEN conjunct1]) simp

section \<open>The file store\<close>

definition ascii_alphanumeric :: "char \<Rightarrow> bool" where
  "ascii_alphanumeric c \<longleftrightarrow>
     (let n = (of_char c :: nat)
      in (48 \<le> n \<and> n \<le> 57) \<or> (65 \<le> n \<and> n \<le> 90) \<or> (97 \<le> n \<and> n \<le> 122))"

text \<open>One character of the result per code point of the id.\<close>

definition sanitize :: "string \<Rightarrow> string" where
  "sanitize room_id =
     map (\<lambda>c. if ascii_alphanumeric c \<or> c = CHR ''-'' \<or> c = CHR ''_'' then c else CHR ''_'')
       (filter (\<lambda>c. \<not> is_continuation c) room_id)"

text \<open>The directory of the store, by file name.\<close>

record FileSnapshotStore =
  dir :: "(string \<times> bytes) list"

definition file_path :: "string \<Rightarrow> string" where
  "file_path room_id = sanitize room_id @ ''.snap''"

definition tmp_path :: "string \<Rightarrow> string" where
  "tmp_path room_id = ''.'' @ sanitize room_id @ ''.tmp''"

text \<open>
  What the environment decides of a save: the write fails with an error and some partial
  content, or the rename fails, or both succeed.
\<close>

datatype save_outcome = WriteFails string bytes | RenameFails string | Saved

definition store_save ::
  "save_outcome \<Rightarrow> string \<Rightarrow> bytes \<Rightarrow> FileSnapshotStore \<Rightarrow> (string, unit) result \<times> FileSnapshotStore" where
  "store_save io room_id bs st =
     (let path = file_path room_id; tmp = tmp_path room_id
      in case io of
          WriteFails e partial \<Rightarrow> (Inl e, st\<lparr>dir := AList.update tmp partial (dir st)\<rparr>)
        | RenameFails e \<Rightarrow> (Inl e, st\<lparr>dir := AList.update tmp bs (dir st)\<rparr>)
        | Saved \<Rightarrow> (Inr (), st\<lparr>dir := AList.update path bs
                             (AList.delete tmp (AList.update tmp bs (dir st)))\<rparr>))"

definition store_load :: "string \<Rightarrow> FileSnapshotStore \<Rightarrow> bytes option" where
  "store_load room_id st = map_of (dir st) (file_path room_id)"

text \<open>\<open>io\<close>: the error of the removal, if the file is there and cannot be removed.\<close>

definition store_delete ::
  "string option \<Rightarrow> string \<Rightarrow> FileSnapshotStore \<Rightarrow> (string, unit) result \<times> FileSnapshotStore" where
  "store_delete io room_id st =
     (if map_of (dir st) (file_path room_id) = None then (Inr (), st)
      else case io of
          None \<Rightarrow> (Inr (), st\<lparr>dir := AList.delete (file_path room_id) (dir st)\<rparr>)
        | Some e \<Rightarrow> (Inl e, st))"

definition store_list_room_ids :: "FileSnapshotStore \<Rightarrow> string list" where
  "store_list_room_ids st = List.map_filter (\<lambda>(name, _). strip_suffix ''.snap'' name) (dir st)"

text \<open>\<open>ts\<close>: the wall clock; \<open>ok\<close>: whether the rename succeeds.\<close>

definition store_quarantine :: "bool \<Rightarrow> millis \<Rightarrow> string \<Rightarrow> FileSnapshotStore \<Rightarrow> FileSnapshotStore" where
  "store_quarantine ok ts room_id st =
     (case map_of (dir st) (file_path room_id) of
        None \<Rightarrow> st
      | Some bs \<Rightarrow>
          if ok then st\<lparr>dir := AList.update (sanitize room_id @ ''.corrupt-'' @ show_nat ts) bs
                           (AList.delete (file_path room_id) (dir st))\<rparr>
          else st)"

text \<open>
  What the server relies on in a store, for ids that pass the check \<open>ok\<close>: a successful
  save is what the next load reads, a failed one leaves the previous snapshot readable, and
  rooms do not disturb each other.
\<close>

locale snapshot_store =
  fixes save :: "'io \<Rightarrow> string \<Rightarrow> bytes \<Rightarrow> 'st \<Rightarrow> (string, unit) result \<times> 'st"
    and load :: "string \<Rightarrow> 'st \<Rightarrow> bytes option"
    and delete :: "'del \<Rightarrow> string \<Rightarrow> 'st \<Rightarrow> (string, unit) result \<times> 'st"
    and ok :: "string \<Rightarrow> bool"
  assumes load_save: "ok r \<Longrightarrow> ok r' \<Longrightarrow> load r (snd (save io r' bs st))
        = (if r = r' \<and> fst (save io r' bs st) = Inr () then Some bs else load r st)"
    and load_delete: "ok r \<Longrightarrow> ok r' \<Longrightarrow> load r (snd (delete i r' st))
        = (if r = r' \<and> fst (delete i r' st) = Inr () then None else load r st)"
begin

text \<open>After any sequence of saves of one room, the last one that succeeded is read.\<close>

fun last_saved :: "string \<Rightarrow> bytes option \<Rightarrow> ('io \<times> bytes) list \<Rightarrow> 'st \<Rightarrow> bytes option" where
  "last_saved r acc [] st = acc"
| "last_saved r acc ((io, bs) # rest) st =
     (case save io r bs st of (res, st') \<Rightarrow>
        last_saved r (if res = Inr () then Some bs else acc) rest st')"

lemma load_after_saves:
  "ok r \<Longrightarrow> load r (fold (\<lambda>(io, bs) st'. snd (save io r bs st')) ws st) = last_saved r (load r st) ws st"
proof (induction ws arbitrary: st)
  case (Cons w ws)
  obtain io bs where w: "w = (io, bs)" by (cases w)
  obtain res st' where st': "save io r bs st = (res, st')" by (cases "save io r bs st")
  have "load r st' = (if res = Inr () then Some bs else load r st)"
    using load_save [OF Cons.prems Cons.prems, of io bs st] by (simp add: st')
  with Cons show ?case by (simp add: w st')
qed simp

end

definition safe_id :: "string \<Rightarrow> bool" where
  "safe_id r \<longleftrightarrow> list_all (\<lambda>c. ascii_alphanumeric c \<or> c = CHR ''-'' \<or> c = CHR ''_'') r"

lemma ascii_not_continuation: "ascii_alphanumeric c \<Longrightarrow> \<not> is_continuation c"
  by (auto simp: ascii_alphanumeric_def is_continuation_def Let_def)

lemma sanitize_safe [simp]: "safe_id r \<Longrightarrow> sanitize r = r"
  by (induction r)
    (auto simp: safe_id_def sanitize_def is_continuation_def dest: ascii_not_continuation)

lemma safe_sanitize: "safe_id (sanitize r)"
  by (auto simp: safe_id_def sanitize_def list_all_iff)

lemma dot_not_safe: "safe_id (c # r) \<Longrightarrow> c \<noteq> CHR ''.''"
  by (auto simp: safe_id_def ascii_alphanumeric_def Let_def)

lemma tmp_path_differs: "tmp_path r \<noteq> file_path r'"
proof
  assume eq: "tmp_path r = file_path r'"
  have last_tmp: "last (tmp_path r) = CHR ''p''" and last_file: "last (file_path r') = CHR ''p''"
    by (simp_all add: tmp_path_def file_path_def)
  have "butlast (tmp_path r) = butlast (file_path r')" using eq by simp
  then show False by (simp add: tmp_path_def file_path_def butlast_append)
qed

lemma file_path_inject: "safe_id r \<Longrightarrow> safe_id r' \<Longrightarrow> file_path r = file_path r' \<longleftrightarrow> r = r'"
  by (simp add: file_path_def)

interpretation file_store: snapshot_store store_save store_load store_delete safe_id
proof unfold_locales
  fix r r' io bs st
  assume "safe_id r" "safe_id r'"
  then show "store_load r (snd (store_save io r' bs st))
      = (if r = r' \<and> fst (store_save io r' bs st) = Inr () then Some bs else store_load r st)"
    using tmp_path_differs [of r' r] file_path_inject [of r r']
    by (cases io) (auto simp: store_load_def store_save_def Let_def update_conv' delete_conv')
next
  fix r r' i st
  assume "safe_id r" "safe_id r'"
  then show "store_load r (snd (store_delete i r' st))
      = (if r = r' \<and> fst (store_delete i r' st) = Inr () then None else store_load r st)"
    using file_path_inject [of r r']
    by (cases i) (auto simp: store_load_def store_delete_def delete_conv')
qed

text \<open>
  C24. A save is atomic: whatever goes wrong while writing or renaming, a room with a safe
  id (as the generated ids are) still loads its previous snapshot; when nothing goes wrong
  it loads the new one; and no other room's snapshot changes.
\<close>

theorem save_is_atomic:
  assumes "safe_id r" and "safe_id r'" and "store_save io r' bs st = (res, st')"
  shows "store_load r st' = (if r = r' \<and> res = Inr () then Some bs else store_load r st)"
  using file_store.load_save [OF assms(1,2), of io bs st] by (simp add: assms(3))

theorem save_is_atomic_witness:
  "store_load ''room-1'' (snd (store_save (WriteFails ''disk full'' [9]) ''room-1'' [4, 5]
     \<lparr>dir = [(''room-1.snap'', [1])]\<rparr>)) = Some [1]"
proof -
  have safe: "safe_id ''room-1''"
    by (simp add: safe_id_def ascii_alphanumeric_def)
  have old: "store_load ''room-1'' \<lparr>dir = [(''room-1.snap'', [1])]\<rparr> = Some [1]"
    using safe by (simp add: store_load_def file_path_def)
  show ?thesis
    using save_is_atomic [OF safe safe surjective_pairing,
        of "WriteFails ''disk full'' [9]" "[4, 5]" "\<lparr>dir = [(''room-1.snap'', [1])]\<rparr>"] old
    by (simp add: store_save_def Let_def)
qed

text \<open>Ids that are not safe may share a file.\<close>

lemma sanitize_collision: "file_path ''a.b'' = file_path ''a_b''"
  by (simp add: file_path_def sanitize_def ascii_alphanumeric_def is_continuation_def)

section \<open>The background writer\<close>

datatype SnapshotOp = Save string bytes | Delete string | Flush nat

text \<open>The channel to the thread, oldest first; \<open>acks\<close> are the flushes answered.\<close>

record SnapshotWriter =
  writer_queue :: "SnapshotOp list"

definition writer_save :: "string \<Rightarrow> bytes \<Rightarrow> SnapshotWriter \<Rightarrow> SnapshotWriter" where
  "writer_save room_id bs w = w\<lparr>writer_queue := writer_queue w @ [Save room_id bs]\<rparr>"

definition writer_delete :: "string \<Rightarrow> SnapshotWriter \<Rightarrow> SnapshotWriter" where
  "writer_delete room_id w = w\<lparr>writer_queue := writer_queue w @ [Delete room_id]\<rparr>"

definition writer_flush :: "nat \<Rightarrow> SnapshotWriter \<Rightarrow> SnapshotWriter" where
  "writer_flush ack w = w\<lparr>writer_queue := writer_queue w @ [Flush ack]\<rparr>"

text \<open>The loop of the thread over what it receives, with the outcome of each operation.\<close>

fun writer_run ::
  "(save_outcome \<times> string option) list \<Rightarrow> SnapshotOp list \<Rightarrow> FileSnapshotStore \<times> nat list
     \<Rightarrow> FileSnapshotStore \<times> nat list" where
  "writer_run ios [] (st, acks) = (st, acks)"
| "writer_run [] ops (st, acks) = (st, acks)"
| "writer_run (io # ios) (op # ops) (st, acks) =
     (case op of
        Save r bs \<Rightarrow> writer_run ios ops (snd (store_save (fst io) r bs st), acks)
      | Delete r \<Rightarrow> writer_run ios ops (snd (store_delete (snd io) r st), acks)
      | Flush a \<Rightarrow> writer_run ios ops (st, acks @ [a]))"

text \<open>What the last operation on a room asks for.\<close>

fun intended :: "string \<Rightarrow> SnapshotOp list \<Rightarrow> bytes option \<Rightarrow> bytes option" where
  "intended r [] acc = acc"
| "intended r (Save r' bs # ops) acc = intended r ops (if r = r' then Some bs else acc)"
| "intended r (Delete r' # ops) acc = intended r ops (if r = r' then None else acc)"
| "intended r (Flush a # ops) acc = intended r ops acc"

definition op_rooms :: "SnapshotOp list \<Rightarrow> string set" where
  "op_rooms ops = {r. \<exists>bs. Save r bs \<in> set ops} \<union> {r. Delete r \<in> set ops}"

lemma writer_run_all:
  assumes "safe_id r" and "\<forall>r' \<in> op_rooms ops. safe_id r'"
  shows "store_load r (fst (writer_run (replicate (length ops) (Saved, None)) ops (st, acks)))
    = intended r ops (store_load r st)"
  using assms(2)
proof (induction ops arbitrary: st acks)
  case (Cons op ops)
  have safe: "\<forall>r' \<in> op_rooms ops. safe_id r'"
    using Cons.prems by (auto simp: op_rooms_def)
  show ?case
  proof (cases op)
    case (Save r' bs)
    then have "safe_id r'" using Cons.prems by (auto simp: op_rooms_def)
    then show ?thesis
      using Cons.IH [OF safe] file_store.load_save [OF assms(1), of r' Saved bs st]
      by (simp add: Save store_save_def Let_def)
  next
    case (Delete r')
    then have "safe_id r'" using Cons.prems by (auto simp: op_rooms_def)
    then show ?thesis
      using Cons.IH [OF safe] file_store.load_delete [OF assms(1), of r' None st]
      by (simp add: Delete store_delete_def)
  next
    case (Flush a)
    then show ?thesis using Cons.IH [OF safe] by simp
  qed
qed simp

text \<open>
  C36. The writer keeps the order of the operations of every room: once it has worked
  through its queue (disk errors aside) the store holds, for each room, what the last
  operation queued for that room asked for, whatever was queued for others in between.
\<close>

theorem writer_keeps_order:
  assumes "safe_id r" and "\<forall>r' \<in> op_rooms (writer_queue w). safe_id r'"
  shows "store_load r (fst (writer_run (replicate (length (writer_queue w)) (Saved, None))
       (writer_queue w) (st, acks)))
    = intended r (writer_queue w) (store_load r st)"
  using assms by (rule writer_run_all)

theorem writer_keeps_order_witness:
  "store_load ''a'' (fst (writer_run (replicate 4 (Saved, None))
     (writer_queue (writer_save ''a'' [2] (writer_delete ''b'' (writer_flush 0 (writer_save ''a'' [1]
        \<lparr>writer_queue = []\<rparr>))))) (\<lparr>dir = []\<rparr>, []))) = Some [2]"
proof -
  let ?w = "writer_save ''a'' [2] (writer_delete ''b'' (writer_flush 0 (writer_save ''a'' [1]
        \<lparr>writer_queue = []\<rparr>)))"
  have safe: "safe_id ''a''" "safe_id ''b''"
    by (simp_all add: safe_id_def ascii_alphanumeric_def)
  then have "\<forall>r' \<in> op_rooms (writer_queue ?w). safe_id r'"
    by (auto simp: op_rooms_def writer_save_def writer_delete_def writer_flush_def)
  from writer_keeps_order [OF safe(1) this, of "\<lparr>dir = []\<rparr>" "[]"] show ?thesis
    by (simp add: writer_save_def writer_delete_def writer_flush_def numeral_eq_Suc)
qed

section \<open>Configuration\<close>

record PersistenceConfig =
  auto_save_interval :: duration
  save_on_dispose :: bool
  delete_on_dispose :: bool

definition persistence_new :: PersistenceConfig where
  "persistence_new =
     \<lparr>auto_save_interval = from_secs 1, save_on_dispose = True, delete_on_dispose = False\<rparr>"

definition with_auto_save_interval :: "duration \<Rightarrow> PersistenceConfig \<Rightarrow> PersistenceConfig" where
  "with_auto_save_interval i c = c\<lparr>auto_save_interval := i\<rparr>"

definition with_save_on_dispose :: "bool \<Rightarrow> PersistenceConfig \<Rightarrow> PersistenceConfig" where
  "with_save_on_dispose b c = c\<lparr>save_on_dispose := b\<rparr>"

definition with_delete_on_dispose :: "bool \<Rightarrow> PersistenceConfig \<Rightarrow> PersistenceConfig" where
  "with_delete_on_dispose b c = c\<lparr>delete_on_dispose := b\<rparr>"

text \<open>
  What a room needs to write snapshots. The two functions that the encoding takes from
  other crates travel with it.
\<close>

record PersistenceHandle =
  config :: PersistenceConfig
  writer :: SnapshotWriter
  msgpack :: "RoomSnapshot \<Rightarrow> bytes"
  checksum :: "bytes \<Rightarrow> 32 word"

end
