(* ===== verification/Room.thy ===== *)
theory Room
  imports State_Sync Client Driver Presence Snapshot
begin

text \<open>
  The room context, \<^verbatim>\<open>crates/colyseus/src/room.rs\<close>: everything the handlers of a
  room interact with. Closures that a room registers (message handlers, timers, commands)
  are labels of type \<open>'h\<close>; what they do is given with the room's hooks (theory Actor).
  Shared objects are reached through the context: the client handles are addresses into
  \<open>store\<close>, the driver, the lobby channel, the presence and the snapshot writer are the
  values that the enclosing process lends the room while one of its events runs. The clock
  readings of that event are \<open>now\<close> and \<open>wall\<close>; the ids that
  \<^verbatim>\<open>generate_id\<close> draws are the successive values of \<open>gen\<close>.
\<close>

section \<open>Data\<close>

type_synonym cref = nat

record ReservedSeat =
  seat_options :: json
  seat_auth :: "json option"
  consumed :: bool
  waiting_reconnection :: bool
  seat_expires_at :: instant

record ReconnectionEntry =
  re_session_id :: string
  re_client :: cref
  re_expires_at :: "instant option"

record 'h TimerEntry =
  timer_id :: nat
  timer_at :: instant
  timer_cb :: 'h

record BroadcastOptions =
  bo_except :: "cref option"
  bo_after_next_patch :: bool

definition default_broadcast_options :: BroadcastOptions where
  "default_broadcast_options = \<lparr>bo_except = None, bo_after_next_patch = False\<rparr>"

text \<open>Authentication of a matchmaking request and lobby events, from \<^verbatim>\<open>matchmaker.rs\<close>.\<close>

record AuthContext =
  auth_token :: "string option"
  auth_headers :: "(string \<times> string) list"
  auth_ip :: "string option"

datatype MatchmakerEvent = RoomCreated RoomListing | RoomUpdated RoomListing | RoomRemoved string

text \<open>
  The events of a room's mailbox, from \<^verbatim>\<open>actor.rs\<close>. The one-shot channels for the
  answers are left out: the answer is a result of the handler.
\<close>

datatype 'h RoomEvent =
    ReserveSeat string json AuthContext
  | CheckReconnection string
  | Connect cref "string option"
  | Message cref ClientMessage
  | Disconnected cref nat
  | Command 'h
  | CallRoomRpc 'h
  | Inspect
  | Kick string
  | SetLocked bool
  | AdminMessage "string option" MessageType json
  | Dispose nat
  | EditState "string list" StateEdit
  | Shutdown

record ('s, 'i, 'h) RoomContext =
  room_id :: string
  room_name :: string
  process_id :: string
  created_at :: millis
  clients :: "cref list"
  state_slot :: "'s StateSlot option"
  internal_slot :: "'i InternalSlot option"
  clock :: Clock
  auto_dispose :: bool
  max_messages_per_second :: "nat option"
  seat_reservation_timeout :: duration
  patch_rate :: "duration option"
  sim_interval :: "duration option"
  max_clients :: "nat option"
  locked :: bool
  is_private :: bool
  metadata :: "json option"
  reserved_seats :: "(string \<times> ReservedSeat) list"
  reconnections :: "(string \<times> ReconnectionEntry) list"
  message_handlers :: "(MessageType \<times> 'h list) list"
  any_handlers :: "'h list"
  bytes_handlers :: "(MessageType \<times> 'h list) list"
  view_filter :: "('s \<Rightarrow> client \<Rightarrow> json) option"
  view_snapshots :: "(string \<times> json) list"
  after_patch :: "AfterPatchItem list"
  timers :: "'h TimerEntry list"
  next_timer_id :: nat
  driver :: LocalDriver
  presence :: LocalPresence
  lobby_tx :: "MatchmakerEvent list"
  request_dispose :: "nat option"
  disposing :: bool
  had_clients :: bool
  filter_extra :: obj
  sender :: "'h RoomEvent list option"
  tap :: EventTap
  schema_version :: nat
  create_options :: json
  persistence :: "PersistenceHandle option"
  now :: instant
  wall :: millis
  gen :: "nat \<Rightarrow> string"
  gen_next :: nat
  store :: "cref \<Rightarrow> client"
  next_ref :: cref

text \<open>A fresh context. \<open>env_driver\<close> to \<open>env_next\<close> are what the process lends.\<close>

definition room_context_new ::
  "string \<Rightarrow> string \<Rightarrow> string \<Rightarrow> LocalDriver \<Rightarrow> LocalPresence \<Rightarrow> MatchmakerEvent list \<Rightarrow> obj
     \<Rightarrow> PersistenceHandle option \<Rightarrow> instant \<Rightarrow> millis \<Rightarrow> (nat \<Rightarrow> string) \<Rightarrow> nat
     \<Rightarrow> (cref \<Rightarrow> client) \<Rightarrow> cref \<Rightarrow> ('s, 'i, 'h) RoomContext" where
  "room_context_new rid rname pid env_driver env_presence env_lobby extra pers t w g gn st nr =
     \<lparr>room_id = rid, room_name = rname, process_id = pid, created_at = w, clients = [],
      state_slot = None, internal_slot = None, clock = clock_new t, auto_dispose = True,
      max_messages_per_second = None, seat_reservation_timeout = from_secs 15,
      patch_rate = Some (from_millis 50), sim_interval = None, max_clients = None, locked = False,
      is_private = False, metadata = None, reserved_seats = [], reconnections = [],
      message_handlers = [], any_handlers = [], bytes_handlers = [], view_filter = None,
      view_snapshots = [], after_patch = [], timers = [], next_timer_id = 0, driver = env_driver,
      presence = env_presence, lobby_tx = env_lobby, request_dispose = None, disposing = False,
      had_clients = False, filter_extra = extra, sender = None,
      tap = \<lparr>receiver_count = 0, tap_events = []\<rparr>, schema_version = 1, create_options = JNull,
      persistence = pers, now = t, wall = w, gen = g, gen_next = gn, store = st, next_ref = nr\<rparr>"

section \<open>Access to the shared objects\<close>

definition get_c :: "('s, 'i, 'h) RoomContext \<Rightarrow> cref \<Rightarrow> client" where
  "get_c ctx c = store ctx c"

definition on_client ::
  "cref \<Rightarrow> (client \<Rightarrow> client) \<Rightarrow> ('s, 'i, 'h) RoomContext \<Rightarrow> ('s, 'i, 'h) RoomContext" where
  "on_client c f ctx = ctx\<lparr>store := (store ctx)(c := f (store ctx c))\<rparr>"

text \<open>\<open>f\<close> on every client of a list that passes the test, in order.\<close>

definition each_client ::
  "(client \<Rightarrow> bool) \<Rightarrow> (client \<Rightarrow> client) \<Rightarrow> cref list \<Rightarrow> ('s, 'i, 'h) RoomContext
     \<Rightarrow> ('s, 'i, 'h) RoomContext" where
  "each_client p f cs ctx =
     fold (\<lambda>c ctx'. if p (store ctx' c) then on_client c f ctx' else ctx') cs ctx"

definition generate_id :: "('s, 'i, 'h) RoomContext \<Rightarrow> string \<times> ('s, 'i, 'h) RoomContext" where
  "generate_id ctx = (gen ctx (gen_next ctx), ctx\<lparr>gen_next := gen_next ctx + 1\<rparr>)"

definition tap_log :: "RoomEventLog \<Rightarrow> ('s, 'i, 'h) RoomContext \<Rightarrow> ('s, 'i, 'h) RoomContext" where
  "tap_log e ctx = ctx\<lparr>tap := tap_send e (tap ctx)\<rparr>"

definition client_send ::
  "cref \<Rightarrow> MessageType \<Rightarrow> json \<Rightarrow> SendOptions \<Rightarrow> ('s, 'i, 'h) RoomContext \<Rightarrow> ('s, 'i, 'h) RoomContext" where
  "client_send c msg_type message options ctx =
     (case send_with_options (wall ctx) msg_type message options (store ctx c) (after_patch ctx) (tap ctx)
      of (cl, queue, t) \<Rightarrow>
        ctx\<lparr>store := (store ctx)(c := cl), after_patch := queue, tap := t\<rparr>)"

definition client_send_bytes ::
  "cref \<Rightarrow> MessageType \<Rightarrow> bytes \<Rightarrow> ('s, 'i, 'h) RoomContext \<Rightarrow> ('s, 'i, 'h) RoomContext" where
  "client_send_bytes c msg_type payload ctx =
     (case send_bytes (wall ctx) msg_type payload (store ctx c) (after_patch ctx) (tap ctx)
      of (cl, queue, t) \<Rightarrow>
        ctx\<lparr>store := (store ctx)(c := cl), after_patch := queue, tap := t\<rparr>)"

section \<open>Identity, clients and state\<close>

definition set_sender :: "'h RoomEvent list \<Rightarrow> ('s, 'i, 'h) RoomContext \<Rightarrow> ('s, 'i, 'h) RoomContext" where
  "set_sender q ctx = ctx\<lparr>sender := Some q\<rparr>"

text \<open>\<^verbatim>\<open>ctx.sender().send(f)\<close>; without a sender the source panics, here nothing is queued.\<close>

definition sender_send :: "'h \<Rightarrow> ('s, 'i, 'h) RoomContext \<Rightarrow> ('s, 'i, 'h) RoomContext" where
  "sender_send h ctx = ctx\<lparr>sender := map_option (\<lambda>q. q @ [Command h]) (sender ctx)\<rparr>"

definition client_count :: "('s, 'i, 'h) RoomContext \<Rightarrow> nat" where
  "client_count ctx = length (clients ctx)"

definition get_client :: "string \<Rightarrow> ('s, 'i, 'h) RoomContext \<Rightarrow> cref option" where
  "get_client sid ctx = find (\<lambda>c. session_id (store ctx c) = sid) (clients ctx)"

definition set_state :: "'s erased \<Rightarrow> ('s, 'i, 'h) RoomContext \<Rightarrow> ('s, 'i, 'h) RoomContext" where
  "set_state st ctx = ctx\<lparr>state_slot := Some (slot_new st)\<rparr>"

definition ctx_state :: "('s, 'i, 'h) RoomContext \<Rightarrow> 's option" where
  "ctx_state ctx = map_option slot_get (state_slot ctx)"

text \<open>A change made through \<^verbatim>\<open>state_mut\<close>.\<close>

definition state_mut :: "('s \<Rightarrow> 's) \<Rightarrow> ('s, 'i, 'h) RoomContext \<Rightarrow> ('s, 'i, 'h) RoomContext" where
  "state_mut f ctx = ctx\<lparr>state_slot := map_option (slot_mutate f) (state_slot ctx)\<rparr>"

definition serializer_id :: "('s, 'i, 'h) RoomContext \<Rightarrow> string" where
  "serializer_id ctx = (if state_slot ctx \<noteq> None then JSON_PATCH_SERIALIZER_ID else NONE_SERIALIZER_ID)"

definition set_internal :: "'i erased \<Rightarrow> ('s, 'i, 'h) RoomContext \<Rightarrow> ('s, 'i, 'h) RoomContext" where
  "set_internal st ctx = ctx\<lparr>internal_slot := Some (internal_new st)\<rparr>"

definition ctx_internal :: "('s, 'i, 'h) RoomContext \<Rightarrow> 'i option" where
  "ctx_internal ctx = map_option internal_get (internal_slot ctx)"

definition internal_mut :: "('i \<Rightarrow> 'i) \<Rightarrow> ('s, 'i, 'h) RoomContext \<Rightarrow> ('s, 'i, 'h) RoomContext" where
  "internal_mut f ctx = ctx\<lparr>internal_slot := map_option (internal_mutate f) (internal_slot ctx)\<rparr>"

definition clear_internal :: "('s, 'i, 'h) RoomContext \<Rightarrow> ('s, 'i, 'h) RoomContext" where
  "clear_internal ctx = ctx\<lparr>internal_slot := None\<rparr>"

section \<open>Persistence\<close>

definition has_persistence :: "('s, 'i, 'h) RoomContext \<Rightarrow> bool" where
  "has_persistence ctx \<longleftrightarrow> persistence ctx \<noteq> None"

definition disable_persistence :: "('s, 'i, 'h) RoomContext \<Rightarrow> ('s, 'i, 'h) RoomContext" where
  "disable_persistence ctx = ctx\<lparr>persistence := None\<rparr>"

definition persisted_reconnections :: "('s, 'i, 'h) RoomContext \<Rightarrow> PersistedReconnection list" where
  "persisted_reconnections ctx =
     map (\<lambda>(token, e). \<lparr>pr_session_id = re_session_id e, pr_token = token,
            pr_expires_at_ms = map_option (instant_to_wallclock_ms (now ctx) (wall ctx)) (re_expires_at e),
            pr_auth = client_auth (store ctx (re_client e)),
            pr_user_data = user_data (store ctx (re_client e))\<rparr>) (reconnections ctx)
     @ map (\<lambda>c. \<lparr>pr_session_id = session_id (store ctx c), pr_token = reconnection_token (store ctx c),
            pr_expires_at_ms = None, pr_auth = client_auth (store ctx c),
            pr_user_data = user_data (store ctx c)\<rparr>)
         (filter (\<lambda>c. is_joined (store ctx c) \<and> reconnection_token (store ctx c) \<noteq> []
              \<and> map_of (reconnections ctx) (reconnection_token (store ctx c)) = None) (clients ctx))"

definition seat_pending :: "ReservedSeat \<Rightarrow> bool" where
  "seat_pending s \<longleftrightarrow> \<not> consumed s \<and> \<not> waiting_reconnection s"

definition persisted_seats :: "('s, 'i, 'h) RoomContext \<Rightarrow> PersistedSeat list" where
  "persisted_seats ctx =
     map (\<lambda>(sid, s). \<lparr>ps_session_id = sid, ps_options = seat_options s, ps_auth = seat_auth s,
            ps_expires_at_ms = instant_to_wallclock_ms (now ctx) (wall ctx) (seat_expires_at s)\<rparr>)
       (filter (\<lambda>(_, s). \<not> waiting_reconnection s \<and> \<not> consumed s) (reserved_seats ctx))"

definition room_snapshot :: "('s, 'i, 'h) RoomContext \<Rightarrow> RoomSnapshot" where
  "room_snapshot ctx =
     \<lparr>s_schema_version = schema_version ctx, s_room_id = room_id ctx, s_room_name = room_name ctx,
      s_process_id = process_id ctx, s_created_at = created_at ctx, s_saved_at = wall ctx,
      s_clock_elapsed_ms = elapsed_millis (clock ctx), s_options = create_options ctx,
      s_state = (case state_slot ctx of Some s \<Rightarrow> slot_full s | None \<Rightarrow> JNull),
      s_internal = (case internal_slot ctx of Some s \<Rightarrow> internal_full s | None \<Rightarrow> JNull),
      s_metadata = metadata ctx, s_locked = locked ctx, s_private = is_private ctx,
      s_max_clients = max_clients ctx, s_filter_extra = filter_extra ctx,
      s_reconnections = persisted_reconnections ctx, s_seats = persisted_seats ctx\<rparr>"

definition persist_now :: "('s, 'i, 'h) RoomContext \<Rightarrow> ('s, 'i, 'h) RoomContext" where
  "persist_now ctx =
     (case persistence ctx of
        None \<Rightarrow> ctx
      | Some p \<Rightarrow>
          let bs = encode_snapshot (msgpack p) (checksum p) (room_snapshot ctx);
              ctx' = ctx\<lparr>persistence := Some (p\<lparr>writer := writer_save (room_id ctx) bs (writer p)\<rparr>)\<rparr>
          in tap_log (event_new (wall ctx) ''sys'' ''snapshot_saved'') ctx')"

definition delete_snapshot :: "('s, 'i, 'h) RoomContext \<Rightarrow> ('s, 'i, 'h) RoomContext" where
  "delete_snapshot ctx =
     (case persistence ctx of
        None \<Rightarrow> ctx
      | Some p \<Rightarrow> ctx\<lparr>persistence := Some (p\<lparr>writer := writer_delete (room_id ctx) (writer p)\<rparr>)\<rparr>)"

text \<open>\<open>ser\<close> and \<open>de\<close> come with the state type.\<close>

definition restore_state ::
  "('s \<Rightarrow> (string, json) result) \<Rightarrow> (json \<Rightarrow> (string, 's) result) \<Rightarrow> RoomSnapshot
     \<Rightarrow> ('s, 'i, 'h) RoomContext \<Rightarrow> (ServerError, unit) result \<times> ('s, 'i, 'h) RoomContext" where
  "restore_state ser de snap ctx =
     (case snapshot_state de snap of
        Inl e \<Rightarrow> (Inl (new_error INVALID_PAYLOAD e), ctx)
      | Inr st \<Rightarrow> (Inr (), set_state \<lparr>erased_value = st, erased_ser = ser, erased_de = de\<rparr> ctx))"

definition restore_internal ::
  "('i \<Rightarrow> (string, json) result) \<Rightarrow> (json \<Rightarrow> (string, 'i) result) \<Rightarrow> RoomSnapshot
     \<Rightarrow> ('s, 'i, 'h) RoomContext \<Rightarrow> (ServerError, unit) result \<times> ('s, 'i, 'h) RoomContext" where
  "restore_internal ser de snap ctx =
     (case snapshot_internal de snap of
        Inl e \<Rightarrow> (Inl (new_error INVALID_PAYLOAD e), ctx)
      | Inr st \<Rightarrow> (Inr (), set_internal \<lparr>erased_value = st, erased_ser = ser, erased_de = de\<rparr> ctx))"

definition YEAR :: duration where
  "YEAR = from_secs (86400 * 365)"

definition restore_reconnection ::
  "PersistedReconnection \<Rightarrow> ('s, 'i, 'h) RoomContext \<Rightarrow> ('s, 'i, 'h) RoomContext" where
  "restore_reconnection r ctx0 =
     (let (conn, ctx) = generate_id ctx0;
          c = next_ref ctx;
          cl = orphan (now ctx) conn (pr_session_id r);
          cl = (case pr_auth r of Some a \<Rightarrow> set_auth (Some a) cl | None \<Rightarrow> cl);
          cl = (case pr_user_data r of Some ud \<Rightarrow> set_user_data ud cl | None \<Rightarrow> cl);
          cl = set_client_state Reconnecting (set_reconnection_token (pr_token r) cl);
          expires = map_option (wallclock_ms_to_instant (now ctx) (wall ctx)) (pr_expires_at_ms r)
      in ctx\<lparr>next_ref := c + 1,
             store := (store ctx)(c := cl),
             reconnections := AList.update (pr_token r)
               \<lparr>re_session_id = pr_session_id r, re_client = c, re_expires_at = expires\<rparr> (reconnections ctx),
             reserved_seats := AList.update (pr_session_id r)
               \<lparr>seat_options = JNull, seat_auth = pr_auth r, consumed = False, waiting_reconnection = True,
                seat_expires_at = (case expires of Some t \<Rightarrow> t | None \<Rightarrow> now ctx + YEAR)\<rparr>
               (reserved_seats ctx),
             clients := clients ctx @ [c]\<rparr>)"

definition restore_seat :: "PersistedSeat \<Rightarrow> ('s, 'i, 'h) RoomContext \<Rightarrow> ('s, 'i, 'h) RoomContext" where
  "restore_seat s ctx =
     ctx\<lparr>reserved_seats := AList.update (ps_session_id s)
        \<lparr>seat_options = ps_options s, seat_auth = ps_auth s, consumed = False,
         waiting_reconnection = False,
         seat_expires_at = wallclock_ms_to_instant (now ctx) (wall ctx) (ps_expires_at_ms s)\<rparr>
        (reserved_seats ctx)\<rparr>"

definition apply_snapshot :: "RoomSnapshot \<Rightarrow> ('s, 'i, 'h) RoomContext \<Rightarrow> ('s, 'i, 'h) RoomContext" where
  "apply_snapshot snap ctx =
     fold restore_seat (s_seats snap) (fold restore_reconnection (s_reconnections snap)
       (ctx\<lparr>created_at := s_created_at snap,
            clock := clock_restore (now ctx) (from_millis (s_clock_elapsed_ms snap)),
            metadata := s_metadata snap, locked := s_locked snap, is_private := s_private snap,
            max_clients := s_max_clients snap, filter_extra := s_filter_extra snap,
            create_options := s_options snap,
            reconnections := [], reserved_seats := [], clients := []\<rparr>))"

section \<open>Views\<close>

definition set_view_filter ::
  "('s \<Rightarrow> client \<Rightarrow> json) \<Rightarrow> ('s, 'i, 'h) RoomContext \<Rightarrow> ('s, 'i, 'h) RoomContext" where
  "set_view_filter f ctx = ctx\<lparr>view_filter := Some f\<rparr>"

definition clear_view_filter :: "('s, 'i, 'h) RoomContext \<Rightarrow> ('s, 'i, 'h) RoomContext" where
  "clear_view_filter ctx = ctx\<lparr>view_filter := None, view_snapshots := []\<rparr>"

definition has_view_filter :: "('s, 'i, 'h) RoomContext \<Rightarrow> bool" where
  "has_view_filter ctx \<longleftrightarrow> view_filter ctx \<noteq> None"

section \<open>Messaging\<close>

definition broadcast_with_options ::
  "MessageType \<Rightarrow> json \<Rightarrow> BroadcastOptions \<Rightarrow> ('s, 'i, 'h) RoomContext \<Rightarrow> ('s, 'i, 'h) RoomContext" where
  "broadcast_with_options msg_type message options ctx =
     (let ctx1 = (if receiver_count (tap ctx) > 0
                  then tap_log (event_payload message (event_msg_type msg_type
                         (event_new (wall ctx) ''out'' ''broadcast''))) ctx
                  else ctx);
          bytes = room_data msg_type message;
          except = map_option (\<lambda>c. session_id (store ctx c)) (bo_except options)
      in if bo_after_next_patch options
         then ctx1\<lparr>after_patch := after_patch ctx1 @ [\<lparr>item_target = ToAll except, item_bytes = bytes\<rparr>]\<rparr>
         else each_client (\<lambda>cl. is_joined cl \<and> except \<noteq> Some (session_id cl)) (raw_now bytes)
                (clients ctx1) ctx1)"

definition broadcast :: "MessageType \<Rightarrow> json \<Rightarrow> ('s, 'i, 'h) RoomContext \<Rightarrow> ('s, 'i, 'h) RoomContext" where
  "broadcast msg_type message ctx = broadcast_with_options msg_type message default_broadcast_options ctx"

definition broadcast_bytes :: "MessageType \<Rightarrow> bytes \<Rightarrow> ('s, 'i, 'h) RoomContext \<Rightarrow> ('s, 'i, 'h) RoomContext" where
  "broadcast_bytes msg_type payload ctx =
     (let ctx1 = tap_log (event_bytes (length payload) (event_msg_type msg_type
                   (event_new (wall ctx) ''out'' ''broadcast''))) ctx
      in each_client is_joined (raw_now (room_data_bytes msg_type payload)) (clients ctx1) ctx1)"

text \<open>\<^verbatim>\<open>entry(t).or_default().push(h)\<close>.\<close>

definition push_handler :: "MessageType \<Rightarrow> 'h \<Rightarrow> (MessageType \<times> 'h list) list \<Rightarrow> (MessageType \<times> 'h list) list" where
  "push_handler t h m = AList.update t ((case map_of m t of Some hs \<Rightarrow> hs | None \<Rightarrow> []) @ [h]) m"

definition on_message :: "MessageType \<Rightarrow> 'h \<Rightarrow> ('s, 'i, 'h) RoomContext \<Rightarrow> ('s, 'i, 'h) RoomContext" where
  "on_message t h ctx = ctx\<lparr>message_handlers := push_handler t h (message_handlers ctx)\<rparr>"

definition on_any_message :: "'h \<Rightarrow> ('s, 'i, 'h) RoomContext \<Rightarrow> ('s, 'i, 'h) RoomContext" where
  "on_any_message h ctx = ctx\<lparr>any_handlers := any_handlers ctx @ [h]\<rparr>"

definition on_message_bytes :: "MessageType \<Rightarrow> 'h \<Rightarrow> ('s, 'i, 'h) RoomContext \<Rightarrow> ('s, 'i, 'h) RoomContext" where
  "on_message_bytes t h ctx = ctx\<lparr>bytes_handlers := push_handler t h (bytes_handlers ctx)\<rparr>"

section \<open>Timers and intervals\<close>

definition set_timeout :: "duration \<Rightarrow> 'h \<Rightarrow> ('s, 'i, 'h) RoomContext \<Rightarrow> nat \<times> ('s, 'i, 'h) RoomContext" where
  "set_timeout delay f ctx =
     (let i = next_timer_id ctx + 1
      in (i, ctx\<lparr>next_timer_id := i,
                 timers := timers ctx @ [\<lparr>timer_id = i, timer_at = now ctx + delay, timer_cb = f\<rparr>]\<rparr>))"

definition clear_timeout :: "nat \<Rightarrow> ('s, 'i, 'h) RoomContext \<Rightarrow> bool \<times> ('s, 'i, 'h) RoomContext" where
  "clear_timeout i ctx =
     (let ts = filter (\<lambda>t. timer_id t \<noteq> i) (timers ctx)
      in (length ts \<noteq> length (timers ctx), ctx\<lparr>timers := ts\<rparr>))"

definition set_simulation_interval ::
  "duration option \<Rightarrow> ('s, 'i, 'h) RoomContext \<Rightarrow> ('s, 'i, 'h) RoomContext" where
  "set_simulation_interval i ctx = ctx\<lparr>sim_interval := i\<rparr>"

definition set_patch_rate :: "duration option \<Rightarrow> ('s, 'i, 'h) RoomContext \<Rightarrow> ('s, 'i, 'h) RoomContext" where
  "set_patch_rate r ctx = ctx\<lparr>patch_rate := r\<rparr>"

section \<open>The listing\<close>

text \<open>\<^verbatim>\<open>as u32\<close>.\<close>

definition as_u32 :: "nat \<Rightarrow> nat" where
  "as_u32 n = n mod 2 ^ 32"

definition pending_seats :: "('s, 'i, 'h) RoomContext \<Rightarrow> nat" where
  "pending_seats ctx = length (filter (\<lambda>(_, s). \<not> consumed s \<and> \<not> waiting_reconnection s) (reserved_seats ctx))"

definition listing_client_count :: "('s, 'i, 'h) RoomContext \<Rightarrow> nat" where
  "listing_client_count ctx = as_u32 (length (clients ctx) + pending_seats ctx)"

definition build_listing :: "('s, 'i, 'h) RoomContext \<Rightarrow> RoomListing" where
  "build_listing ctx =
     \<lparr>l_room_id = room_id ctx, l_name = room_name ctx, l_process_id = process_id ctx,
      l_clients = listing_client_count ctx, l_max_clients = max_clients ctx, l_locked = locked ctx,
      l_private = is_private ctx, l_metadata = metadata ctx, l_created_at = created_at ctx,
      l_extra = filter_extra ctx\<rparr>"

definition update_listing :: "('s, 'i, 'h) RoomContext \<Rightarrow> RoomListing \<Rightarrow> RoomListing" where
  "update_listing ctx l =
     l\<lparr>l_clients := listing_client_count ctx, l_locked := locked ctx, l_private := is_private ctx,
       l_metadata := metadata ctx, l_max_clients := max_clients ctx\<rparr>"

definition sync_listing :: "('s, 'i, 'h) RoomContext \<Rightarrow> ('s, 'i, 'h) RoomContext" where
  "sync_listing ctx =
     (case driver_update_by_id (room_id ctx) (update_listing ctx) (driver ctx) of
        (_, d) \<Rightarrow>
          let ctx1 = ctx\<lparr>driver := d\<rparr>
          in case driver_get (room_id ctx) (driver ctx) of
               None \<Rightarrow> ctx1
             | Some l \<Rightarrow> ctx1\<lparr>lobby_tx := lobby_tx ctx @ [RoomUpdated (update_listing ctx l)]\<rparr>)"

section \<open>Matchmaking knobs\<close>

definition room_lock :: "('s, 'i, 'h) RoomContext \<Rightarrow> ('s, 'i, 'h) RoomContext" where
  "room_lock ctx = (if \<not> locked ctx then sync_listing (ctx\<lparr>locked := True\<rparr>) else ctx)"

definition room_unlock :: "('s, 'i, 'h) RoomContext \<Rightarrow> ('s, 'i, 'h) RoomContext" where
  "room_unlock ctx = (if locked ctx then sync_listing (ctx\<lparr>locked := False\<rparr>) else ctx)"

definition set_max_clients :: "nat option \<Rightarrow> ('s, 'i, 'h) RoomContext \<Rightarrow> ('s, 'i, 'h) RoomContext" where
  "set_max_clients m ctx = sync_listing (ctx\<lparr>max_clients := m\<rparr>)"

definition set_private :: "bool \<Rightarrow> ('s, 'i, 'h) RoomContext \<Rightarrow> ('s, 'i, 'h) RoomContext" where
  "set_private b ctx = sync_listing (ctx\<lparr>is_private := b\<rparr>)"

definition set_metadata :: "json \<Rightarrow> ('s, 'i, 'h) RoomContext \<Rightarrow> ('s, 'i, 'h) RoomContext" where
  "set_metadata m ctx = sync_listing (ctx\<lparr>metadata := Some m\<rparr>)"

definition has_reached_max_clients :: "('s, 'i, 'h) RoomContext \<Rightarrow> bool" where
  "has_reached_max_clients ctx =
     (case max_clients ctx of
        None \<Rightarrow> False
      | Some mx \<Rightarrow> as_u32 (length (clients ctx) + pending_seats ctx) \<ge> mx)"

definition allow_reconnection ::
  "cref \<Rightarrow> duration option \<Rightarrow> ('s, 'i, 'h) RoomContext \<Rightarrow> bool \<times> ('s, 'i, 'h) RoomContext" where
  "allow_reconnection c timeout ctx =
     (if disposing ctx then (False, ctx)
      else let cl = store ctx c;
               token = reconnection_token cl
           in if token = [] \<or> map_of (reconnections ctx) token \<noteq> None then (False, ctx)
              else let expires = map_option (\<lambda>d. now ctx + d) timeout
                   in (True, (on_client c (set_client_state Reconnecting) ctx)\<lparr>
                        reconnections := AList.update token
                          \<lparr>re_session_id = session_id cl, re_client = c, re_expires_at = expires\<rparr>
                          (reconnections ctx),
                        reserved_seats := AList.update (session_id cl)
                          \<lparr>seat_options = JNull, seat_auth = client_auth cl, consumed = False,
                           waiting_reconnection = True,
                           seat_expires_at = (case expires of Some t \<Rightarrow> t | None \<Rightarrow> now ctx + YEAR)\<rparr>
                          (reserved_seats ctx)\<rparr>))"

definition remove_client :: "string \<Rightarrow> ('s, 'i, 'h) RoomContext \<Rightarrow> ('s, 'i, 'h) RoomContext" where
  "remove_client sid ctx =
     sync_listing (ctx\<lparr>
       clients := filter (\<lambda>c. session_id (store ctx c) \<noteq> sid) (clients ctx),
       reconnections := filter (\<lambda>(_, e). re_session_id e \<noteq> sid) (reconnections ctx),
       reserved_seats := AList.delete sid (reserved_seats ctx),
       view_snapshots := AList.delete sid (view_snapshots ctx)\<rparr>)"

definition disconnect :: "nat \<Rightarrow> ('s, 'i, 'h) RoomContext \<Rightarrow> ('s, 'i, 'h) RoomContext" where
  "disconnect code ctx = ctx\<lparr>request_dispose := Some code\<rparr>"

section \<open>Patches\<close>

text \<open>One client of a room with a view filter \<open>f\<close>; the flag tells whether a patch went out.\<close>

definition view_step ::
  "('s \<Rightarrow> client \<Rightarrow> json) \<Rightarrow> 's \<Rightarrow> cref \<Rightarrow> bool \<times> ('s, 'i, 'h) RoomContext
     \<Rightarrow> bool \<times> ('s, 'i, 'h) RoomContext" where
  "view_step f st c = (\<lambda>(changed, ctx).
     let cl = store ctx c; sid = session_id cl
     in if \<not> is_joined cl then (changed, ctx)
        else let view = f st cl
             in case map_of (view_snapshots ctx) sid of
                  None \<Rightarrow> (changed, ctx\<lparr>view_snapshots := AList.update sid view (view_snapshots ctx)\<rparr>)
                | Some snap \<Rightarrow>
                    if snap = view then (changed, ctx)
                    else let ops = diff snap view;
                             ctx1 = ctx\<lparr>view_snapshots := AList.update sid view (view_snapshots ctx)\<rparr>
                         in if ops = [] then (changed, ctx1)
                            else (True, on_client c (raw_now (room_state_patch (JArr ops)))
                                   (tap_log (event_payload (JArr ops) (event_client sid
                                      (event_new (wall ctx1) ''out'' ''state_patch''))) ctx1)))"

definition broadcast_state :: "('s, 'i, 'h) RoomContext \<Rightarrow> bool \<times> ('s, 'i, 'h) RoomContext" where
  "broadcast_state ctx =
     (case state_slot ctx of
        None \<Rightarrow> (False, ctx)
      | Some slot \<Rightarrow>
          (case view_filter ctx of
             Some f \<Rightarrow> fold (view_step f (slot_get slot)) (clients ctx) (False, ctx)
           | None \<Rightarrow>
               (case slot_diff slot of
                  (None, slot') \<Rightarrow> (False, ctx\<lparr>state_slot := Some slot'\<rparr>)
                | (Some patch, slot') \<Rightarrow>
                    let ctx1 = tap_log (event_payload patch (event_new (wall ctx) ''out'' ''state_patch''))
                                 (ctx\<lparr>state_slot := Some slot'\<rparr>)
                    in (True, each_client is_joined (raw_now (room_state_patch patch)) (clients ctx1) ctx1))))"

definition deliver_item :: "AfterPatchItem \<Rightarrow> ('s, 'i, 'h) RoomContext \<Rightarrow> ('s, 'i, 'h) RoomContext" where
  "deliver_item item ctx =
     (case item_target item of
        ToClient sid \<Rightarrow>
          (case get_client sid ctx of
             None \<Rightarrow> ctx
           | Some c \<Rightarrow> if is_joined (store ctx c) then on_client c (raw_now (item_bytes item)) ctx else ctx)
      | ToAll except \<Rightarrow>
          each_client (\<lambda>cl. \<not> (\<not> is_joined cl \<or> except = Some (session_id cl)))
            (raw_now (item_bytes item)) (clients ctx) ctx)"

definition flush_after_patch :: "('s, 'i, 'h) RoomContext \<Rightarrow> ('s, 'i, 'h) RoomContext" where
  "flush_after_patch ctx = fold deliver_item (after_patch ctx) (ctx\<lparr>after_patch := []\<rparr>)"

definition broadcast_patch :: "('s, 'i, 'h) RoomContext \<Rightarrow> bool \<times> ('s, 'i, 'h) RoomContext" where
  "broadcast_patch ctx =
     (case broadcast_state ctx of (changed, ctx1) \<Rightarrow> (changed, flush_after_patch ctx1))"

definition full_state_for :: "cref \<Rightarrow> ('s, 'i, 'h) RoomContext \<Rightarrow> json option" where
  "full_state_for c ctx =
     map_option (\<lambda>slot. case view_filter ctx of
         Some f \<Rightarrow> f (slot_get slot) (store ctx c)
       | None \<Rightarrow> slot_full slot) (state_slot ctx)"

definition set_view_snapshot :: "string \<Rightarrow> json \<Rightarrow> ('s, 'i, 'h) RoomContext \<Rightarrow> ('s, 'i, 'h) RoomContext" where
  "set_view_snapshot sid view ctx = ctx\<lparr>view_snapshots := AList.update sid view (view_snapshots ctx)\<rparr>"

definition drop_view_snapshot :: "string \<Rightarrow> ('s, 'i, 'h) RoomContext \<Rightarrow> ('s, 'i, 'h) RoomContext" where
  "drop_view_snapshot sid ctx = ctx\<lparr>view_snapshots := AList.delete sid (view_snapshots ctx)\<rparr>"

end
