(* ===== verification/Actor.thy ===== *)
theory Actor
  imports Room
begin

text \<open>
  The room actor, \<^verbatim>\<open>crates/colyseus/src/actor.rs\<close>, and the trait
  \<^verbatim>\<open>Room\<close> of \<^verbatim>\<open>room.rs\<close> that it drives. A room type is a record of
  hooks, each a state transformer of the room value and its context, together with what the
  labels of its handlers, timers and commands do. The actor handles one event at a time;
  while one runs the mailbox may grow but nothing else of the room changes, so a handler is
  a function. Its answer to the requester is part of its result.
\<close>

section \<open>The room trait\<close>

type_synonym ('r, 's, 'i, 'h) room = "'r \<times> ('s, 'i, 'h) RoomContext"

record ('r, 's, 'i, 'h) RoomHooks =
  on_create :: "json \<Rightarrow> ('r, 's, 'i, 'h) room \<Rightarrow> (ServerError, unit) result \<times> ('r, 's, 'i, 'h) room"
  on_restore :: "RoomSnapshot \<Rightarrow> ('r, 's, 'i, 'h) room \<Rightarrow> (ServerError, unit) result \<times> ('r, 's, 'i, 'h) room"
  room_schema_version :: "'r \<Rightarrow> nat"
  on_migrate :: "nat \<Rightarrow> 'r \<times> RoomSnapshot \<Rightarrow> (ServerError, unit) result \<times> 'r \<times> RoomSnapshot"
  on_auth :: "json \<Rightarrow> AuthContext \<Rightarrow> ('r, 's, 'i, 'h) room
     \<Rightarrow> (ServerError, json option) result \<times> ('r, 's, 'i, 'h) room"
  on_join :: "cref \<Rightarrow> json \<Rightarrow> json option \<Rightarrow> ('r, 's, 'i, 'h) room
     \<Rightarrow> (ServerError, unit) result \<times> ('r, 's, 'i, 'h) room"
  on_drop :: "cref \<Rightarrow> nat \<Rightarrow> ('r, 's, 'i, 'h) room \<Rightarrow> ('r, 's, 'i, 'h) room"
  on_reconnect :: "cref \<Rightarrow> ('r, 's, 'i, 'h) room \<Rightarrow> ('r, 's, 'i, 'h) room"
  on_leave :: "cref \<Rightarrow> nat \<Rightarrow> ('r, 's, 'i, 'h) room \<Rightarrow> ('r, 's, 'i, 'h) room"
  on_dispose :: "('r, 's, 'i, 'h) room \<Rightarrow> ('r, 's, 'i, 'h) room"
  on_tick :: "duration \<Rightarrow> ('r, 's, 'i, 'h) room \<Rightarrow> ('r, 's, 'i, 'h) room"
  msg_decode :: "'h \<Rightarrow> json \<Rightarrow> (string, json) result"
  msg_run :: "'h \<Rightarrow> cref \<Rightarrow> json \<Rightarrow> ('r, 's, 'i, 'h) room
     \<Rightarrow> (ServerError, unit) result \<times> ('r, 's, 'i, 'h) room"
  any_run :: "'h \<Rightarrow> cref \<Rightarrow> MessageType \<Rightarrow> json \<Rightarrow> ('r, 's, 'i, 'h) room
     \<Rightarrow> (ServerError, unit) result \<times> ('r, 's, 'i, 'h) room"
  bytes_run :: "'h \<Rightarrow> cref \<Rightarrow> bytes \<Rightarrow> ('r, 's, 'i, 'h) room
     \<Rightarrow> (ServerError, unit) result \<times> ('r, 's, 'i, 'h) room"
  timer_run :: "'h \<Rightarrow> ('r, 's, 'i, 'h) room \<Rightarrow> ('r, 's, 'i, 'h) room"
  command_run :: "'h \<Rightarrow> ('r, 's, 'i, 'h) room \<Rightarrow> ('r, 's, 'i, 'h) room"
  rpc_run :: "'h \<Rightarrow> ('r, 's, 'i, 'h) room \<Rightarrow> (ServerError, json) result \<times> ('r, 's, 'i, 'h) room"

text \<open>The default method bodies of the trait.\<close>

definition default_hooks :: "('r, 's, 'i, 'h) RoomHooks" where
  "default_hooks =
     \<lparr>on_create = \<lambda>_ rm. (Inr (), rm), on_restore = \<lambda>_ rm. (Inr (), rm),
      room_schema_version = \<lambda>_. 1, on_migrate = \<lambda>_ rs. (Inr (), rs),
      on_auth = \<lambda>_ _ rm. (Inr None, rm), on_join = \<lambda>_ _ _ rm. (Inr (), rm),
      on_drop = \<lambda>_ _ rm. rm, on_reconnect = \<lambda>_ rm. rm, on_leave = \<lambda>_ _ rm. rm,
      on_dispose = \<lambda>rm. rm, on_tick = \<lambda>_ rm. rm,
      msg_decode = \<lambda>_. Inr, msg_run = \<lambda>_ _ _ rm. (Inr (), rm), any_run = \<lambda>_ _ _ _ rm. (Inr (), rm),
      bytes_run = \<lambda>_ _ _ rm. (Inr (), rm), timer_run = \<lambda>_ rm. rm, command_run = \<lambda>_ rm. rm,
      rpc_run = \<lambda>_ rm. (Inr JNull, rm)\<rparr>"

section \<open>The actor\<close>

record ClientInspection =
  ci_session_id :: string
  ci_state :: ClientState
  ci_auth :: "json option"
  ci_user_data :: "json option"

record RoomInspection =
  ri_room_id :: string
  ri_state :: "json option"
  ri_clients :: "ClientInspection list"
  ri_reserved_seats :: nat
  ri_pending_reconnections :: nat
  ri_elapsed_millis :: millis

datatype Response =
    NoResponse
  | RUnit "(ServerError, unit) result"
  | RSession "string option"
  | RRpc "(ServerError, json) result"
  | RInspect RoomInspection
  | REdit "(string, unit) result"

datatype Flow = Continue | Break

text \<open>
  The receiving end of the mailbox is the queue that \<open>sender\<close> of the context fills. An
  interval is the instant of its next tick and its period. \<open>on_dispose_armed\<close>: the
  clean-up callback of the matchmaker has not run yet.
\<close>

record ('r, 's, 'i, 'h) RoomActor =
  actor_room :: 'r
  actor_ctx :: "('s, 'i, 'h) RoomContext"
  on_dispose_armed :: bool
  sim :: "(instant \<times> duration) option"
  sim_cfg :: "duration option"
  patch :: "(instant \<times> duration) option"
  patch_cfg :: "duration option"
  last_tick :: instant
  last_auto_save :: "instant option"
  actor_created_at :: instant

text \<open>Running a transformer of the room and its context on the actor.\<close>

definition run_room ::
  "(('r, 's, 'i, 'h) room \<Rightarrow> 'a \<times> ('r, 's, 'i, 'h) room) \<Rightarrow> ('r, 's, 'i, 'h) RoomActor
     \<Rightarrow> 'a \<times> ('r, 's, 'i, 'h) RoomActor" where
  "run_room f a =
     (case f (actor_room a, actor_ctx a) of
        (x, r, ctx) \<Rightarrow> (x, a\<lparr>actor_room := r, actor_ctx := ctx\<rparr>))"

definition on_ctx ::
  "(('s, 'i, 'h) RoomContext \<Rightarrow> ('s, 'i, 'h) RoomContext) \<Rightarrow> ('r, 's, 'i, 'h) room
     \<Rightarrow> ('r, 's, 'i, 'h) room" where
  "on_ctx f rm = (fst rm, f (snd rm))"

section \<open>Spawning\<close>

definition finish_spawn ::
  "('r, 's, 'i, 'h) room \<Rightarrow> ('r, 's, 'i, 'h) RoomActor \<times> RoomListing" where
  "finish_spawn rm =
     (\<lparr>actor_room = fst rm, actor_ctx = snd rm, on_dispose_armed = True, sim = None, sim_cfg = None,
       patch = None, patch_cfg = None, last_tick = now (snd rm), last_auto_save = None,
       actor_created_at = now (snd rm)\<rparr>, build_listing (snd rm))"

text \<open>An error comes with the context as the failed hook left it.\<close>

definition spawn_room ::
  "('r, 's, 'i, 'h) RoomHooks \<Rightarrow> 'r \<Rightarrow> ('s, 'i, 'h) RoomContext \<Rightarrow> json
     \<Rightarrow> (ServerError \<times> ('s, 'i, 'h) RoomContext, ('r, 's, 'i, 'h) RoomActor \<times> RoomListing) result" where
  "spawn_room H r ctx options =
     (let ctx1 = set_sender [] (ctx\<lparr>create_options := options\<rparr>)
      in case on_create H options (r, ctx1) of
          (Inl e, (r', ctx2)) \<Rightarrow> Inl (e, ctx2)
        | (Inr _, (r', ctx2)) \<Rightarrow>
            Inr (finish_spawn (r', ctx2\<lparr>schema_version := room_schema_version H r'\<rparr>)))"

definition spawn_restored_room ::
  "('r, 's, 'i, 'h) RoomHooks \<Rightarrow> 'r \<Rightarrow> ('s, 'i, 'h) RoomContext \<Rightarrow> RoomSnapshot
     \<Rightarrow> (ServerError \<times> ('s, 'i, 'h) RoomContext, ('r, 's, 'i, 'h) RoomActor \<times> RoomListing) result" where
  "spawn_restored_room H r ctx snap =
     (case on_create H (s_options snap) (r, set_sender [] ctx) of
        (Inl e, (r1, ctx1)) \<Rightarrow> Inl (e, ctx1)
      | (Inr _, (r1, ctx1)) \<Rightarrow>
          let current = room_schema_version H r1;
              migrated =
                (if s_schema_version snap < current then
                   (case on_migrate H (s_schema_version snap) (r1, snap) of
                      (Inl e, _) \<Rightarrow> Inl e
                    | (Inr _, (r2, snap')) \<Rightarrow> Inr (r2, snap'\<lparr>s_schema_version := current\<rparr>))
                 else if s_schema_version snap > current then
                   Inl (new_error APPLICATION_ERROR
                          (''snapshot schema version '' @ show_nat (s_schema_version snap)
                           @ '' is newer than room version '' @ show_nat current))
                 else Inr (r1, snap))
          in case migrated of
              Inl e \<Rightarrow> Inl (e, ctx1)
            | Inr (r2, snap2) \<Rightarrow>
                (case on_restore H snap2 (r2, ctx1) of
                   (Inl e, (r3, ctx3)) \<Rightarrow> Inl (e, ctx3)
                 | (Inr _, (r3, ctx3)) \<Rightarrow>
                     Inr (finish_spawn (r3, (apply_snapshot snap2 ctx3)\<lparr>schema_version := current\<rparr>))))"

section \<open>Reserving a seat and connecting\<close>

definition room_not_available :: "string \<Rightarrow> ServerError" where
  "room_not_available rid =
     new_error MATCHMAKE_EXPIRED (''room '' @ quote @ rid @ quote @ '' is not available'')"

definition on_reserve_seat ::
  "('r, 's, 'i, 'h) RoomHooks \<Rightarrow> string \<Rightarrow> json \<Rightarrow> AuthContext \<Rightarrow> ('r, 's, 'i, 'h) room
     \<Rightarrow> (ServerError, unit) result \<times> ('r, 's, 'i, 'h) room" where
  "on_reserve_seat H sid options auth rm =
     (let ctx = snd rm
      in if disposing ctx \<or> locked ctx \<or> has_reached_max_clients ctx
         then (Inl (room_not_available (room_id ctx)), rm)
         else case on_auth H options auth rm of
             (Inl e, rm1) \<Rightarrow> (Inl e, rm1)
           | (Inr auth_data, rm1) \<Rightarrow>
               (Inr (), on_ctx (\<lambda>ctx1.
                  let ctx2 = tap_log (event_client sid (event_new (wall ctx1) ''sys'' ''seat'')) ctx1
                  in sync_listing (ctx2\<lparr>reserved_seats := AList.update sid
                       \<lparr>seat_options = options, seat_auth = auth_data, consumed = False,
                        waiting_reconnection = False,
                        seat_expires_at = now ctx2 + seat_reservation_timeout ctx2\<rparr>
                       (reserved_seats ctx2)\<rparr>)) rm1))"

text \<open>The hello of a client that is in: token, handshake, full state, held messages, listing.\<close>

definition send_welcome ::
  "string \<Rightarrow> cref \<Rightarrow> ClientState \<Rightarrow> ('s, 'i, 'h) RoomContext \<Rightarrow> ('s, 'i, 'h) RoomContext" where
  "send_welcome kind c st ctx0 =
     (let ctx1 = on_client c (set_client_state st) ctx0;
          sid = session_id (store ctx1 c);
          (token, ctx2) = generate_id ctx1;
          ctx3 = on_client c (set_reconnection_token token) ctx2;
          ctx4 = on_client c (raw_now (join_room token (serializer_id ctx3) None)) ctx3;
          ctx5 = tap_log (event_client sid (event_new (wall ctx4) ''sys'' kind)) ctx4;
          ctx6 = (case full_state_for c ctx5 of
                    None \<Rightarrow> ctx5
                  | Some state \<Rightarrow>
                      on_client c (raw_now (room_state state))
                        (tap_log (event_payload state (event_client sid
                            (event_new (wall ctx5) ''out'' ''state_full'')))
                          (set_view_snapshot sid state ctx5)))
      in sync_listing (on_client c flush_pending ctx6))"

definition put_client :: "cref \<Rightarrow> ('s, 'i, 'h) RoomContext \<Rightarrow> ('s, 'i, 'h) RoomContext" where
  "put_client c ctx =
     (let sid = session_id (store ctx c)
      in case List.extract (\<lambda>c'. session_id (store ctx c') = sid) (clients ctx) of
          None \<Rightarrow> ctx\<lparr>clients := clients ctx @ [c]\<rparr>
        | Some (before, _, after) \<Rightarrow> ctx\<lparr>clients := before @ c # after\<rparr>)"

definition reconnect ::
  "('r, 's, 'i, 'h) RoomHooks \<Rightarrow> cref \<Rightarrow> string \<Rightarrow> ('r, 's, 'i, 'h) room
     \<Rightarrow> (ServerError, unit) result \<times> ('r, 's, 'i, 'h) room" where
  "reconnect H c token rm =
     (let ctx = snd rm; sid = session_id (store ctx c)
      in case map_of (reconnections ctx) token of
          None \<Rightarrow> (Inl (new_error MATCHMAKE_EXPIRED ''reconnection token invalid or expired''), rm)
        | Some e \<Rightarrow>
            if re_session_id e \<noteq> sid
            then (Inl (new_error MATCHMAKE_EXPIRED ''reconnection token invalid or expired''), rm)
            else
              let previous = re_client e;
                  ctx1 = ctx\<lparr>reconnections := AList.delete token (reconnections ctx),
                             reserved_seats := AList.delete sid (reserved_seats ctx)\<rparr>;
                  ctx2 = on_client c (set_auth (client_auth (store ctx1 previous))) ctx1;
                  ctx3 = (case user_data (store ctx2 previous) of
                            Some ud \<Rightarrow> on_client c (set_user_data ud) ctx2 | None \<Rightarrow> ctx2);
                  ctx4 = on_client previous (set_client_state Reconnected) ctx3;
                  ctx5 = on_client c (set_client_state Reconnecting) ctx4;
                  ctx6 = put_client c ctx5;
                  rm7 = on_reconnect H c (fst rm, ctx6)
              in (Inr (), on_ctx (send_welcome ''reconnect'' c Reconnected) rm7))"

definition join_failed ::
  "cref \<Rightarrow> ServerError \<Rightarrow> ('r, 's, 'i, 'h) room \<Rightarrow> (ServerError, unit) result \<times> ('r, 's, 'i, 'h) room" where
  "join_failed c err rm =
     (let ctx5 = snd rm; sid = session_id (store ctx5 c);
          ctx6 = ctx5\<lparr>clients := filter (\<lambda>c'. session_id (store ctx5 c') \<noteq> sid) (clients ctx5)\<rparr>;
          ctx7 = on_client c (raw_now (error_frame (err_code err) (err_message err))) ctx6;
          ctx8 = on_client c (client_leave (Some WITH_ERROR) (Some (err_message err))) ctx7
      in (Inl err, (fst rm, sync_listing ctx8)))"

definition join ::
  "('r, 's, 'i, 'h) RoomHooks \<Rightarrow> cref \<Rightarrow> ('r, 's, 'i, 'h) room
     \<Rightarrow> (ServerError, unit) result \<times> ('r, 's, 'i, 'h) room" where
  "join H c rm =
     (let ctx = snd rm; sid = session_id (store ctx c)
      in case map_of (reserved_seats ctx) sid of
          None \<Rightarrow> (Inl seat_expired, rm)
        | Some seat \<Rightarrow>
            if consumed seat
            then (Inl (new_error MATCHMAKE_EXPIRED ''seat reservation already consumed''), rm)
            else
              let ctx1 = ctx\<lparr>reserved_seats := AList.update sid (seat\<lparr>consumed := True\<rparr>) (reserved_seats ctx)\<rparr>;
                  ctx2 = on_client c (set_client_state Joining) (on_client c (set_auth (seat_auth seat)) ctx1);
                  ctx3 = ctx2\<lparr>clients := clients ctx2 @ [c]\<rparr>
              in case on_join H c (seat_options seat) (seat_auth seat) (fst rm, ctx3) of
                  (res, (r4, ctx4)) \<Rightarrow>
                    let ctx5 = ctx4\<lparr>reserved_seats := AList.delete sid (reserved_seats ctx4)\<rparr>;
                        early_leave = (client_state (store ctx5 c) = Leaving)
                    in case res of
                        Inl e \<Rightarrow> join_failed c e (r4, ctx5)
                      | Inr _ \<Rightarrow>
                          if early_leave
                          then join_failed c (new_error MATCHMAKE_UNHANDLED ''client left during on_join'')
                                 (r4, ctx5)
                          else (Inr (), (r4, send_welcome ''join'' c Joined (ctx5\<lparr>had_clients := True\<rparr>))))"

definition on_connect ::
  "('r, 's, 'i, 'h) RoomHooks \<Rightarrow> cref \<Rightarrow> string option \<Rightarrow> ('r, 's, 'i, 'h) room
     \<Rightarrow> (ServerError, unit) result \<times> ('r, 's, 'i, 'h) room" where
  "on_connect H c token_opt rm =
     (let rm1 = on_ctx (on_client c (\<lambda>cl. attach_tap (attach_after_patch cl))) rm
      in case token_opt of
          Some token \<Rightarrow> reconnect H c token rm1
        | None \<Rightarrow> join H c rm1)"

section \<open>Messages\<close>

text \<open>
  The closure that \<^verbatim>\<open>on_message\<close> registers: the payload is deserialized first, and
  a failure is answered to the client without running the handler.
\<close>

definition call_msg_handler ::
  "('r, 's, 'i, 'h) RoomHooks \<Rightarrow> 'h \<Rightarrow> cref \<Rightarrow> json \<Rightarrow> ('r, 's, 'i, 'h) room
     \<Rightarrow> (ServerError, unit) result \<times> ('r, 's, 'i, 'h) room" where
  "call_msg_handler H h c payload rm =
     (case msg_decode H h payload of
        Inr msg \<Rightarrow> msg_run H h c msg rm
      | Inl e \<Rightarrow> (Inr (), on_ctx (on_client c (invalid_payload e)) rm))"

text \<open>Handlers in turn; \<open>report\<close> says whether an error is sent to the client.\<close>

fun run_handlers ::
  "bool \<Rightarrow> cref \<Rightarrow> (('r, 's, 'i, 'h) room \<Rightarrow> (ServerError, unit) result \<times> ('r, 's, 'i, 'h) room) list
     \<Rightarrow> ('r, 's, 'i, 'h) room \<Rightarrow> ('r, 's, 'i, 'h) room" where
  "run_handlers report c [] rm = rm"
| "run_handlers report c (f # fs) rm =
     (case f rm of
        (Inr _, rm1) \<Rightarrow> run_handlers report c fs rm1
      | (Inl e, rm1) \<Rightarrow>
          run_handlers report c fs
            (if report then on_ctx (on_client c (client_error (err_code e) (err_message e))) rm1 else rm1))"

definition handlers_of :: "MessageType \<Rightarrow> (MessageType \<times> 'h list) list \<Rightarrow> 'h list" where
  "handlers_of t m = (case map_of m t of Some hs \<Rightarrow> hs | None \<Rightarrow> [])"

definition run_check_rate :: "cref \<Rightarrow> ('s, 'i, 'h) RoomContext \<Rightarrow> bool \<times> ('s, 'i, 'h) RoomContext" where
  "run_check_rate c ctx =
     (case check_rate (max_messages_per_second ctx) (now ctx) (store ctx c) of
        (ok, cl) \<Rightarrow> (ok, on_client c (\<lambda>_. cl) ctx))"

text \<open>\<open>consented\<close> skips \<open>on_drop\<close> (explicit leave).\<close>

definition leave_client ::
  "('r, 's, 'i, 'h) RoomHooks \<Rightarrow> cref \<Rightarrow> nat \<Rightarrow> bool \<Rightarrow> ('r, 's, 'i, 'h) room \<Rightarrow> ('r, 's, 'i, 'h) room" where
  "leave_client H c code consented rm =
     (if client_state (store (snd rm) c) = Leaving \<or> client_state (store (snd rm) c) = Closed then rm
      else
        let rm1 = on_ctx (on_client c (set_client_state Leaving)) rm;
            rm2 = (if \<not> consented \<and> \<not> disposing (snd rm1) then on_drop H c code rm1 else rm1);
            token = reconnection_token (store (snd rm2) c)
        in if map_of (reconnections (snd rm2)) token \<noteq> None
           then on_ctx (on_client c (close_transport code ''reconnecting'')) rm2
           else
             let rm3 = on_leave H c code rm2;
                 rm4 = on_ctx (on_client c (set_client_state Closed)) rm3;
                 sid = session_id (store (snd rm4) c);
                 rm5 = on_ctx (\<lambda>ctx. tap_log (event_bytes code (event_client sid
                               (event_new (wall ctx) ''sys'' ''leave''))) ctx) rm4;
                 rm6 = (if consented then on_ctx (on_client c (client_leave (Some code) None)) rm5 else rm5)
             in on_ctx (\<lambda>ctx.
                  let ctx1 = drop_view_snapshot sid ctx
                  in sync_listing (ctx1\<lparr>clients :=
                       filter (\<lambda>c'. session_id (store ctx1 c') \<noteq> sid) (clients ctx1)\<rparr>)) rm6)"

definition on_data ::
  "('r, 's, 'i, 'h) RoomHooks \<Rightarrow> cref \<Rightarrow> MessageType \<Rightarrow> json \<Rightarrow> ('r, 's, 'i, 'h) room
     \<Rightarrow> ('r, 's, 'i, 'h) room" where
  "on_data H c t payload rm =
     (if \<not> is_joined (store (snd rm) c) then rm
      else
        let rm1 = on_ctx (\<lambda>ctx. tap_log (event_payload payload (event_msg_type t (event_client
                    (session_id (store ctx c)) (event_new (wall ctx) ''in'' ''message'')))) ctx) rm;
            (ok, ctx2) = run_check_rate c (snd rm1);
            rm2 = (fst rm1, ctx2)
        in if \<not> ok then rm2
           else
             let hs = handlers_of t (message_handlers ctx2);
                 rm3 = run_handlers True c (map (\<lambda>h. call_msg_handler H h c payload) hs) rm2;
                 anys = any_handlers (snd rm3)
             in run_handlers False c (map (\<lambda>h. any_run H h c t payload) anys) rm3)"

definition on_data_bytes ::
  "('r, 's, 'i, 'h) RoomHooks \<Rightarrow> cref \<Rightarrow> MessageType \<Rightarrow> bytes \<Rightarrow> ('r, 's, 'i, 'h) room
     \<Rightarrow> ('r, 's, 'i, 'h) room" where
  "on_data_bytes H c t payload rm =
     (if \<not> is_joined (store (snd rm) c) then rm
      else
        let (ok, ctx1) = run_check_rate c (snd rm);
            rm1 = (fst rm, ctx1)
        in if \<not> ok then rm1
           else
             let rm2 = on_ctx (\<lambda>ctx. tap_log (event_bytes (length payload) (event_msg_type t (event_client
                         (session_id (store ctx c)) (event_new (wall ctx) ''in'' ''bytes'')))) ctx) rm1
             in run_handlers True c (map (\<lambda>h. bytes_run H h c payload)
                  (handlers_of t (bytes_handlers (snd rm2)))) rm2)"

definition on_client_message ::
  "('r, 's, 'i, 'h) RoomHooks \<Rightarrow> cref \<Rightarrow> ClientMessage \<Rightarrow> ('r, 's, 'i, 'h) room
     \<Rightarrow> ('r, 's, 'i, 'h) room" where
  "on_client_message H c msg rm =
     (let ctx = snd rm
      in case get_client (session_id (store ctx c)) ctx of
          None \<Rightarrow> if msg = Ping then on_ctx (on_client c (raw_now ping)) rm else rm
        | Some current \<Rightarrow>
            if connection_id (store ctx current) \<noteq> connection_id (store ctx c) then rm
            else (case msg of
                    Ping \<Rightarrow> on_ctx (on_client c (raw_now ping)) rm
                  | Leave \<Rightarrow>
                      leave_client H c CONSENTED True
                        (on_ctx (tap_log (event_client (session_id (store ctx c))
                           (event_new (wall ctx) ''in'' ''leave''))) rm)
                  | Data t payload \<Rightarrow> on_data H c t payload rm
                  | DataBytes t payload \<Rightarrow> on_data_bytes H c t payload rm))"

definition on_disconnected ::
  "('r, 's, 'i, 'h) RoomHooks \<Rightarrow> cref \<Rightarrow> nat \<Rightarrow> ('r, 's, 'i, 'h) room \<Rightarrow> ('r, 's, 'i, 'h) room" where
  "on_disconnected H c code rm =
     (let ctx = snd rm
      in case get_client (session_id (store ctx c)) ctx of
          None \<Rightarrow> rm
        | Some current \<Rightarrow>
            if connection_id (store ctx current) \<noteq> connection_id (store ctx c) then rm
            else leave_client H c code False rm)"

section \<open>Deadlines\<close>

definition min_deadline :: "instant option \<Rightarrow> instant \<Rightarrow> instant option" where
  "min_deadline d t = Some (case d of None \<Rightarrow> t | Some d' \<Rightarrow> min d' t)"

definition next_deadline :: "('r, 's, 'i, 'h) RoomActor \<Rightarrow> instant option" where
  "next_deadline a =
     (let ctx = actor_ctx a;
          d1 = foldl min_deadline None (map timer_at (timers ctx));
          d2 = foldl min_deadline d1
                 (map (\<lambda>(_, s). seat_expires_at s)
                   (filter (\<lambda>(_, s). \<not> consumed s \<and> \<not> waiting_reconnection s) (reserved_seats ctx)));
          d3 = foldl min_deadline d2 (List.map_filter (\<lambda>(_, e). re_expires_at e) (reconnections ctx))
      in if auto_dispose ctx \<and> \<not> had_clients ctx \<and> clients ctx = [] \<and> \<not> disposing ctx
         then min_deadline d3 (actor_created_at a + seat_reservation_timeout ctx)
         else d3)"

definition expire_reconnection ::
  "('r, 's, 'i, 'h) RoomHooks \<Rightarrow> string \<Rightarrow> ('r, 's, 'i, 'h) room \<Rightarrow> ('r, 's, 'i, 'h) room" where
  "expire_reconnection H token rm =
     (case map_of (reconnections (snd rm)) token of
        None \<Rightarrow> rm
      | Some e \<Rightarrow>
          let rm1 = on_ctx (\<lambda>ctx. ctx\<lparr>reconnections := AList.delete token (reconnections ctx),
                       reserved_seats := AList.delete (re_session_id e) (reserved_seats ctx)\<rparr>) rm;
              c = re_client e;
              rm2 = on_leave H c FAILED_TO_RECONNECT rm1
          in on_ctx (\<lambda>ctx.
               let ctx1 = on_client c (set_client_state Closed) ctx;
                   sid = session_id (store ctx1 c);
                   ctx2 = drop_view_snapshot sid ctx1
               in sync_listing (ctx2\<lparr>clients :=
                    filter (\<lambda>c'. session_id (store ctx2 c') \<noteq> sid) (clients ctx2)\<rparr>)) rm2)"

definition expired_tokens :: "instant \<Rightarrow> ('s, 'i, 'h) RoomContext \<Rightarrow> string list" where
  "expired_tokens t ctx =
     map fst (filter (\<lambda>(_, e). case re_expires_at e of Some x \<Rightarrow> x \<le> t | None \<Rightarrow> False) (reconnections ctx))"

definition expired_seats :: "instant \<Rightarrow> ('s, 'i, 'h) RoomContext \<Rightarrow> string list" where
  "expired_seats t ctx =
     map fst (filter (\<lambda>(_, s). \<not> consumed s \<and> \<not> waiting_reconnection s \<and> seat_expires_at s \<le> t)
       (reserved_seats ctx))"

definition expire_seats :: "instant \<Rightarrow> ('s, 'i, 'h) RoomContext \<Rightarrow> ('s, 'i, 'h) RoomContext" where
  "expire_seats t ctx =
     (let es = expired_seats t ctx
      in if es \<noteq> [] then sync_listing (ctx\<lparr>reserved_seats := fold AList.delete es (reserved_seats ctx)\<rparr>)
         else ctx)"

definition run_due_timers ::
  "('r, 's, 'i, 'h) RoomHooks \<Rightarrow> instant \<Rightarrow> ('r, 's, 'i, 'h) room \<Rightarrow> ('r, 's, 'i, 'h) room" where
  "run_due_timers H t rm =
     (let due = filter (\<lambda>x. timer_at x \<le> t) (timers (snd rm));
          rm1 = on_ctx (\<lambda>ctx. ctx\<lparr>timers := filter (\<lambda>x. \<not> timer_at x \<le> t) (timers ctx)\<rparr>) rm
      in fold (\<lambda>x. timer_run H (timer_cb x)) due rm1)"

definition handle_deadlines ::
  "('r, 's, 'i, 'h) RoomHooks \<Rightarrow> ('r, 's, 'i, 'h) room \<Rightarrow> ('r, 's, 'i, 'h) room" where
  "handle_deadlines H rm =
     (let t = now (snd rm);
          rm1 = fold (expire_reconnection H) (expired_tokens t (snd rm)) rm;
          rm2 = on_ctx (expire_seats t) rm1
      in run_due_timers H t rm2)"

section \<open>Disposal\<close>

text \<open>The snapshot decision, taken while clients and reconnections are still there.\<close>

definition final_snapshot :: "('s, 'i, 'h) RoomContext \<Rightarrow> ('s, 'i, 'h) RoomContext" where
  "final_snapshot ctx =
     (case persistence ctx of
        None \<Rightarrow> ctx
      | Some p \<Rightarrow>
          if delete_on_dispose (config p) then delete_snapshot ctx
          else if save_on_dispose (config p) then persist_now ctx
          else ctx)"

definition dispose_room ::
  "('r, 's, 'i, 'h) RoomHooks \<Rightarrow> nat \<Rightarrow> ('r, 's, 'i, 'h) room \<Rightarrow> ('r, 's, 'i, 'h) room" where
  "dispose_room H code rm =
     (let ctx1 = (snd rm)\<lparr>disposing := True, request_dispose := None\<rparr>;
          ctx2 = final_snapshot ctx1;
          cs = clients ctx2;
          ctx3 = fold (\<lambda>c. on_client c (\<lambda>cl. client_leave (Some code) (Some ''room disposed'')
                                                (set_client_state Closed cl))) cs (ctx2\<lparr>clients := []\<rparr>);
          ctx4 = ctx3\<lparr>reserved_seats := [], reconnections := []\<rparr>;
          rm5 = on_dispose H (fst rm, ctx4)
      in on_ctx (\<lambda>ctx.
           let ctx6 = tap_log (event_new (wall ctx) ''sys'' ''dispose'') ctx;
               ctx7 = ctx6\<lparr>driver := snd (driver_remove (room_id ctx6) (driver ctx6))\<rparr>
           in ctx7\<lparr>lobby_tx := lobby_tx ctx7 @ [RoomRemoved (room_id ctx7)]\<rparr>) rm5)"

text \<open>The callback of the matchmaker is taken, and thus called once.\<close>

definition dispose ::
  "('r, 's, 'i, 'h) RoomHooks \<Rightarrow> nat \<Rightarrow> ('r, 's, 'i, 'h) RoomActor \<Rightarrow> ('r, 's, 'i, 'h) RoomActor" where
  "dispose H code a =
     (if disposing (actor_ctx a) then a
      else case dispose_room H code (actor_room a, actor_ctx a) of
          (r, ctx) \<Rightarrow> a\<lparr>actor_room := r, actor_ctx := ctx, on_dispose_armed := False\<rparr>)"

definition should_auto_dispose :: "('r, 's, 'i, 'h) RoomActor \<Rightarrow> bool" where
  "should_auto_dispose a =
     (let ctx = actor_ctx a
      in if \<not> auto_dispose ctx \<or> disposing ctx then False
         else if list_ex (\<lambda>c. client_state (store ctx c) \<noteq> Closed) (clients ctx)
                 \<or> reconnections ctx \<noteq> [] then False
         else if list_ex (\<lambda>(_, s). \<not> consumed s \<and> \<not> waiting_reconnection s) (reserved_seats ctx) then False
         else if had_clients ctx then True
         else now ctx - actor_created_at a \<ge> seat_reservation_timeout ctx)"

definition maybe_auto_save :: "('r, 's, 'i, 'h) RoomActor \<Rightarrow> ('r, 's, 'i, 'h) RoomActor" where
  "maybe_auto_save a =
     (let ctx = actor_ctx a
      in case persistence ctx of
          None \<Rightarrow> a
        | Some p \<Rightarrow>
            if state_slot ctx = None \<and> internal_slot ctx = None then a
            else if (case last_auto_save a of
                       None \<Rightarrow> True
                     | Some t \<Rightarrow> now ctx - t \<ge> auto_save_interval (config p))
            then a\<lparr>last_auto_save := Some (now ctx), actor_ctx := persist_now ctx\<rparr>
            else a)"

section \<open>Events\<close>

definition inspect :: "('r, 's, 'i, 'h) RoomActor \<Rightarrow> RoomInspection" where
  "inspect a =
     (let ctx = actor_ctx a
      in \<lparr>ri_room_id = room_id ctx,
          ri_state = map_option slot_full (state_slot ctx),
          ri_clients = map (\<lambda>c. \<lparr>ci_session_id = session_id (store ctx c),
             ci_state = client_state (store ctx c), ci_auth = client_auth (store ctx c),
             ci_user_data = user_data (store ctx c)\<rparr>) (clients ctx),
          ri_reserved_seats = length (reserved_seats ctx),
          ri_pending_reconnections = length (reconnections ctx),
          ri_elapsed_millis = as_millis (now ctx - actor_created_at a)\<rparr>)"

definition kick :: "string \<Rightarrow> ('s, 'i, 'h) RoomContext \<Rightarrow> ('s, 'i, 'h) RoomContext" where
  "kick sid ctx =
     (case get_client sid ctx of
        None \<Rightarrow> ctx
      | Some c \<Rightarrow> on_client c (client_leave (Some CONSENTED) (Some ''kicked by admin'')) ctx)"

definition admin_message ::
  "string option \<Rightarrow> MessageType \<Rightarrow> json \<Rightarrow> ('s, 'i, 'h) RoomContext \<Rightarrow> ('s, 'i, 'h) RoomContext" where
  "admin_message sid_opt t payload ctx =
     (case sid_opt of
        Some sid \<Rightarrow>
          (case get_client sid ctx of
             None \<Rightarrow> ctx
           | Some c \<Rightarrow> client_send c t payload default_send_options ctx)
      | None \<Rightarrow> broadcast t payload ctx)"

definition edit_state ::
  "string list \<Rightarrow> StateEdit \<Rightarrow> ('s, 'i, 'h) RoomContext \<Rightarrow> (string, unit) result \<times> ('s, 'i, 'h) RoomContext" where
  "edit_state path edit ctx =
     (case state_slot ctx of
        None \<Rightarrow> (Inl ''room has no state'', ctx)
      | Some slot \<Rightarrow>
          (case slot_apply_edit slot path edit of (r, slot') \<Rightarrow> (r, ctx\<lparr>state_slot := Some slot'\<rparr>)))"

definition handle_event ::
  "('r, 's, 'i, 'h) RoomHooks \<Rightarrow> 'h RoomEvent \<Rightarrow> ('r, 's, 'i, 'h) RoomActor
     \<Rightarrow> (Flow \<times> Response) \<times> ('r, 's, 'i, 'h) RoomActor" where
  "handle_event H ev a =
     (case ev of
        ReserveSeat sid options auth \<Rightarrow>
          run_room (\<lambda>rm. case on_reserve_seat H sid options auth rm of
             (res, rm') \<Rightarrow> ((Continue, RUnit res), rm')) a
      | CheckReconnection token \<Rightarrow>
          ((Continue, RSession (map_option re_session_id (map_of (reconnections (actor_ctx a)) token))), a)
      | Connect c token_opt \<Rightarrow>
          run_room (\<lambda>rm. case on_connect H c token_opt rm of
             (res, rm') \<Rightarrow> ((Continue, RUnit res), rm')) a
      | Message c msg \<Rightarrow> run_room (\<lambda>rm. ((Continue, NoResponse), on_client_message H c msg rm)) a
      | Disconnected c code \<Rightarrow> run_room (\<lambda>rm. ((Continue, NoResponse), on_disconnected H c code rm)) a
      | Command h \<Rightarrow> run_room (\<lambda>rm. ((Continue, NoResponse), command_run H h rm)) a
      | CallRoomRpc h \<Rightarrow>
          run_room (\<lambda>rm. case rpc_run H h rm of (res, rm') \<Rightarrow> ((Continue, RRpc res), rm')) a
      | Inspect \<Rightarrow> ((Continue, RInspect (inspect a)), a)
      | Kick sid \<Rightarrow> run_room (\<lambda>rm. ((Continue, NoResponse), on_ctx (kick sid) rm)) a
      | SetLocked l \<Rightarrow>
          run_room (\<lambda>rm. ((Continue, NoResponse), on_ctx (if l then room_lock else room_unlock) rm)) a
      | AdminMessage sid_opt t payload \<Rightarrow>
          run_room (\<lambda>rm. ((Continue, NoResponse), on_ctx (admin_message sid_opt t payload) rm)) a
      | Dispose code \<Rightarrow> ((Break, NoResponse), dispose H code a)
      | EditState path edit \<Rightarrow>
          run_room (\<lambda>rm. case edit_state path edit (snd rm) of
             (res, ctx') \<Rightarrow> ((Continue, REdit res), (fst rm, ctx'))) a
      | Shutdown \<Rightarrow> ((Break, NoResponse), dispose H SERVER_SHUTDOWN a))"

section \<open>The loop\<close>

text \<open>
  An interval ticks at once when it is made and then one period after each tick (the
  behaviour \<^verbatim>\<open>Delay\<close> for missed ticks).
\<close>

definition sync_intervals :: "('r, 's, 'i, 'h) RoomActor \<Rightarrow> ('r, 's, 'i, 'h) RoomActor" where
  "sync_intervals a =
     (let ctx = actor_ctx a;
          a1 = (if sim_cfg a \<noteq> sim_interval ctx
                then a\<lparr>sim_cfg := sim_interval ctx, sim := map_option (\<lambda>d. (now ctx, d)) (sim_interval ctx),
                       last_tick := now ctx\<rparr>
                else a)
      in if patch_cfg a1 \<noteq> patch_rate ctx
         then a1\<lparr>patch_cfg := patch_rate ctx, patch := map_option (\<lambda>d. (now ctx, d)) (patch_rate ctx)\<rparr>
         else a1)"

definition sim_tick :: "('r, 's, 'i, 'h) RoomHooks \<Rightarrow> ('r, 's, 'i, 'h) RoomActor \<Rightarrow> ('r, 's, 'i, 'h) RoomActor" where
  "sim_tick H a =
     (let ctx = actor_ctx a; delta = now ctx - last_tick a;
          a1 = a\<lparr>last_tick := now ctx, actor_ctx := ctx\<lparr>clock := clock_tick (now ctx) (clock ctx)\<rparr>\<rparr>
      in snd (run_room (\<lambda>rm. ((), on_tick H delta rm)) a1))"

definition patch_tick :: "('r, 's, 'i, 'h) RoomActor \<Rightarrow> ('r, 's, 'i, 'h) RoomActor" where
  "patch_tick a =
     (let ctx = actor_ctx a;
          ctx1 = (if sim_interval ctx = None then ctx\<lparr>clock := clock_tick (now ctx) (clock ctx)\<rparr> else ctx);
          (changed, ctx2) = broadcast_patch ctx1;
          a1 = a\<lparr>actor_ctx := ctx2\<rparr>
      in if changed then maybe_auto_save a1 else a1)"

definition due :: "(instant \<times> duration) option \<Rightarrow> instant \<Rightarrow> bool" where
  "due i t \<longleftrightarrow> (case i of Some (at_time, _) \<Rightarrow> at_time \<le> t | None \<Rightarrow> False)"

definition rearm :: "instant \<Rightarrow> (instant \<times> duration) option \<Rightarrow> (instant \<times> duration) option" where
  "rearm t i = map_option (\<lambda>(_, d). (t + d, d)) i"

text \<open>After each branch: a requested disposal, or an automatic one.\<close>

definition after_branch ::
  "('r, 's, 'i, 'h) RoomHooks \<Rightarrow> ('r, 's, 'i, 'h) RoomActor \<Rightarrow> Flow \<times> ('r, 's, 'i, 'h) RoomActor" where
  "after_branch H a =
     (case request_dispose (actor_ctx a) of
        Some code \<Rightarrow>
          (Break, dispose H code (a\<lparr>actor_ctx := (actor_ctx a)\<lparr>request_dispose := None\<rparr>\<rparr>))
      | None \<Rightarrow>
          if should_auto_dispose a then (Break, dispose H CONSENTED a) else (Continue, a))"

text \<open>
  One turn of the loop at the instant of the context: the first branch that is ready, in
  the order of the biased \<^verbatim>\<open>select!\<close>. \<open>None\<close>: nothing is ready, the actor waits.
\<close>

definition run_turn ::
  "('r, 's, 'i, 'h) RoomHooks \<Rightarrow> ('r, 's, 'i, 'h) RoomActor
     \<Rightarrow> (Flow \<times> Response \<times> ('r, 's, 'i, 'h) RoomActor) option" where
  "run_turn H a0 =
     (let a = sync_intervals a0; ctx = actor_ctx a; t = now ctx
      in case sender ctx of
          Some (ev # rest) \<Rightarrow>
            (case handle_event H ev (a\<lparr>actor_ctx := ctx\<lparr>sender := Some rest\<rparr>\<rparr>) of
               ((Break, res), a1) \<Rightarrow> Some (Break, res, a1)
             | ((Continue, res), a1) \<Rightarrow>
                 (case after_branch H a1 of (fl, a2) \<Rightarrow> Some (fl, res, a2)))
        | _ \<Rightarrow>
            let next = (if due (sim a) t then Some (sim_tick H (a\<lparr>sim := rearm t (sim a)\<rparr>))
                        else if due (patch a) t then Some (patch_tick (a\<lparr>patch := rearm t (patch a)\<rparr>))
                        else if (case next_deadline a of Some d \<Rightarrow> d \<le> t | None \<Rightarrow> False)
                        then Some (snd (run_room (\<lambda>rm. ((), handle_deadlines H rm)) a))
                        else None)
            in case next of
                None \<Rightarrow> None
              | Some a1 \<Rightarrow> (case after_branch H a1 of (fl, a2) \<Rightarrow> Some (fl, NoResponse, a2)))"

end
