(* ===== verification/Frames.thy ===== *)
theory Frames
  imports Actor
begin

text \<open>
  What the operations of a room context leave alone: one simplification fact per field and
  operation, in the collection \<open>frame_simps\<close>, and the effect of the composite
  operations of the actor on the fields the properties speak about.
\<close>

section \<open>The context operations\<close>

lemma sync_listing_eq: "\<exists>d l. sync_listing ctx = ctx\<lparr>driver := d, lobby_tx := l\<rparr>"
proof -
  obtain b d where d: "driver_update_by_id (room_id ctx) (update_listing ctx) (driver ctx) = (b, d)"
    by (cases "driver_update_by_id (room_id ctx) (update_listing ctx) (driver ctx)")
  show ?thesis
  proof (cases "driver_get (room_id ctx) (driver ctx)")
    case None
    then have "sync_listing ctx = ctx\<lparr>driver := d, lobby_tx := lobby_tx ctx\<rparr>"
      by (simp add: sync_listing_def d)
    then show ?thesis by blast
  next
    case (Some l)
    then have "sync_listing ctx
        = ctx\<lparr>driver := d, lobby_tx := lobby_tx ctx @ [RoomUpdated (update_listing ctx l)]\<rparr>"
      by (simp add: sync_listing_def d)
    then show ?thesis by blast
  qed
qed

lemma sync_listing_frame [simp, frame_simps]:
  "room_id (sync_listing ctx) = room_id ctx" "room_name (sync_listing ctx) = room_name ctx"
  "process_id (sync_listing ctx) = process_id ctx" "created_at (sync_listing ctx) = created_at ctx"
  "clients (sync_listing ctx) = clients ctx" "state_slot (sync_listing ctx) = state_slot ctx"
  "internal_slot (sync_listing ctx) = internal_slot ctx" "clock (sync_listing ctx) = clock ctx"
  "auto_dispose (sync_listing ctx) = auto_dispose ctx"
  "max_messages_per_second (sync_listing ctx) = max_messages_per_second ctx"
  "seat_reservation_timeout (sync_listing ctx) = seat_reservation_timeout ctx"
  "patch_rate (sync_listing ctx) = patch_rate ctx" "sim_interval (sync_listing ctx) = sim_interval ctx"
  "max_clients (sync_listing ctx) = max_clients ctx" "locked (sync_listing ctx) = locked ctx"
  "is_private (sync_listing ctx) = is_private ctx" "metadata (sync_listing ctx) = metadata ctx"
  "reserved_seats (sync_listing ctx) = reserved_seats ctx"
  "reconnections (sync_listing ctx) = reconnections ctx"
  using sync_listing_eq [of ctx] by auto

lemma sync_listing_frame2 [simp, frame_simps]:
  "message_handlers (sync_listing ctx) = message_handlers ctx"
  "any_handlers (sync_listing ctx) = any_handlers ctx"
  "bytes_handlers (sync_listing ctx) = bytes_handlers ctx"
  "view_filter (sync_listing ctx) = view_filter ctx"
  "view_snapshots (sync_listing ctx) = view_snapshots ctx"
  "after_patch (sync_listing ctx) = after_patch ctx" "timers (sync_listing ctx) = timers ctx"
  "next_timer_id (sync_listing ctx) = next_timer_id ctx" "presence (sync_listing ctx) = presence ctx"
  "request_dispose (sync_listing ctx) = request_dispose ctx" "disposing (sync_listing ctx) = disposing ctx"
  "had_clients (sync_listing ctx) = had_clients ctx" "filter_extra (sync_listing ctx) = filter_extra ctx"
  "sender (sync_listing ctx) = sender ctx" "tap (sync_listing ctx) = tap ctx"
  "schema_version (sync_listing ctx) = schema_version ctx"
  "create_options (sync_listing ctx) = create_options ctx"
  "persistence (sync_listing ctx) = persistence ctx" "now (sync_listing ctx) = now ctx"
  "wall (sync_listing ctx) = wall ctx" "gen (sync_listing ctx) = gen ctx"
  "gen_next (sync_listing ctx) = gen_next ctx" "store (sync_listing ctx) = store ctx"
  "next_ref (sync_listing ctx) = next_ref ctx"
  using sync_listing_eq [of ctx] by auto

lemma driver_sync_listing [simp, frame_simps]:
  "driver (sync_listing ctx) = snd (driver_update_by_id (room_id ctx) (update_listing ctx) (driver ctx))"
  by (simp add: sync_listing_def Let_def split: prod.split option.split)

lemma owned_sync_listing [simp]:
  "room_id ctx = rid \<Longrightarrow> owned b rid d0 (driver ctx)
     \<Longrightarrow> owned b rid d0 (snd (driver_update_by_id rid (update_listing ctx') (driver ctx)))"
  by (rule owned_update) (simp_all add: update_listing_def)

lemma pending_seats_cong: "reserved_seats a = reserved_seats b \<Longrightarrow> pending_seats a = pending_seats b"
  by (simp add: pending_seats_def)

lemma pending_seats_sync [simp]: "pending_seats (sync_listing ctx) = pending_seats ctx"
  by (simp add: pending_seats_def)

text \<open>The two operations that only touch the tap or one client.\<close>

lemmas local_op_defs = on_client_def tap_log_def on_ctx_def

lemma store_on_client [simp]:
  "store (on_client c f ctx) c' = (if c' = c then f (store ctx c) else store ctx c')"
  by (simp add: on_client_def)

lemma on_client_frame [simp, frame_simps]:
  "clients (on_client c f ctx) = clients ctx" "reserved_seats (on_client c f ctx) = reserved_seats ctx"
  "reconnections (on_client c f ctx) = reconnections ctx" "state_slot (on_client c f ctx) = state_slot ctx"
  "view_filter (on_client c f ctx) = view_filter ctx"
  "view_snapshots (on_client c f ctx) = view_snapshots ctx"
  "after_patch (on_client c f ctx) = after_patch ctx" "max_clients (on_client c f ctx) = max_clients ctx"
  "disposing (on_client c f ctx) = disposing ctx" "locked (on_client c f ctx) = locked ctx"
  "room_id (on_client c f ctx) = room_id ctx" "driver (on_client c f ctx) = driver ctx"
  "wall (on_client c f ctx) = wall ctx" "now (on_client c f ctx) = now ctx"
  "gen (on_client c f ctx) = gen ctx" "gen_next (on_client c f ctx) = gen_next ctx"
  "timers (on_client c f ctx) = timers ctx" "tap (on_client c f ctx) = tap ctx"
  "had_clients (on_client c f ctx) = had_clients ctx" "auto_dispose (on_client c f ctx) = auto_dispose ctx"
  "request_dispose (on_client c f ctx) = request_dispose ctx" "sender (on_client c f ctx) = sender ctx"
  "next_ref (on_client c f ctx) = next_ref ctx" "persistence (on_client c f ctx) = persistence ctx"
  by (simp_all add: on_client_def)

lemma tap_log_frame [simp, frame_simps]:
  "clients (tap_log e ctx) = clients ctx" "reserved_seats (tap_log e ctx) = reserved_seats ctx"
  "reconnections (tap_log e ctx) = reconnections ctx" "state_slot (tap_log e ctx) = state_slot ctx"
  "view_filter (tap_log e ctx) = view_filter ctx" "view_snapshots (tap_log e ctx) = view_snapshots ctx"
  "after_patch (tap_log e ctx) = after_patch ctx" "max_clients (tap_log e ctx) = max_clients ctx"
  "disposing (tap_log e ctx) = disposing ctx" "locked (tap_log e ctx) = locked ctx"
  "room_id (tap_log e ctx) = room_id ctx" "driver (tap_log e ctx) = driver ctx"
  "wall (tap_log e ctx) = wall ctx" "now (tap_log e ctx) = now ctx"
  "gen (tap_log e ctx) = gen ctx" "gen_next (tap_log e ctx) = gen_next ctx"
  "timers (tap_log e ctx) = timers ctx" "store (tap_log e ctx) = store ctx"
  "had_clients (tap_log e ctx) = had_clients ctx" "auto_dispose (tap_log e ctx) = auto_dispose ctx"
  "seat_reservation_timeout (tap_log e ctx) = seat_reservation_timeout ctx"
  "request_dispose (tap_log e ctx) = request_dispose ctx" "sender (tap_log e ctx) = sender ctx"
  "next_ref (tap_log e ctx) = next_ref ctx" "persistence (tap_log e ctx) = persistence ctx"
  by (simp_all add: tap_log_def)

lemma pending_seats_local [simp]:
  "pending_seats (on_client c f ctx) = pending_seats ctx" "pending_seats (tap_log e ctx) = pending_seats ctx"
  by (simp_all add: pending_seats_def)

lemma on_ctx_simps [simp]: "fst (on_ctx f rm) = fst rm" "snd (on_ctx f rm) = f (snd rm)"
  by (simp_all add: on_ctx_def)

section \<open>The hello of a client\<close>

lemma send_welcome_frame [simp, frame_simps]:
  "clients (send_welcome k c st ctx) = clients ctx"
  "reserved_seats (send_welcome k c st ctx) = reserved_seats ctx"
  "reconnections (send_welcome k c st ctx) = reconnections ctx"
  "state_slot (send_welcome k c st ctx) = state_slot ctx"
  "view_filter (send_welcome k c st ctx) = view_filter ctx"
  "after_patch (send_welcome k c st ctx) = after_patch ctx"
  "max_clients (send_welcome k c st ctx) = max_clients ctx"
  "had_clients (send_welcome k c st ctx) = had_clients ctx"
  "disposing (send_welcome k c st ctx) = disposing ctx"
  "gen_next (send_welcome k c st ctx) = gen_next ctx + 1"
  by (simp_all add: send_welcome_def generate_id_def set_view_snapshot_def Let_def split: option.splits)

text \<open>The client after its hello: state, fresh token, frames, flush. Other clients are untouched.\<close>

definition hello :: "string \<Rightarrow> ClientState \<Rightarrow> ('s, 'i, 'h) RoomContext \<Rightarrow> client \<Rightarrow> client" where
  "hello token st ctx cl =
     raw_now (join_room token (serializer_id ctx) None)
       (set_reconnection_token token (set_client_state st cl))"

lemma send_welcome_store:
  "store (send_welcome k c st ctx) =
     (let cl = hello (gen ctx (gen_next ctx)) st ctx (store ctx c)
      in (store ctx)(c := flush_pending (case state_slot ctx of
            None \<Rightarrow> cl
          | Some slot \<Rightarrow> raw_now (room_state (case view_filter ctx of
                Some f \<Rightarrow> f (slot_get slot) cl | None \<Rightarrow> slot_full slot)) cl)))"
  by (simp add: send_welcome_def hello_def generate_id_def set_view_snapshot_def full_state_for_def
      serializer_id_def on_client_def tap_log_def Let_def split: option.splits)

lemma hello_fields [simp]:
  "client_state (hello t st ctx cl) = st" "reconnection_token (hello t st ctx cl) = t"
  "session_id (hello t st ctx cl) = session_id cl" "connection_id (hello t st ctx cl) = connection_id cl"
  "tx_open (hello t st ctx cl) = tx_open cl" "pending (hello t st ctx cl) = pending cl"
  "client_auth (hello t st ctx cl) = client_auth cl" "user_data (hello t st ctx cl) = user_data cl"
  by (simp_all add: hello_def set_client_state_def set_reconnection_token_def)

lemma send_welcome_client [simp]:
  "client_state (store (send_welcome k c st ctx) c) = st"
  "reconnection_token (store (send_welcome k c st ctx) c) = gen ctx (gen_next ctx)"
  "session_id (store (send_welcome k c st ctx) c') = session_id (store ctx c')"
  "connection_id (store (send_welcome k c st ctx) c') = connection_id (store ctx c')"
  "client_auth (store (send_welcome k c st ctx) c') = client_auth (store ctx c')"
  "user_data (store (send_welcome k c st ctx) c') = user_data (store ctx c')"
  "tx_open (store (send_welcome k c st ctx) c') = tx_open (store ctx c')"
  by (simp_all add: send_welcome_store Let_def flush_pending_eq split: option.splits)

lemma send_welcome_other [simp]:
  "c' \<noteq> c \<Longrightarrow> store (send_welcome k c st ctx) c' = store ctx c'"
  by (simp add: send_welcome_store Let_def)


section \<open>A join\<close>

text \<open>The context that \<^verbatim>\<open>on_join\<close> is given.\<close>

definition joining :: "cref \<Rightarrow> ReservedSeat \<Rightarrow> ('s, 'i, 'h) RoomContext \<Rightarrow> ('s, 'i, 'h) RoomContext" where
  "joining c seat ctx =
     (let cl = set_client_state Joining (set_auth (seat_auth seat) (store ctx c))
      in ctx\<lparr>reserved_seats := AList.update (session_id (store ctx c)) (seat\<lparr>consumed := True\<rparr>)
               (reserved_seats ctx),
             store := (store ctx)(c := cl), clients := clients ctx @ [c]\<rparr>)"

lemma joining_fields [simp]:
  "clients (joining c seat ctx) = clients ctx @ [c]"
  "reserved_seats (joining c seat ctx) =
     AList.update (session_id (store ctx c)) (seat\<lparr>consumed := True\<rparr>) (reserved_seats ctx)"
  "store (joining c seat ctx) =
     (store ctx)(c := set_client_state Joining (set_auth (seat_auth seat) (store ctx c)))"
  by (simp_all add: joining_def Let_def)

lemma join_no_seat:
  "map_of (reserved_seats (snd rm)) (session_id (store (snd rm) c)) = None
     \<Longrightarrow> join H c rm = (Inl seat_expired, rm)"
  by (simp add: join_def Let_def)

lemma join_consumed:
  assumes "map_of (reserved_seats (snd rm)) (session_id (store (snd rm) c)) = Some seat" "consumed seat"
  shows "join H c rm = (Inl (new_error MATCHMAKE_EXPIRED ''seat reservation already consumed''), rm)"
  using assms by (simp add: join_def Let_def)

lemma join_run:
  assumes "map_of (reserved_seats (snd rm)) (session_id (store (snd rm) c)) = Some seat" "\<not> consumed seat"
    and "on_join H c (seat_options seat) (seat_auth seat) (fst rm, joining c seat (snd rm)) = (res, (r, ctx))"
  defines "ctx' \<equiv> ctx\<lparr>reserved_seats := AList.delete (session_id (store (snd rm) c)) (reserved_seats ctx)\<rparr>"
  shows "join H c rm =
     (case res of
        Inl e \<Rightarrow> join_failed c e (r, ctx')
      | Inr _ \<Rightarrow>
          if client_state (store ctx c) = Leaving
          then join_failed c (new_error MATCHMAKE_UNHANDLED ''client left during on_join'') (r, ctx')
          else (Inr (), (r, send_welcome ''join'' c Joined (ctx'\<lparr>had_clients := True\<rparr>))))"
proof -
  let ?sid = "session_id (store (snd rm) c)"
  have "(on_client c (set_client_state Joining) (on_client c (set_auth (seat_auth seat))
        ((snd rm)\<lparr>reserved_seats := AList.update ?sid (seat\<lparr>consumed := True\<rparr>) (reserved_seats (snd rm))\<rparr>)))
      \<lparr>clients := clients (snd rm) @ [c]\<rparr> = joining c seat (snd rm)"
    by (simp add: joining_def on_client_def Let_def)
  then show ?thesis
    unfolding ctx'_def using assms(1-3) by (simp add: join_def Let_def)
qed

end
