(* ===== verification/Sync.thy ===== *)
theory Sync
  imports Frames
begin

text \<open>
  State synchronisation end to end: what the frames that the room puts on a client's
  channel make of the client's replica of the state. The replica is the specification;
  the theorems relate it to the state of the room through joins and patch ticks.
\<close>

section \<open>The replica of a client\<close>

text \<open>A full state replaces the replica, a patch is applied to it, other frames leave it.\<close>

definition sees_frame :: "frame \<Rightarrow> json option \<Rightarrow> json option" where
  "sees_frame f r =
     (case f of
        Packed (JArr [k, v]) \<Rightarrow>
          if k = jint (int ROOM_STATE) then Some v
          else if k = jint (int ROOM_STATE_PATCH) then
            (case v of JArr ops \<Rightarrow> Option.bind r (apply_patch ops) | _ \<Rightarrow> None)
          else r
      | _ \<Rightarrow> r)"

fun sees :: "Outbound \<Rightarrow> json option \<Rightarrow> json option" where
  "sees (Bytes f) r = sees_frame f r"
| "sees (Close code reason) r = r"

definition replica :: "client \<Rightarrow> json option" where
  "replica cl = fold sees (tx cl) None"

definition neutral :: "frame \<Rightarrow> bool" where
  "neutral f \<longleftrightarrow> (\<forall>r. sees_frame f r = r)"

lemma neutral_frames [simp]:
  "neutral (room_data t p)" "neutral (room_data_bytes t b)" "neutral (join_room tok ser hs)"
  "neutral (error_frame c m)" "neutral ping"
  by (auto simp: neutral_def sees_frame_def frame_defs split: option.splits)

lemma sees_state [simp]: "sees_frame (room_state v) r = Some v"
  by (simp add: sees_frame_def room_state_def)

lemma sees_patch [simp]:
  "sees_frame (room_state_patch (JArr ops)) r = Option.bind r (apply_patch ops)"
  by (simp add: sees_frame_def room_state_patch_def frame_code_defs)

lemma replica_raw_now: "tx_open cl \<Longrightarrow> replica (raw_now f cl) = sees_frame f (replica cl)"
  by (simp add: replica_def)

lemma replica_raw_now_neutral [simp]: "neutral f \<Longrightarrow> replica (raw_now f cl) = replica cl"
  by (cases "tx_open cl") (simp_all add: replica_raw_now neutral_def replica_def)

lemma replica_fields [simp]:
  "replica (set_client_state s cl) = replica cl" "replica (set_auth a cl) = replica cl"
  "replica (set_user_data v cl) = replica cl" "replica (set_reconnection_token t cl) = replica cl"
  "replica (attach_after_patch cl) = replica cl" "replica (attach_tap cl) = replica cl"
  "replica (client_leave c r cl) = replica cl" "replica (close_transport n m cl) = replica cl"
  by (simp_all add: replica_def client_op_defs)

section \<open>Operations on many clients\<close>

lemma on_client_eq: "on_client c f ctx = ctx\<lparr>store := (store ctx)(c := f (store ctx c))\<rparr>"
  by (simp add: on_client_def)

lemma each_client_eq:
  "distinct cs \<Longrightarrow> each_client p f cs ctx =
     ctx\<lparr>store := (\<lambda>c. if c \<in> set cs \<and> p (store ctx c) then f (store ctx c) else store ctx c)\<rparr>"
proof (induction cs arbitrary: ctx)
  case Nil
  show ?case by (simp add: each_client_def)
next
  case (Cons c cs)
  let ?ctx = "if p (store ctx c) then on_client c f ctx else ctx"
  have "each_client p f (c # cs) ctx = each_client p f cs ?ctx"
    by (simp add: each_client_def)
  also have "\<dots> = ?ctx\<lparr>store := (\<lambda>c. if c \<in> set cs \<and> p (store ?ctx c) then f (store ?ctx c) else store ?ctx c)\<rparr>"
    using Cons by simp
  also have "\<dots> = ctx\<lparr>store := (\<lambda>c. if c \<in> set cs \<and> p (store ?ctx c) then f (store ?ctx c) else store ?ctx c)\<rparr>"
    by (simp add: on_client_eq)
  also have "(\<lambda>c. if c \<in> set cs \<and> p (store ?ctx c) then f (store ?ctx c) else store ?ctx c)
      = (\<lambda>c'. if c' \<in> set (c # cs) \<and> p (store ctx c') then f (store ctx c') else store ctx c')"
    using Cons.prems by (auto simp: on_client_eq fun_eq_iff)
  finally show ?case .
qed

text \<open>A change that only puts neutral frames on channels.\<close>

definition neutral_change :: "('s, 'i, 'h) RoomContext \<Rightarrow> ('s, 'i, 'h) RoomContext \<Rightarrow> bool" where
  "neutral_change ctx ctx' \<longleftrightarrow>
     (\<exists>st. ctx' = ctx\<lparr>store := st\<rparr>)
     \<and> (\<forall>c. replica (store ctx' c) = replica (store ctx c)
          \<and> (\<exists>t. store ctx' c = (store ctx c)\<lparr>tx := t\<rparr>))"

lemma neutral_change_refl [simp]: "neutral_change ctx ctx"
proof -
  have "ctx = ctx\<lparr>store := store ctx\<rparr>" by simp
  moreover have "store ctx c = (store ctx c)\<lparr>tx := tx (store ctx c)\<rparr>" for c by simp
  ultimately show ?thesis
    unfolding neutral_change_def by blast
qed

lemma neutral_change_trans:
  assumes "neutral_change a b" and "neutral_change b c"
  shows "neutral_change a c"
proof -
  obtain sb sc where "b = a\<lparr>store := sb\<rparr>" "c = b\<lparr>store := sc\<rparr>"
    using assms by (auto simp: neutral_change_def)
  then have "c = a\<lparr>store := sc\<rparr>" by simp
  moreover have "\<exists>t. store c x = (store a x)\<lparr>tx := t\<rparr>" for x
  proof -
    obtain t u where "store b x = (store a x)\<lparr>tx := t\<rparr>" "store c x = (store b x)\<lparr>tx := u\<rparr>"
      using assms unfolding neutral_change_def by metis
    then have "store c x = (store a x)\<lparr>tx := u\<rparr>" by simp
    then show ?thesis ..
  qed
  ultimately show ?thesis
    using assms unfolding neutral_change_def by auto
qed

lemma neutral_change_client:
  assumes "neutral_change ctx ctx'"
  shows "replica (store ctx' c) = replica (store ctx c)"
    and "session_id (store ctx' c) = session_id (store ctx c)"
    and "client_state (store ctx' c) = client_state (store ctx c)"
    and "tx_open (store ctx' c) = tx_open (store ctx c)"
proof -
  obtain t where "store ctx' c = (store ctx c)\<lparr>tx := t\<rparr>"
    using assms unfolding neutral_change_def by blast
  then show "session_id (store ctx' c) = session_id (store ctx c)"
    "client_state (store ctx' c) = client_state (store ctx c)"
    "tx_open (store ctx' c) = tx_open (store ctx c)" by simp_all
  show "replica (store ctx' c) = replica (store ctx c)"
    using assms unfolding neutral_change_def by blast
qed

lemma neutral_change_ctx:
  assumes "neutral_change ctx ctx'"
  shows "clients ctx' = clients ctx" "state_slot ctx' = state_slot ctx"
    "view_filter ctx' = view_filter ctx" "view_snapshots ctx' = view_snapshots ctx"
    "after_patch ctx' = after_patch ctx"
  using assms unfolding neutral_change_def by auto

lemma raw_now_tx: "\<exists>t. raw_now f cl = cl\<lparr>tx := t\<rparr>"
proof (cases "tx_open cl")
  case False
  then have "raw_now f cl = cl\<lparr>tx := tx cl\<rparr>" by (simp add: client_op_defs)
  then show ?thesis ..
qed (auto simp: client_op_defs)

lemma neutral_raw_now: "neutral f \<Longrightarrow> neutral_change ctx (on_client c (raw_now f) ctx)"
proof -
  assume f: "neutral f"
  have "\<exists>t. store ctx x = (store ctx x)\<lparr>tx := t\<rparr>" for x
    by (rule exI [of _ "tx (store ctx x)"]) simp
  then show ?thesis
    using f raw_now_tx [of f "store ctx c"]
    by (auto simp: neutral_change_def on_client_eq)
qed

lemma neutral_each_client: "neutral f \<Longrightarrow> neutral_change ctx (each_client p (raw_now f) cs ctx)"
proof (induction cs arbitrary: ctx)
  case Nil
  show ?case by (simp add: each_client_def)
next
  case (Cons c cs)
  let ?ctx = "if p (store ctx c) then on_client c (raw_now f) ctx else ctx"
  have "each_client p (raw_now f) (c # cs) ctx = each_client p (raw_now f) cs ?ctx"
    by (simp add: each_client_def)
  moreover have "neutral_change ctx ?ctx"
    using neutral_raw_now [OF Cons.prems, of ctx c] by simp
  ultimately show ?case
    using neutral_change_trans Cons.IH [OF Cons.prems] by metis
qed

lemma neutral_deliver_item: "neutral (item_bytes it) \<Longrightarrow> neutral_change ctx (deliver_item it ctx)"
  by (simp add: deliver_item_def neutral_raw_now neutral_each_client
      split: AfterPatchTarget.splits option.splits)

lemma neutral_flush:
  assumes "\<forall>it \<in> set (after_patch ctx). neutral (item_bytes it)"
  shows "neutral_change (ctx\<lparr>after_patch := []\<rparr>) (flush_after_patch ctx)"
proof -
  have "neutral_change c0 (fold deliver_item its c0)"
    if "\<forall>it \<in> set its. neutral (item_bytes it)" for its and c0 :: "('a, 'b, 'c) RoomContext"
    using that
  proof (induction its arbitrary: c0)
    case (Cons it its)
    then show ?case
      using neutral_change_trans [of c0 "deliver_item it c0" "fold deliver_item its (deliver_item it c0)"]
        neutral_deliver_item [of it c0] by simp
  qed simp
  then show ?thesis
    using assms by (simp add: flush_after_patch_def)
qed

section \<open>One shared patch\<close>

lemma slot_diff_cases:
  assumes "wf_slot slot"
  shows "(fst (slot_diff slot) = None \<and> slot_full slot = snapshot slot)
    \<or> (\<exists>ops. fst (slot_diff slot) = Some (JArr ops) \<and> slot_full slot \<noteq> snapshot slot
          \<and> apply_patch ops (snapshot slot) = Some (slot_full slot))"
proof (cases "fst (slot_diff slot)")
  case None
  then show ?thesis using slot_diff_None_iff [OF assms] by simp
next
  case (Some v)
  then have "slot_full slot \<noteq> snapshot slot" using slot_diff_None_iff [OF assms] by auto
  moreover have "replica_after (Some v) (snapshot slot) = Some (slot_full slot)"
    using slot_diff_replica [OF assms] Some by simp
  ultimately show ?thesis using Some by (cases v) auto
qed

lemma broadcast_state_shared:
  fixes ctx :: "('s, 'i, 'h) RoomContext"
  assumes "state_slot ctx = Some slot" and "view_filter ctx = None" and "wf_slot slot"
    and "distinct (clients ctx)" and "broadcast_state ctx = (changed, ctx')"
  shows "changed \<longleftrightarrow> slot_full slot \<noteq> snapshot slot"
    and "state_slot ctx' = Some (snd (slot_diff slot))"
    and "after_patch ctx' = after_patch ctx" "clients ctx' = clients ctx"
    and "\<And>c. c \<in> set (clients ctx) \<Longrightarrow> is_joined (store ctx c) \<Longrightarrow> tx_open (store ctx c)
           \<Longrightarrow> replica (store ctx c) = Some (snapshot slot)
           \<Longrightarrow> replica (store ctx' c) = Some (slot_full slot)"
    and "\<And>c. session_id (store ctx' c) = session_id (store ctx c)
           \<and> client_state (store ctx' c) = client_state (store ctx c)"
proof -
  obtain p slot' where d: "slot_diff slot = (p, slot')" by (cases "slot_diff slot")
  let ?st = "\<lambda>f. (\<lambda>c. if c \<in> set (clients ctx) \<and> is_joined (store ctx c) then f (store ctx c) else store ctx c)"
  consider (same) "p = None" "slot_full slot = snapshot slot" |
    (patch) ops where "p = Some (JArr ops)" "slot_full slot \<noteq> snapshot slot"
      "apply_patch ops (snapshot slot) = Some (slot_full slot)"
    using slot_diff_cases [OF assms(3)] by (auto simp: d)
  then have "(changed \<longleftrightarrow> slot_full slot \<noteq> snapshot slot)
    \<and> state_slot ctx' = Some slot' \<and> after_patch ctx' = after_patch ctx \<and> clients ctx' = clients ctx
    \<and> (\<forall>c \<in> set (clients ctx). is_joined (store ctx c) \<longrightarrow> tx_open (store ctx c)
         \<longrightarrow> replica (store ctx c) = Some (snapshot slot) \<longrightarrow> replica (store ctx' c) = Some (slot_full slot))
    \<and> (\<forall>c. session_id (store ctx' c) = session_id (store ctx c)
         \<and> client_state (store ctx' c) = client_state (store ctx c))"
  proof cases
    case same
    then have "ctx' = ctx\<lparr>state_slot := Some slot'\<rparr>" "\<not> changed"
      using assms(1,2,5) d by (simp_all add: broadcast_state_def)
    then show ?thesis by (simp add: same)
  next
    case patch
    let ?ctx1 = "tap_log (event_payload (JArr ops) (event_new (wall ctx) ''out'' ''state_patch''))
                   (ctx\<lparr>state_slot := Some slot'\<rparr>)"
    have f: "clients ?ctx1 = clients ctx" "store ?ctx1 = store ctx" "after_patch ?ctx1 = after_patch ctx"
      "state_slot ?ctx1 = Some slot'"
      by (simp_all add: tap_log_def)
    have "changed" and ctx': "ctx' = each_client is_joined (raw_now (room_state_patch (JArr ops)))
        (clients ctx) ?ctx1"
      using assms(1,2,5) d patch(1) by (simp_all add: broadcast_state_def Let_def f)
    have st: "store ctx' = ?st (raw_now (room_state_patch (JArr ops)))"
      unfolding ctx' each_client_eq [OF assms(4)] by (simp add: f cong: if_cong)
    show ?thesis
      using \<open>changed\<close> patch unfolding st unfolding ctx' each_client_eq [OF assms(4)]
      by (simp add: f replica_raw_now)
  qed
  then show "changed \<longleftrightarrow> slot_full slot \<noteq> snapshot slot"
    and "state_slot ctx' = Some (snd (slot_diff slot))"
    and "after_patch ctx' = after_patch ctx" "clients ctx' = clients ctx"
    and "\<And>c. c \<in> set (clients ctx) \<Longrightarrow> is_joined (store ctx c) \<Longrightarrow> tx_open (store ctx c)
           \<Longrightarrow> replica (store ctx c) = Some (snapshot slot)
           \<Longrightarrow> replica (store ctx' c) = Some (slot_full slot)"
    and "\<And>c. session_id (store ctx' c) = session_id (store ctx c)
           \<and> client_state (store ctx' c) = client_state (store ctx c)"
    by (simp_all add: d)
qed

text \<open>
  C2. A patch tick keeps every joined client in step: in a room without a view filter, a
  client whose replica is the state of the last broadcast has, after
  \<^verbatim>\<open>broadcast_patch\<close> (the patch and the deferred messages), the current state of
  the room; that state is the new baseline, and the tick reports a change exactly when the
  state differs from the last broadcast.
\<close>

theorem broadcast_patch_in_sync:
  fixes ctx :: "('s, 'i, 'h) RoomContext"
  assumes "state_slot ctx = Some slot" and "view_filter ctx = None" and "wf_slot slot"
    and "distinct (clients ctx)" and "\<forall>it \<in> set (after_patch ctx). neutral (item_bytes it)"
    and "broadcast_patch ctx = (changed, ctx')"
  shows "(\<forall>c \<in> set (clients ctx). is_joined (store ctx c) \<and> tx_open (store ctx c)
            \<and> replica (store ctx c) = Some (snapshot slot)
          \<longrightarrow> replica (store ctx' c) = Some (slot_full slot))
    \<and> map_option snapshot (state_slot ctx') = Some (slot_full slot)
    \<and> map_option slot_full (state_slot ctx') = Some (slot_full slot)
    \<and> (changed \<longleftrightarrow> slot_full slot \<noteq> snapshot slot)"
proof -
  obtain ctx1 where b: "broadcast_state ctx = (changed, ctx1)" and ctx': "ctx' = flush_after_patch ctx1"
    using assms(6) by (auto simp: broadcast_patch_def split: prod.splits)
  note shared = broadcast_state_shared [OF assms(1-4) b]
  have n: "neutral_change (ctx1\<lparr>after_patch := []\<rparr>) ctx'"
    using neutral_flush [of ctx1] assms(5) by (simp add: ctx' shared)
  have "replica (store ctx' c) = Some (slot_full slot)"
    if "c \<in> set (clients ctx)" "is_joined (store ctx c)" "tx_open (store ctx c)"
      "replica (store ctx c) = Some (snapshot slot)" for c
    using neutral_change_client(1) [OF n, of c] shared(5) [OF that] by simp
  moreover have "state_slot ctx' = Some (snd (slot_diff slot))"
    using neutral_change_ctx(2) [OF n] shared(2) by simp
  moreover have "slot_full (snd (slot_diff slot)) = slot_full slot"
    by (simp add: slot_full_def)
  ultimately show ?thesis
    using shared(1) by auto
qed

text \<open>A context to evaluate on: a room without clients, its state a JSON value.\<close>

definition sample_ctx :: "(json, unit, nat) RoomContext" where
  "sample_ctx =
     room_context_new ''r'' ''game'' ''p'' driver_new presence_new [] [] None 0 0 (\<lambda>n. show_nat n) 0
       (\<lambda>_. client_new 0 [] []) 1"

theorem broadcast_patch_in_sync_witness:
  "let ctx = sample_ctx\<lparr>state_slot := Some (slot_mutate (\<lambda>_. jint 5) (slot_new (json_box (jint 0)))),
       clients := [0],
       store := (\<lambda>_. (client_new 0 ''c'' ''s'')\<lparr>client_state := Joined, tx := [Bytes (room_state (jint 0))]\<rparr>)\<rparr>
   in replica (store (snd (broadcast_patch ctx)) 0) = Some (jint 5)"
proof -
  let ?slot = "slot_mutate (\<lambda>_. jint 5) (slot_new (json_box (jint 0)))"
  let ?cl = "(client_new 0 ''c'' ''s'')\<lparr>client_state := Joined, tx := [Bytes (room_state (jint 0))]\<rparr>"
  let ?ctx = "sample_ctx\<lparr>state_slot := Some ?slot, clients := [0], store := (\<lambda>_. ?cl)\<rparr>"
  have "wf_slot ?slot" by (simp add: wf_slot_new)
  moreover have "snapshot ?slot = jint 0" "slot_full ?slot = jint 5"
    by (simp_all add: slot_new_def slot_mutate_def slot_full_def to_value_def json_box_def)
  moreover have "is_joined ?cl" "tx_open ?cl" "replica ?cl = Some (jint 0)"
    by (simp_all add: is_joined_def state_joined_def client_new_def replica_def)
  ultimately show ?thesis
    using broadcast_patch_in_sync [of ?ctx ?slot "fst (broadcast_patch ?ctx)" "snd (broadcast_patch ?ctx)"]
    by (simp add: sample_ctx_def room_context_new_def)
qed

section \<open>Patches of views\<close>

lemma view_step_frame:
  assumes "view_step f s c (ch, ctx) = (ch', ctx')"
  shows "clients ctx' = clients ctx" "after_patch ctx' = after_patch ctx" "state_slot ctx' = state_slot ctx"
    and "c' \<noteq> c \<Longrightarrow> store ctx' c' = store ctx c'"
    and "session_id (store ctx' c') = session_id (store ctx c')"
    and "sid \<noteq> session_id (store ctx c) \<Longrightarrow> map_of (view_snapshots ctx') sid = map_of (view_snapshots ctx) sid"
  using assms
  by (auto simp: view_step_def Let_def on_client_eq tap_log_def update_conv'
      split: if_splits option.splits)

lemma view_step_client:
  assumes "view_step f s c (ch, ctx) = (ch', ctx')"
    and "wf_json snap" and "wf_json (f s (store ctx c))"
    and "is_joined (store ctx c)" and "tx_open (store ctx c)"
    and "map_of (view_snapshots ctx) (session_id (store ctx c)) = Some snap"
    and "replica (store ctx c) = Some snap"
  shows "replica (store ctx' c) = Some (f s (store ctx c))"
    and "map_of (view_snapshots ctx') (session_id (store ctx c)) = Some (f s (store ctx c))"
proof -
  let ?v = "f s (store ctx c)"
  have "replica (store ctx' c) = Some ?v
      \<and> map_of (view_snapshots ctx') (session_id (store ctx c)) = Some ?v"
  proof (cases "snap = ?v")
    case True
    then show ?thesis
      using assms by (simp add: view_step_def Let_def split: if_splits)
  next
    case False
    then have ops: "diff snap ?v \<noteq> []"
      using diff_Nil_iff [OF assms(2,3)] by simp
    then show ?thesis
      using assms False apply_patch_diff [OF assms(2,3)]
      by (auto simp: view_step_def Let_def on_client_eq tap_log_def replica_raw_now update_conv')
  qed
  then show "replica (store ctx' c) = Some ?v"
    and "map_of (view_snapshots ctx') (session_id (store ctx c)) = Some ?v" by simp_all
qed

definition has_view :: "('s, 'i, 'h) RoomContext \<Rightarrow> cref \<Rightarrow> bool" where
  "has_view ctx c \<longleftrightarrow> is_joined (store ctx c) \<and> tx_open (store ctx c)
     \<and> (\<exists>v. wf_json v \<and> replica (store ctx c) = Some v
          \<and> map_of (view_snapshots ctx) (session_id (store ctx c)) = Some v)"

lemma view_steps:
  assumes "distinct cs" and "inj_on (\<lambda>c. session_id (store ctx c)) (set cs)"
    and "\<And>cl. wf_json (f s cl)" and "fold (view_step f s) cs (ch, ctx) = (ch', ctx')"
  shows "clients ctx' = clients ctx \<and> after_patch ctx' = after_patch ctx \<and> state_slot ctx' = state_slot ctx
    \<and> (\<forall>c. c \<notin> set cs \<longrightarrow> store ctx' c = store ctx c)
    \<and> (\<forall>sid. sid \<notin> (\<lambda>c. session_id (store ctx c)) ` set cs
          \<longrightarrow> map_of (view_snapshots ctx') sid = map_of (view_snapshots ctx) sid)
    \<and> (\<forall>c \<in> set cs. has_view ctx c \<longrightarrow>
          replica (store ctx' c) = Some (f s (store ctx c))
          \<and> map_of (view_snapshots ctx') (session_id (store ctx c)) = Some (f s (store ctx c)))"
  using assms
proof (induction cs arbitrary: ch ctx)
  case Nil
  then show ?case by simp
next
  case (Cons c cs)
  obtain ch1 ctx1 where step: "view_step f s c (ch, ctx) = (ch1, ctx1)"
    by (cases "view_step f s c (ch, ctx)")
  note frame = view_step_frame [OF step]
  have other: "session_id (store ctx c') \<noteq> session_id (store ctx c)" if "c' \<in> set cs" for c'
    using Cons.prems(1,2) that by (auto simp: inj_on_def)
  have same: "store ctx1 c' = store ctx c'" if "c' \<in> set cs" for c'
    using frame(4) [of c'] that Cons.prems(1) by (cases "c' = c") auto
  have "(\<lambda>c. session_id (store ctx1 c)) ` set cs = (\<lambda>c. session_id (store ctx c)) ` set cs"
    by (simp add: frame(5))
  moreover have "inj_on (\<lambda>c. session_id (store ctx1 c)) (set cs)"
    using Cons.prems(2) by (simp add: frame(5))
  moreover have "fold (view_step f s) cs (ch1, ctx1) = (ch', ctx')"
    using Cons.prems(4) by (simp add: step)
  ultimately have IH: "clients ctx' = clients ctx1 \<and> after_patch ctx' = after_patch ctx1
      \<and> state_slot ctx' = state_slot ctx1
      \<and> (\<forall>c. c \<notin> set cs \<longrightarrow> store ctx' c = store ctx1 c)
      \<and> (\<forall>sid. sid \<notin> (\<lambda>c. session_id (store ctx c)) ` set cs
            \<longrightarrow> map_of (view_snapshots ctx') sid = map_of (view_snapshots ctx1) sid)
      \<and> (\<forall>c \<in> set cs. has_view ctx1 c \<longrightarrow>
            replica (store ctx' c) = Some (f s (store ctx1 c))
            \<and> map_of (view_snapshots ctx') (session_id (store ctx1 c)) = Some (f s (store ctx1 c)))"
    using Cons.IH [of ctx1 ch1] Cons.prems(1,3) by simp
  have view1: "has_view ctx1 c' \<longleftrightarrow> has_view ctx c'" if "c' \<in> set cs" for c'
    using that other [OF that] same [OF that] frame(6) by (simp add: has_view_def)
  have head: "replica (store ctx' c) = Some (f s (store ctx c))
      \<and> map_of (view_snapshots ctx') (session_id (store ctx c)) = Some (f s (store ctx c))"
    if "has_view ctx c"
  proof -
    from that obtain v where "wf_json v" "is_joined (store ctx c)" "tx_open (store ctx c)"
      "replica (store ctx c) = Some v"
      "map_of (view_snapshots ctx) (session_id (store ctx c)) = Some v"
      by (auto simp: has_view_def)
    note view_step_client [OF step this(1) Cons.prems(3) this(2,3,5,4)]
    moreover have "c \<notin> set cs" using Cons.prems(1) by simp
    moreover have "session_id (store ctx c) \<notin> (\<lambda>c. session_id (store ctx c)) ` set cs"
    proof
      assume "session_id (store ctx c) \<in> (\<lambda>c. session_id (store ctx c)) ` set cs"
      then obtain c' where "c' \<in> set cs" "session_id (store ctx c) = session_id (store ctx c')" by blast
      then show False using other [of c'] by simp
    qed
    ultimately show ?thesis using IH by auto
  qed
  have tail: "replica (store ctx' c') = Some (f s (store ctx c'))
      \<and> map_of (view_snapshots ctx') (session_id (store ctx c')) = Some (f s (store ctx c'))"
    if "c' \<in> set cs" "has_view ctx c'" for c'
  proof -
    have "has_view ctx1 c'" using view1 that by simp
    then have "replica (store ctx' c') = Some (f s (store ctx1 c'))
        \<and> map_of (view_snapshots ctx') (session_id (store ctx1 c')) = Some (f s (store ctx1 c'))"
      using IH that(1) by blast
    then show ?thesis by (simp only: same [OF that(1)])
  qed
  show ?case
  proof (intro conjI allI ballI impI)
    fix c' assume "c' \<notin> set (c # cs)"
    then show "store ctx' c' = store ctx c'" using IH frame(4) [of c'] by simp
  next
    fix sid assume "sid \<notin> (\<lambda>c. session_id (store ctx c)) ` set (c # cs)"
    then show "map_of (view_snapshots ctx') sid = map_of (view_snapshots ctx) sid"
      using IH frame(6) [of sid] by simp
  next
    fix c' assume "c' \<in> set (c # cs)" "has_view ctx c'"
    then show "replica (store ctx' c') = Some (f s (store ctx c'))"
      and "map_of (view_snapshots ctx') (session_id (store ctx c')) = Some (f s (store ctx c'))"
      using head tail by auto
  qed (use IH frame in simp_all)
qed

text \<open>
  C6. With a view filter every client follows its own projection: after the tick a
  joined client whose replica was the view it was last sent holds the filter's value on
  the current state, and that value is the baseline of its next patch.
\<close>

theorem broadcast_patch_views_in_sync:
  fixes ctx :: "('s, 'i, 'h) RoomContext"
  assumes "state_slot ctx = Some slot" and "view_filter ctx = Some f" and "\<And>cl. wf_json (f (slot_get slot) cl)"
    and "distinct (clients ctx)" and "inj_on (\<lambda>c. session_id (store ctx c)) (set (clients ctx))"
    and "\<forall>it \<in> set (after_patch ctx). neutral (item_bytes it)"
    and "broadcast_patch ctx = (changed, ctx')"
    and "c \<in> set (clients ctx)" and "has_view ctx c"
  shows "replica (store ctx' c) = Some (f (slot_get slot) (store ctx c))
    \<and> map_of (view_snapshots ctx') (session_id (store ctx c)) = Some (f (slot_get slot) (store ctx c))"
proof -
  obtain ctx1 where b: "fold (view_step f (slot_get slot)) (clients ctx) (False, ctx) = (changed, ctx1)"
    and ctx': "ctx' = flush_after_patch ctx1"
    using assms(1,2,7) by (auto simp: broadcast_patch_def broadcast_state_def split: prod.splits)
  note steps = view_steps [OF assms(4,5,3) b]
  have n: "neutral_change (ctx1\<lparr>after_patch := []\<rparr>) ctx'"
    using neutral_flush [of ctx1] assms(6) steps by (simp add: ctx')
  show ?thesis
    using steps assms(8,9) neutral_change_client(1) [OF n, of c] neutral_change_ctx(4) [OF n] by simp
qed

theorem broadcast_patch_views_in_sync_witness:
  "let view = (\<lambda>(s :: json) cl. JObj [(''me'', JStr (session_id cl))]);
       ctx = sample_ctx\<lparr>state_slot := Some (slot_new (json_box (jint 0))), view_filter := Some view,
         view_snapshots := [(''s'', jint 0)], clients := [0],
         store := (\<lambda>_. (client_new 0 ''c'' ''s'')\<lparr>client_state := Joined, tx := [Bytes (room_state (jint 0))]\<rparr>)\<rparr>
   in replica (store (snd (broadcast_patch ctx)) 0) = Some (JObj [(''me'', JStr ''s'')])"
proof -
  let ?view = "\<lambda>(s :: json) cl. JObj [(''me'', JStr (session_id cl))]"
  let ?cl = "(client_new 0 ''c'' ''s'')\<lparr>client_state := Joined, tx := [Bytes (room_state (jint 0))]\<rparr>"
  let ?slot = "slot_new (json_box (jint 0))"
  let ?ctx = "sample_ctx\<lparr>state_slot := Some ?slot, view_filter := Some ?view,
         view_snapshots := [(''s'', jint 0)], clients := [0], store := (\<lambda>_. ?cl)\<rparr>"
  have wf: "wf_json (?view s cl)" for s and cl :: client
    by (simp add: wf_obj_def sorted_map_def)
  have "is_joined ?cl" "tx_open ?cl" "replica ?cl = Some (jint 0)" and sid: "session_id ?cl = ''s''"
    by (simp_all add: is_joined_def state_joined_def client_new_def replica_def)
  then have "has_view ?ctx 0"
    by (simp add: has_view_def)
  moreover have "after_patch ?ctx = []"
    by (simp add: sample_ctx_def room_context_new_def)
  ultimately show ?thesis
    using broadcast_patch_views_in_sync [of ?ctx ?slot ?view "fst (broadcast_patch ?ctx)"
        "snd (broadcast_patch ?ctx)" 0] wf sid
    by simp
qed

section \<open>A client that joins between two ticks\<close>

lemma replica_flush_pending:
  assumes "\<forall>f \<in> set (pending cl). neutral f"
  shows "replica (flush_pending cl) = replica cl"
proof -
  have "fold sees (map Bytes fs) r = r" if "\<forall>f \<in> set fs. neutral f" for fs r
    using that by (induction fs arbitrary: r) (simp_all add: neutral_def)
  then show ?thesis using assms by (simp add: flush_pending_eq replica_def)
qed

lemma replica_hello [simp]: "replica (hello t st ctx cl) = replica cl"
  by (simp add: hello_def)

text \<open>The hello of a joining client carries the state as the client may see it.\<close>

lemma replica_send_welcome:
  assumes "tx_open (store ctx c)" and "\<forall>f \<in> set (pending (store ctx c)). neutral f"
    and "state_slot ctx = Some slot"
  shows "replica (store (send_welcome k c st ctx) c) =
    Some (case view_filter ctx of
      Some f \<Rightarrow> f (slot_get slot) (hello (gen ctx (gen_next ctx)) st ctx (store ctx c))
    | None \<Rightarrow> slot_full slot)"
  using assms by (simp add: send_welcome_store Let_def replica_flush_pending replica_raw_now)

lemma flush_after_patch_Nil: "after_patch ctx = [] \<Longrightarrow> flush_after_patch ctx = ctx\<lparr>after_patch := []\<rparr>"
  by (simp add: flush_after_patch_def)

lemma broadcast_patch_one:
  fixes ctx :: "('s, 'i, 'h) RoomContext"
  assumes "state_slot ctx = Some slot" and "view_filter ctx = None" and "after_patch ctx = []"
    and "clients ctx = [c]" and "is_joined (store ctx c)" and "tx_open (store ctx c)"
    and "slot_diff slot = (Some (JArr ops), slot')"
  shows "replica (store (snd (broadcast_patch ctx)) c) = Option.bind (replica (store ctx c)) (apply_patch ops)"
    and "state_slot (snd (broadcast_patch ctx)) = Some slot'"
  using assms
  by (simp_all add: broadcast_patch_def broadcast_state_def Let_def flush_after_patch_Nil
      each_client_def on_client_def tap_log_def replica_raw_now)

text \<open>
  C33. A client that joins after the state changed but before the tick is given the
  current state, and then the patch from the last broadcast to it: here the state goes from
  [] to [1] between two ticks, the client joins, and after the tick its replica is [1, 1]
  while the state of the room is [1].
\<close>

theorem join_between_ticks_diverges:
  "let ctx0 = sample_ctx\<lparr>state_slot := Some (slot_new (json_box (JArr []))),
         reserved_seats := [(''s'', \<lparr>seat_options = JNull, seat_auth = None, consumed = False,
           waiting_reconnection = False, seat_expires_at = 9\<rparr>)],
         store := (\<lambda>_. client_new 0 ''c'' ''s'')\<rparr>;
       ctx1 = state_mut (\<lambda>_. JArr [jint 1]) ctx0;
       (res, (_, ctx2)) = on_connect default_hooks 0 None ((), ctx1);
       (changed, ctx3) = broadcast_patch ctx2
   in res = Inr () \<and> replica (store ctx2 0) = Some (JArr [jint 1])
      \<and> map_option slot_full (state_slot ctx3) = Some (JArr [jint 1])
      \<and> replica (store ctx3 0) = Some (JArr [jint 1, jint 1])"
proof -
  have d: "diff (JArr []) (JArr [jint 1]) = [diff_op ''add'' ''/0'' (Some (jint 1))]"
    by (simp add: diff_def diff_value.simps diff_array.simps LCS_MAX_CELLS_def diff_array_lcs_def
        lcs_walk.simps child_path_def show_nat.simps digit_char_def char_of_def bit_iff_odd)
  have p: "apply_patch [diff_op ''add'' ''/0'' (Some (jint 1))] (JArr [jint 1]) = Some (JArr [jint 1, jint 1])"
    by (simp add: decode_op_def diff_op_def Let_def parse_pointer_def apply_op.simps parse_index_def
        all_digits_def is_digit_def digits_val_def digit_val_def insert_at_def)
  let ?slot = "slot_mutate (\<lambda>_. JArr [jint 1]) (slot_new (json_box (JArr [])))"
  let ?seat = "\<lparr>seat_options = JNull, seat_auth = None, consumed = False,
           waiting_reconnection = False, seat_expires_at = 9\<rparr>"
  define ctx1 where "ctx1 = state_mut (\<lambda>_. JArr [jint 1])
    (sample_ctx\<lparr>state_slot := Some (slot_new (json_box (JArr []))), reserved_seats := [(''s'', ?seat)],
       store := (\<lambda>_. client_new 0 ''c'' ''s'')\<rparr>)"
  have ctx1: "state_slot ctx1 = Some ?slot" "view_filter ctx1 = None" "after_patch ctx1 = []"
    "clients ctx1 = []" "store ctx1 0 = client_new 0 ''c'' ''s''" "reserved_seats ctx1 = [(''s'', ?seat)]"
    by (simp_all add: ctx1_def state_mut_def sample_ctx_def room_context_new_def)
  define rm where "rm = on_ctx (on_client 0 (\<lambda>cl. attach_tap (attach_after_patch cl))) ((), ctx1)"
  have seat: "map_of (reserved_seats (snd rm)) (session_id (store (snd rm) 0)) = Some ?seat"
    and sid: "session_id (store (snd rm) 0) = ''s''"
    and rm: "state_slot (snd rm) = Some ?slot" "view_filter (snd rm) = None" "after_patch (snd rm) = []"
      "clients (snd rm) = []" "fst rm = ()"
      "store (snd rm) 0 = attach_tap (attach_after_patch (client_new 0 ''c'' ''s''))"
    by (simp_all add: rm_def ctx1 client_new_def client_op_defs)
  define ctx3 where "ctx3 = joining 0 ?seat (snd rm)"
  define ctx4 where "ctx4 = ctx3\<lparr>reserved_seats := AList.delete ''s'' (reserved_seats ctx3), had_clients := True\<rparr>"
  have ctx4: "state_slot ctx4 = Some ?slot" "view_filter ctx4 = None" "after_patch ctx4 = []" "clients ctx4 = [0]"
    by (simp_all add: ctx4_def ctx3_def joining_def Let_def rm)
  have cl: "replica (store ctx4 0) = None" "tx_open (store ctx4 0)" "pending (store ctx4 0) = []"
    by (simp_all add: ctx4_def ctx3_def rm client_new_def client_op_defs replica_def)
  define ctx2 where "ctx2 = send_welcome ''join'' 0 Joined ctx4"
  have "on_connect default_hooks 0 None ((), ctx1) = join default_hooks 0 rm"
    by (simp add: on_connect_def rm_def)
  also have "\<dots> = (Inr (), ((), ctx2))"
    using join_run [OF seat, of default_hooks "Inr ()" "()" ctx3] sid
    by (simp add: default_hooks_def rm ctx2_def ctx4_def ctx3_def client_op_defs)
  finally have conn: "on_connect default_hooks 0 None ((), ctx1) = (Inr (), ((), ctx2))" .
  have slot: "slot_full ?slot = JArr [jint 1]" "snapshot ?slot = JArr []"
    by (simp_all add: slot_new_def slot_mutate_def slot_full_def to_value_def json_box_def)
  have ctx2: "state_slot ctx2 = Some ?slot" "view_filter ctx2 = None" "after_patch ctx2 = []"
    "clients ctx2 = [0]" "is_joined (store ctx2 0)" "tx_open (store ctx2 0)"
    using ctx4 cl by (simp_all add: ctx2_def is_joined_def state_joined_def)
  have r2: "replica (store ctx2 0) = Some (JArr [jint 1])"
    using replica_send_welcome [of ctx4 0 ?slot] cl ctx4(1,2) slot by (simp add: ctx2_def)
  obtain slot' where sd: "slot_diff ?slot = (Some (JArr [diff_op ''add'' ''/0'' (Some (jint 1))]), slot')"
    and full: "slot_full slot' = JArr [jint 1]"
  proof
    show "slot_diff ?slot = (Some (JArr [diff_op ''add'' ''/0'' (Some (jint 1))]), snd (slot_diff ?slot))"
      using slot d by (simp add: slot_diff_def Let_def slot_full_def)
    show "slot_full (snd (slot_diff ?slot)) = JArr [jint 1]"
      using slot by (simp add: slot_full_def)
  qed
  note after = broadcast_patch_one [OF ctx2 sd]
  obtain changed ctx3' where bp: "broadcast_patch ctx2 = (changed, ctx3')" by (cases "broadcast_patch ctx2")
  have "replica (store ctx3' 0) = Some (JArr [jint 1, jint 1])" "state_slot ctx3' = Some slot'"
    using after r2 p by (simp_all add: bp)
  then show ?thesis
    using r2 full bp by (simp add: ctx1_def [symmetric] conn)
qed

end
