(* ===== verification/Room_Api.thy ===== *)
theory Room_Api
  imports Sync
begin

text \<open>
  What the code of a room may do to its context: the public operations of
  \<^verbatim>\<open>RoomContext\<close> and of the client handles (\<^verbatim>\<open>room.rs\<close> and
  \<^verbatim>\<open>client.rs\<close>, the functions marked \<^verbatim>\<open>pub\<close>), as a step
  relation. A room type is a record of hooks that only use those operations, which is the
  locale \<open>room_type\<close>; every other field of the context is private to the crate. The
  invariant \<open>ctx_ok\<close> of a context is shown to survive every such step.
\<close>

section \<open>The public operations\<close>

text \<open>The operations of a client handle.\<close>

inductive client_api :: "client \<Rightarrow> client \<Rightarrow> bool" where
  api_error: "client_api cl (client_error code msg cl)"
| api_leave: "client_api cl (client_leave code_opt reason cl)"
| api_user_data: "client_api cl (set_user_data v cl)"

text \<open>
  The operations that neither admit anybody nor change the limit. A serializer yields
  well-formed JSON values.
\<close>

inductive quiet_step :: "('s, 'i, 'h) RoomContext \<Rightarrow> ('s, 'i, 'h) RoomContext \<Rightarrow> bool" where
  q_clock: "quiet_step ctx (ctx\<lparr>clock := ck\<rparr>)"
| q_auto_dispose: "quiet_step ctx (ctx\<lparr>auto_dispose := b\<rparr>)"
| q_rate: "quiet_step ctx (ctx\<lparr>max_messages_per_second := r\<rparr>)"
| q_seat_timeout: "quiet_step ctx (ctx\<lparr>seat_reservation_timeout := d\<rparr>)"
| q_set_state: "wf_ser st \<Longrightarrow> quiet_step ctx (set_state st ctx)"
| q_state_mut: "quiet_step ctx (state_mut f ctx)"
| q_set_internal: "quiet_step ctx (set_internal it ctx)"
| q_internal_mut: "quiet_step ctx (internal_mut g ctx)"
| q_clear_internal: "quiet_step ctx (clear_internal ctx)"
| q_disable_persistence: "quiet_step ctx (disable_persistence ctx)"
| q_persist_now: "quiet_step ctx (persist_now ctx)"
| q_restore_state: "(\<And>v. wf_ser \<lparr>erased_value = v, erased_ser = ser, erased_de = de\<rparr>)
    \<Longrightarrow> quiet_step ctx (snd (restore_state ser de snap ctx))"
| q_restore_internal: "quiet_step ctx (snd (restore_internal iser ide snap ctx))"
| q_set_view_filter: "quiet_step ctx (set_view_filter vf ctx)"
| q_clear_view_filter: "quiet_step ctx (clear_view_filter ctx)"
| q_broadcast: "quiet_step ctx (broadcast_with_options t p opts ctx)"
| q_broadcast_bytes: "quiet_step ctx (broadcast_bytes t bs ctx)"
| q_on_message: "quiet_step ctx (on_message t h ctx)"
| q_on_any_message: "quiet_step ctx (on_any_message h ctx)"
| q_on_message_bytes: "quiet_step ctx (on_message_bytes t h ctx)"
| q_set_timeout: "quiet_step ctx (snd (set_timeout d h ctx))"
| q_clear_timeout: "quiet_step ctx (snd (clear_timeout i ctx))"
| q_simulation: "quiet_step ctx (set_simulation_interval iv ctx)"
| q_patch_rate: "quiet_step ctx (set_patch_rate iv ctx)"
| q_lock: "quiet_step ctx (room_lock ctx)"
| q_unlock: "quiet_step ctx (room_unlock ctx)"
| q_private: "quiet_step ctx (set_private b ctx)"
| q_metadata: "quiet_step ctx (set_metadata v ctx)"
| q_remove_client: "quiet_step ctx (remove_client sid ctx)"
| q_disconnect: "quiet_step ctx (disconnect code ctx)"
| q_broadcast_patch: "quiet_step ctx (snd (broadcast_patch ctx))"
| q_sender: "quiet_step ctx (sender_send h ctx)"
| q_presence: "quiet_step ctx (ctx\<lparr>presence := ps\<rparr>)"
| q_generate_id: "quiet_step ctx (snd (generate_id ctx))"
| q_send: "quiet_step ctx (client_send c t v so ctx)"
| q_send_bytes: "quiet_step ctx (client_send_bytes c t bs ctx)"
| q_client: "client_api (store ctx c) cl' \<Longrightarrow> quiet_step ctx (ctx\<lparr>store := (store ctx)(c := cl')\<rparr>)"

inductive api_step :: "('s, 'i, 'h) RoomContext \<Rightarrow> ('s, 'i, 'h) RoomContext \<Rightarrow> bool" where
  a_quiet: "quiet_step ctx ctx' \<Longrightarrow> api_step ctx ctx'"
| a_max_clients: "api_step ctx (set_max_clients m ctx)"
| a_allow: "c < next_ref ctx \<Longrightarrow> api_step ctx (snd (allow_reconnection c d ctx))"

definition api :: "('s, 'i, 'h) RoomContext \<Rightarrow> ('s, 'i, 'h) RoomContext \<Rightarrow> bool" where
  "api = api_step\<^sup>*\<^sup>*"

definition quiet_api :: "('s, 'i, 'h) RoomContext \<Rightarrow> ('s, 'i, 'h) RoomContext \<Rightarrow> bool" where
  "quiet_api = quiet_step\<^sup>*\<^sup>*"

lemma api_refl [simp, intro]: "api ctx ctx" "quiet_api ctx ctx"
  by (simp_all add: api_def quiet_api_def)

lemma api_trans: "api a b \<Longrightarrow> api b c \<Longrightarrow> api a c"
  by (simp add: api_def)

lemma quiet_api_trans: "quiet_api a b \<Longrightarrow> quiet_api b c \<Longrightarrow> quiet_api a c"
  by (simp add: quiet_api_def)

lemma api_stepI: "api_step a b \<Longrightarrow> api a b"
  by (simp add: api_def)

lemma quiet_apiI: "quiet_step a b \<Longrightarrow> quiet_api a b"
  by (simp add: quiet_api_def)

lemma quiet_api_api: "quiet_api a b \<Longrightarrow> api a b"
  unfolding quiet_api_def api_def
  by (rule rtranclp_mono [THEN predicate2D]) (auto intro: a_quiet)


section \<open>Traffic\<close>

text \<open>Operations that only send: the clients' channels, the queue, the tap, the baselines.\<close>

definition traffic :: "('s, 'i, 'h) RoomContext \<Rightarrow> ('s, 'i, 'h) RoomContext \<Rightarrow> bool" where
  "traffic ctx ctx' \<longleftrightarrow>
     ctx' = ctx\<lparr>state_slot := state_slot ctx', view_snapshots := view_snapshots ctx',
              after_patch := after_patch ctx', tap := tap ctx', store := store ctx'\<rparr>"

lemma traffic_refl [simp, intro]: "traffic ctx ctx"
  by (simp add: traffic_def)

lemma traffic_updates [simp]:
  "traffic ctx (ctx\<lparr>store := st\<rparr>)" "traffic ctx (ctx\<lparr>tap := tp\<rparr>)" "traffic ctx (ctx\<lparr>after_patch := q\<rparr>)"
  "traffic ctx (ctx\<lparr>view_snapshots := vs\<rparr>)" "traffic ctx (ctx\<lparr>state_slot := sl\<rparr>)"
  by (simp_all add: traffic_def)

lemma traffic_trans: "traffic a b \<Longrightarrow> traffic b c \<Longrightarrow> traffic a c"
proof -
  assume "traffic a b" and "traffic b c"
  then have b: "b = a\<lparr>state_slot := state_slot b, view_snapshots := view_snapshots b,
              after_patch := after_patch b, tap := tap b, store := store b\<rparr>"
    and c: "c = b\<lparr>state_slot := state_slot c, view_snapshots := view_snapshots c,
              after_patch := after_patch c, tap := tap c, store := store c\<rparr>"
    by (simp_all add: traffic_def)
  have "c = a\<lparr>state_slot := state_slot b, view_snapshots := view_snapshots b,
              after_patch := after_patch b, tap := tap b, store := store b,
              state_slot := state_slot c, view_snapshots := view_snapshots c,
              after_patch := after_patch c, tap := tap c, store := store c\<rparr>"
    using b c by (rule subst)
  then show "traffic a c" by (simp add: traffic_def)
qed

lemma traffic_on_client [simp]: "traffic ctx (on_client c f ctx)"
  by (simp add: on_client_def)

lemma traffic_tap_log [simp]: "traffic ctx (tap_log e ctx)"
  by (simp add: tap_log_def)

lemma traffic_fold:
  assumes "\<And>x ctx. traffic ctx (f x ctx)"
  shows "traffic ctx (fold f xs ctx)"
proof (induction xs arbitrary: ctx)
  case (Cons x xs)
  show ?case using traffic_trans [OF assms Cons.IH] by simp
qed simp

lemma traffic_each_client [simp]: "traffic ctx (each_client p f cs ctx)"
  unfolding each_client_def by (rule traffic_fold) simp

lemma traffic_deliver_item [simp]: "traffic ctx (deliver_item it ctx)"
  by (simp add: deliver_item_def split: AfterPatchTarget.split option.split)

lemma traffic_flush [simp]: "traffic ctx (flush_after_patch ctx)"
  unfolding flush_after_patch_def
  by (rule traffic_trans [OF _ traffic_fold]) simp_all

lemma traffic_view_step: "traffic ctx (snd (view_step f s c (ch, ctx)))"
proof -
  have "traffic ctx (on_client c g (tap_log e (ctx\<lparr>view_snapshots := vs\<rparr>)))" for g e vs
    by (rule traffic_trans [OF traffic_trans [OF traffic_updates(4) traffic_tap_log] traffic_on_client])
  then show ?thesis by (simp add: view_step_def Let_def split: option.split)
qed

lemma traffic_view_steps: "traffic ctx (snd (fold (view_step f s) cs (ch, ctx)))"
proof (induction cs arbitrary: ch ctx)
  case (Cons c cs)
  show ?case
    using traffic_trans [OF traffic_view_step [of ctx f s c ch] Cons.IH]
    by (cases "view_step f s c (ch, ctx)") auto
qed simp

lemma traffic_shared_patch: "traffic ctx (each_client p g cs (tap_log e (ctx\<lparr>state_slot := sl\<rparr>)))"
  by (rule traffic_trans [OF traffic_trans [OF traffic_updates(5) traffic_tap_log] traffic_each_client])

lemma traffic_broadcast_state [simp]: "traffic ctx (snd (broadcast_state ctx))"
  by (simp add: broadcast_state_def Let_def traffic_view_steps traffic_shared_patch split: option.split prod.split)

lemma snd_broadcast_patch: "snd (broadcast_patch ctx) = flush_after_patch (snd (broadcast_state ctx))"
  by (simp add: broadcast_patch_def split: prod.split)

lemma traffic_broadcast_patch [simp]: "traffic ctx (snd (broadcast_patch ctx))"
  unfolding snd_broadcast_patch by (rule traffic_trans [OF traffic_broadcast_state traffic_flush])

lemma traffic_broadcast [simp]:
  "traffic ctx (broadcast_with_options t p opts ctx)" "traffic ctx (broadcast_bytes t bs ctx)"
proof -
  have "traffic ctx (each_client q f cs (tap_log e ctx))" for q f cs e
    by (rule traffic_trans [OF traffic_tap_log traffic_each_client])
  moreover have "traffic ctx (tap_log e ctx\<lparr>after_patch := q\<rparr>)" for e q
    by (rule traffic_trans [OF traffic_tap_log traffic_updates(3)])
  ultimately show "traffic ctx (broadcast_with_options t p opts ctx)" "traffic ctx (broadcast_bytes t bs ctx)"
    by (simp_all add: broadcast_with_options_def broadcast_bytes_def Let_def)
qed

text \<open>What traffic leaves alone.\<close>

lemma traffic_frame:
  assumes "traffic ctx ctx'"
  shows "room_id ctx' = room_id ctx" "clients ctx' = clients ctx" "reserved_seats ctx' = reserved_seats ctx"
    "reconnections ctx' = reconnections ctx" "message_handlers ctx' = message_handlers ctx"
    "bytes_handlers ctx' = bytes_handlers ctx" "timers ctx' = timers ctx"
    "next_timer_id ctx' = next_timer_id ctx" "driver ctx' = driver ctx" "sender ctx' = sender ctx"
    "next_ref ctx' = next_ref ctx" "max_clients ctx' = max_clients ctx" "locked ctx' = locked ctx"
    "disposing ctx' = disposing ctx" "had_clients ctx' = had_clients ctx" "now ctx' = now ctx"
    "wall ctx' = wall ctx" "request_dispose ctx' = request_dispose ctx" "auto_dispose ctx' = auto_dispose ctx"
    "seat_reservation_timeout ctx' = seat_reservation_timeout ctx" "persistence ctx' = persistence ctx"
proof -
  have e: "ctx' = ctx\<lparr>state_slot := state_slot ctx', view_snapshots := view_snapshots ctx',
              after_patch := after_patch ctx', tap := tap ctx', store := store ctx'\<rparr>"
    using assms by (simp only: traffic_def)
  show "room_id ctx' = room_id ctx" "clients ctx' = clients ctx" "reserved_seats ctx' = reserved_seats ctx"
    "reconnections ctx' = reconnections ctx" "message_handlers ctx' = message_handlers ctx"
    "bytes_handlers ctx' = bytes_handlers ctx" "timers ctx' = timers ctx"
    "next_timer_id ctx' = next_timer_id ctx" "driver ctx' = driver ctx" "sender ctx' = sender ctx"
    "next_ref ctx' = next_ref ctx" "max_clients ctx' = max_clients ctx" "locked ctx' = locked ctx"
    "disposing ctx' = disposing ctx" "had_clients ctx' = had_clients ctx" "now ctx' = now ctx"
    "wall ctx' = wall ctx" "request_dispose ctx' = request_dispose ctx" "auto_dispose ctx' = auto_dispose ctx"
    "seat_reservation_timeout ctx' = seat_reservation_timeout ctx" "persistence ctx' = persistence ctx"
    by (subst e, simp)+
qed

text \<open>Traffic keeps the baselines a map and the state slot well formed.\<close>

lemma view_snapshots_each_client [simp, frame_simps]: "view_snapshots (each_client p f cs ctx) = view_snapshots ctx"
  and state_slot_each_client [simp, frame_simps]: "state_slot (each_client p f cs ctx) = state_slot ctx"
proof -
  have "view_snapshots (each_client p f cs ctx) = view_snapshots ctx
      \<and> state_slot (each_client p f cs ctx) = state_slot ctx"
    by (induction cs arbitrary: ctx) (simp_all add: each_client_def on_client_def)
  then show "view_snapshots (each_client p f cs ctx) = view_snapshots ctx"
    "state_slot (each_client p f cs ctx) = state_slot ctx" by simp_all
qed

lemma fold_deliver_frame:
  "view_snapshots (fold deliver_item its ctx) = view_snapshots ctx
   \<and> state_slot (fold deliver_item its ctx) = state_slot ctx"
  by (induction its arbitrary: ctx)
    (simp_all add: deliver_item_def on_client_def split: AfterPatchTarget.split option.split)

lemma flush_frame [simp, frame_simps]:
  "view_snapshots (flush_after_patch ctx) = view_snapshots ctx"
  "state_slot (flush_after_patch ctx) = state_slot ctx"
  by (simp_all add: flush_after_patch_def fold_deliver_frame)

lemma view_steps_frame:
  "state_slot (snd (fold (view_step f s) cs (ch, ctx))) = state_slot ctx
   \<and> (distinct (map fst (view_snapshots ctx))
        \<longrightarrow> distinct (map fst (view_snapshots (snd (fold (view_step f s) cs (ch, ctx))))))"
proof (induction cs arbitrary: ch ctx)
  case (Cons c cs)
  obtain ch1 ctx1 where s: "view_step f s c (ch, ctx) = (ch1, ctx1)" by (cases "view_step f s c (ch, ctx)")
  have "state_slot ctx1 = state_slot ctx \<and> (distinct (map fst (view_snapshots ctx))
        \<longrightarrow> distinct (map fst (view_snapshots ctx1)))"
    using s by (auto simp: view_step_def Let_def on_client_def tap_log_def distinct_update
        split: if_splits option.splits)
  then show ?case using Cons.IH [of ch1 ctx1] s by simp
qed simp

lemma broadcast_state_snapshots:
  assumes "distinct (map fst (view_snapshots ctx))"
  shows "distinct (map fst (view_snapshots (snd (broadcast_state ctx))))"
  using assms
  by (simp add: broadcast_state_def Let_def tap_log_def view_steps_frame split: option.split prod.split)

lemma broadcast_state_slot:
  assumes "\<And>slot. state_slot ctx = Some slot \<Longrightarrow> wf_slot slot"
    and "state_slot (snd (broadcast_state ctx)) = Some slot'"
  shows "wf_slot slot'"
proof (cases "state_slot ctx")
  case None
  then show ?thesis using assms by (simp add: broadcast_state_def)
next
  case (Some slot)
  then have "slot' = slot \<or> slot' = snd (slot_diff slot)"
    using assms(2)
    by (auto simp: broadcast_state_def Let_def tap_log_def view_steps_frame split: option.splits prod.splits)
  then show ?thesis using assms(1) [OF Some] wf_slot_diff by auto
qed

lemma broadcast_patch_slots:
  "distinct (map fst (view_snapshots ctx)) \<Longrightarrow> distinct (map fst (view_snapshots (snd (broadcast_patch ctx))))"
  "(\<And>slot. state_slot ctx = Some slot \<Longrightarrow> wf_slot slot)
     \<Longrightarrow> state_slot (snd (broadcast_patch ctx)) = Some slot' \<Longrightarrow> wf_slot slot'"
  unfolding snd_broadcast_patch using broadcast_state_snapshots broadcast_state_slot by simp_all blast+

end
