(* ===== verification/Room_Inv.thy ===== *)
theory Room_Inv
  imports Room_Api
begin

text \<open>
  The invariant of a room: the maps of the context have distinct keys, the state slot and
  the driver are well formed, timer ids are unique, and the client handles of the room, of
  its reconnection entries and of the sockets that are still connecting are distinct live
  handles. Every public operation and every step of the actor keeps it, and so it holds in
  every state that a room reaches, whatever its hooks do through the public operations.
\<close>

section \<open>The invariant of a context\<close>

fun connect_ref :: "'h RoomEvent \<Rightarrow> cref option" where
  "connect_ref (Connect c token) = Some c"
| "connect_ref _ = None"

definition connecting :: "('s, 'i, 'h) RoomContext \<Rightarrow> cref list" where
  "connecting ctx = (case sender ctx of None \<Rightarrow> [] | Some q \<Rightarrow> List.map_filter connect_ref q)"

text \<open>All the handles that the events of the mailbox carry.\<close>

fun event_ref :: "'h RoomEvent \<Rightarrow> cref option" where
  "event_ref (Connect c token) = Some c"
| "event_ref (Message c msg) = Some c"
| "event_ref (Disconnected c code) = Some c"
| "event_ref _ = None"

definition mail_refs :: "('s, 'i, 'h) RoomContext \<Rightarrow> cref list" where
  "mail_refs ctx = (case sender ctx of None \<Rightarrow> [] | Some q \<Rightarrow> List.map_filter event_ref q)"

definition maps_ok :: "('s, 'i, 'h) RoomContext \<Rightarrow> bool" where
  "maps_ok ctx \<longleftrightarrow>
     distinct (map fst (reserved_seats ctx)) \<and> distinct (map fst (reconnections ctx))
     \<and> distinct (map fst (view_snapshots ctx)) \<and> distinct (map fst (message_handlers ctx))
     \<and> distinct (map fst (bytes_handlers ctx))"

definition slot_ok :: "('s, 'i, 'h) RoomContext \<Rightarrow> bool" where
  "slot_ok ctx \<longleftrightarrow> (\<forall>slot. state_slot ctx = Some slot \<longrightarrow> wf_slot slot)"

definition timers_ok :: "('s, 'i, 'h) RoomContext \<Rightarrow> bool" where
  "timers_ok ctx \<longleftrightarrow> distinct (map timer_id (timers ctx)) \<and> (\<forall>t \<in> set (timers ctx). timer_id t \<le> next_timer_id ctx)"

definition refs_ok :: "('s, 'i, 'h) RoomContext \<Rightarrow> bool" where
  "refs_ok ctx \<longleftrightarrow> distinct (clients ctx @ connecting ctx)
     \<and> (\<forall>c \<in> set (clients ctx @ connecting ctx). c < next_ref ctx)
     \<and> (\<forall>(token, e) \<in> set (reconnections ctx). re_client e < next_ref ctx)"

definition ctx_ok :: "('s, 'i, 'h) RoomContext \<Rightarrow> bool" where
  "ctx_ok ctx \<longleftrightarrow> maps_ok ctx \<and> slot_ok ctx \<and> timers_ok ctx \<and> refs_ok ctx \<and> driver_inv (driver ctx)"

lemmas ctx_ok_defs = ctx_ok_def maps_ok_def slot_ok_def timers_ok_def refs_ok_def

lemma fst_set_delete_filter: "distinct (map fst m) \<Longrightarrow> distinct (map fst (filter P m))"
  by (rule distinct_map_filter)

text \<open>The mailbox only grows, by commands of the room to itself, while a handler runs.\<close>

definition queued :: "'h RoomEvent list option \<Rightarrow> 'h RoomEvent list option \<Rightarrow> bool" where
  "queued q q' \<longleftrightarrow> (\<exists>cs. q' = map_option (\<lambda>es. es @ map Command cs) q)"

lemma queued_refl [simp]: "queued q q"
  unfolding queued_def by (rule exI [of _ "[]"]) (simp add: option.map_ident)

lemma queued_trans: "queued q q' \<Longrightarrow> queued q' q'' \<Longrightarrow> queued q q''"
proof -
  assume "queued q q'" "queued q' q''"
  then obtain cs cs' where "q' = map_option (\<lambda>es. es @ map Command cs) q" "q'' = map_option (\<lambda>es. es @ map Command cs') q'"
    by (auto simp: queued_def)
  then have "q'' = map_option (\<lambda>es. es @ map Command (cs @ cs')) q"
    by (simp add: option.map_comp comp_def)
  then show ?thesis unfolding queued_def by blast
qed

lemma queued_send [simp]: "queued (sender ctx) (sender (sender_send h ctx))"
  unfolding queued_def sender_send_def by (rule exI [of _ "[h]"]) simp

lemma queued_Some: "queued (Some es) q' \<Longrightarrow> \<exists>cs. q' = Some (es @ map Command cs)"
  by (simp add: queued_def)

section \<open>Every operation keeps it\<close>

lemma ctx_ok_traffic:
  assumes "traffic ctx ctx'" and "ctx_ok ctx"
    and "distinct (map fst (view_snapshots ctx'))"
    and "\<And>slot. state_slot ctx' = Some slot \<Longrightarrow> wf_slot slot"
  shows "ctx_ok ctx'"
  using assms(2-4) traffic_frame [OF assms(1)]
  by (simp add: ctx_ok_defs connecting_def)

lemma ctx_ok_store [simp]: "ctx_ok (ctx\<lparr>store := st\<rparr>) \<longleftrightarrow> ctx_ok ctx"
  and ctx_ok_tap [simp]: "ctx_ok (ctx\<lparr>tap := tp\<rparr>) \<longleftrightarrow> ctx_ok ctx"
  and ctx_ok_after_patch [simp]: "ctx_ok (ctx\<lparr>after_patch := q\<rparr>) \<longleftrightarrow> ctx_ok ctx"
  by (simp_all add: ctx_ok_defs connecting_def)

lemma ctx_ok_lobby [simp]: "ctx_ok (ctx\<lparr>lobby_tx := l\<rparr>) \<longleftrightarrow> ctx_ok ctx"
  and ctx_ok_gen [simp]: "ctx_ok (ctx\<lparr>gen_next := n\<rparr>) \<longleftrightarrow> ctx_ok ctx"
  and ctx_ok_had [simp]: "ctx_ok (ctx\<lparr>had_clients := b\<rparr>) \<longleftrightarrow> ctx_ok ctx"
  by (simp_all add: ctx_ok_defs connecting_def)

lemma ctx_ok_persistence [simp]: "ctx_ok (ctx\<lparr>persistence := ph\<rparr>) \<longleftrightarrow> ctx_ok ctx"
  and ctx_ok_disposing [simp]: "ctx_ok (ctx\<lparr>disposing := b\<rparr>) \<longleftrightarrow> ctx_ok ctx"
  and ctx_ok_request [simp]: "ctx_ok (ctx\<lparr>request_dispose := rd\<rparr>) \<longleftrightarrow> ctx_ok ctx"
  and ctx_ok_clock [simp]: "ctx_ok (ctx\<lparr>clock := ck\<rparr>) \<longleftrightarrow> ctx_ok ctx"
  and ctx_ok_now [simp]: "ctx_ok (ctx\<lparr>now := t\<rparr>) \<longleftrightarrow> ctx_ok ctx"
  and ctx_ok_wall [simp]: "ctx_ok (ctx\<lparr>wall := w\<rparr>) \<longleftrightarrow> ctx_ok ctx"
  by (simp_all add: ctx_ok_defs connecting_def)

lemma ctx_ok_state_slot [simp]: "ctx_ok ctx \<Longrightarrow> wf_slot slot \<Longrightarrow> ctx_ok (ctx\<lparr>state_slot := Some slot\<rparr>)"
  by (simp add: ctx_ok_defs connecting_def)

lemma ctx_ok_driver [simp]: "ctx_ok ctx \<Longrightarrow> driver_inv d \<Longrightarrow> ctx_ok (ctx\<lparr>driver := d\<rparr>)"
  by (simp add: ctx_ok_defs connecting_def)

lemma ctx_ok_on_client [simp]: "ctx_ok (on_client c f ctx) \<longleftrightarrow> ctx_ok ctx"
  by (simp add: on_client_def)

lemma ctx_ok_tap_log [simp]: "ctx_ok (tap_log e ctx) \<longleftrightarrow> ctx_ok ctx"
  by (simp add: tap_log_def)

lemma ctx_ok_sync [simp]: "ctx_ok ctx \<Longrightarrow> ctx_ok (sync_listing ctx)"
  by (simp add: ctx_ok_defs connecting_def)

lemma ctx_ok_client_send [simp]: "ctx_ok (client_send c t v so ctx) \<longleftrightarrow> ctx_ok ctx"
  and ctx_ok_client_send_bytes [simp]: "ctx_ok (client_send_bytes c t bs ctx) \<longleftrightarrow> ctx_ok ctx"
  by (simp_all add: client_send_def client_send_bytes_def split: prod.split)

lemma ctx_ok_each_client [simp]: "ctx_ok ctx \<Longrightarrow> ctx_ok (each_client p f cs ctx)"
  by (rule ctx_ok_traffic [OF traffic_each_client]) (simp_all add: ctx_ok_defs)

lemma ctx_ok_broadcast [simp]: "ctx_ok ctx \<Longrightarrow> ctx_ok (broadcast_with_options t v so ctx)"
  and ctx_ok_broadcast_bytes [simp]: "ctx_ok ctx \<Longrightarrow> ctx_ok (broadcast_bytes t bs ctx)"
  by (simp_all add: broadcast_with_options_def broadcast_bytes_def Let_def)

lemma ctx_ok_broadcast_patch [simp]: "ctx_ok ctx \<Longrightarrow> ctx_ok (snd (broadcast_patch ctx))"
  by (rule ctx_ok_traffic [OF traffic_broadcast_patch])
    (auto simp: ctx_ok_defs intro: broadcast_patch_slots)

lemma ctx_ok_set_timeout [simp]: "ctx_ok ctx \<Longrightarrow> ctx_ok (snd (set_timeout d h ctx))"
  by (fastforce simp: ctx_ok_defs connecting_def set_timeout_def Let_def)

lemma ctx_ok_timers: "ctx_ok ctx \<Longrightarrow> ctx_ok (ctx\<lparr>timers := filter P (timers ctx)\<rparr>)"
  by (simp add: ctx_ok_defs connecting_def distinct_map_filter)

lemma ctx_ok_clear_timeout [simp]: "ctx_ok ctx \<Longrightarrow> ctx_ok (snd (clear_timeout i ctx))"
  by (simp add: clear_timeout_def Let_def ctx_ok_timers)

lemma connecting_sender_send [simp]: "connecting (sender_send h ctx) = connecting ctx"
  by (simp add: connecting_def sender_send_def List.map_filter_def split: option.split)

lemma ctx_ok_sender [simp]: "ctx_ok ctx \<Longrightarrow> ctx_ok (sender_send h ctx)"
  by (simp add: ctx_ok_defs) (simp add: sender_send_def)

lemma ctx_ok_facts:
  assumes "ctx_ok ctx"
  shows "distinct (map fst (reserved_seats ctx))" "distinct (map fst (reconnections ctx))"
    "distinct (map fst (view_snapshots ctx))" "driver_inv (driver ctx)" "distinct (clients ctx)"
  using assms by (auto simp: ctx_ok_defs)

lemma ctx_okD:
  assumes "ctx_ok ctx"
  shows "state_slot ctx = Some slot \<Longrightarrow> wf_slot slot"
    "c \<in> set (clients ctx) \<Longrightarrow> c < next_ref ctx"
    "(token, e) \<in> set (reconnections ctx) \<Longrightarrow> re_client e < next_ref ctx"
  using assms by (auto simp: ctx_ok_defs)

lemma ctx_ok_seats:
  "ctx_ok ctx \<Longrightarrow> distinct (map fst m) \<Longrightarrow> ctx_ok (ctx\<lparr>reserved_seats := m\<rparr>)"
  by (simp add: ctx_ok_defs connecting_def)

lemma ctx_ok_reconnections:
  assumes "ctx_ok ctx" and "distinct (map fst m)"
    and "\<And>t e. (t, e) \<in> set m \<Longrightarrow> re_client e < next_ref ctx"
  shows "ctx_ok (ctx\<lparr>reconnections := m\<rparr>)"
proof -
  have "\<forall>(t, e) \<in> set m. re_client e < next_ref ctx" using assms(3) by blast
  then show ?thesis using assms(1,2) by (simp add: ctx_ok_defs connecting_def)
qed

lemma ctx_ok_clients:
  assumes "ctx_ok ctx" and "distinct cs" and "set cs \<subseteq> set (clients ctx)"
  shows "ctx_ok (ctx\<lparr>clients := cs\<rparr>)"
proof -
  have "connecting (ctx\<lparr>clients := cs\<rparr>) = connecting ctx" by (simp add: connecting_def)
  then show ?thesis
    using assms by (auto simp: ctx_ok_defs)
qed

lemma ctx_ok_snapshots:
  "ctx_ok ctx \<Longrightarrow> distinct (map fst m) \<Longrightarrow> ctx_ok (ctx\<lparr>view_snapshots := m\<rparr>)"
  by (simp add: ctx_ok_defs connecting_def)

lemmas ctx_ok_updates = ctx_ok_seats ctx_ok_reconnections ctx_ok_clients ctx_ok_snapshots

lemma re_client_update:
  assumes "(t, e') \<in> set (AList.update k e (reconnections ctx))" "ctx_ok ctx" "re_client e < next_ref ctx"
  shows "re_client e' < next_ref ctx"
  using assms set_update_subset [of k e "reconnections ctx"] ctx_okD(3) [OF assms(2)] by auto

lemma re_client_delete:
  assumes "(t, e') \<in> set (AList.delete k (reconnections ctx))" "ctx_ok ctx"
  shows "re_client e' < next_ref ctx"
  using assms set_delete_subset [of k "reconnections ctx"] ctx_okD(3) [OF assms(2)] by auto

lemma ctx_ok_delete_reconnection:
  "ctx_ok ctx \<Longrightarrow> ctx_ok (ctx\<lparr>reconnections := AList.delete token (reconnections ctx)\<rparr>)"
  by (rule ctx_ok_reconnections) (auto simp: distinct_delete ctx_ok_facts dest: re_client_delete)

lemma ctx_ok_waiting:
  assumes "ctx_ok ctx" and "re_client e < next_ref ctx"
  shows "ctx_ok (ctx\<lparr>reconnections := AList.update tok e (reconnections ctx),
      reserved_seats := AList.update s seat (reserved_seats ctx)\<rparr>)"
  using assms
  by (intro ctx_ok_seats ctx_ok_reconnections) (auto simp: distinct_update ctx_ok_facts dest: re_client_update)

lemma ctx_ok_allow:
  assumes "ctx_ok ctx" and "c < next_ref ctx"
  shows "ctx_ok (snd (allow_reconnection c d ctx))"
proof -
  have "ctx_ok (ctx\<lparr>store := st,
      reconnections := AList.update tok \<lparr>re_session_id = s, re_client = c, re_expires_at = x\<rparr> (reconnections ctx),
      reserved_seats := AList.update s seat (reserved_seats ctx)\<rparr>)" for tok s x seat st
    using ctx_ok_waiting [of "ctx\<lparr>store := st\<rparr>"] assms by simp
  then show ?thesis
    using assms by (simp add: allow_reconnection_def Let_def on_client_def)
qed

lemma ctx_ok_remove_client: "ctx_ok ctx \<Longrightarrow> ctx_ok (remove_client sid ctx)"
  unfolding remove_client_def
  by (intro ctx_ok_sync ctx_ok_updates)
    (auto simp: distinct_delete distinct_map_filter ctx_ok_facts dest: ctx_okD(3))

lemma ctx_ok_quiet_step: "quiet_step ctx ctx' \<Longrightarrow> ctx_ok ctx \<Longrightarrow> ctx_ok ctx'"
proof (induction rule: quiet_step.induct)
  case (q_remove_client ctx sid)
  then show ?case by (simp add: ctx_ok_remove_client)
next
  case (q_restore_state ser de snap ctx)
  then show ?case
    by (auto simp: restore_state_def set_state_def ctx_ok_defs connecting_def split: sum.split)
next
  case (q_on_message t h ctx)
  then show ?case by (simp add: on_message_def push_handler_def ctx_ok_defs connecting_def distinct_update)
next
  case (q_on_message_bytes t h ctx)
  then show ?case by (simp add: on_message_bytes_def push_handler_def ctx_ok_defs connecting_def distinct_update)
next
  case (q_set_state st ctx)
  then show ?case by (auto simp: set_state_def ctx_ok_defs connecting_def)
next
  case (q_state_mut f ctx)
  then show ?case by (auto simp: state_mut_def ctx_ok_defs connecting_def)
next
  case (q_lock ctx)
  then show ?case by (simp add: room_lock_def) (simp add: ctx_ok_defs connecting_def)
next
  case (q_unlock ctx)
  then show ?case by (simp add: room_unlock_def) (simp add: ctx_ok_defs connecting_def)
next
  case (q_private b ctx)
  then show ?case by (simp add: set_private_def) (simp add: ctx_ok_defs connecting_def)
next
  case (q_metadata v ctx)
  then show ?case by (simp add: set_metadata_def) (simp add: ctx_ok_defs connecting_def)
next
  case (q_persist_now ctx)
  then show ?case by (simp add: persist_now_def Let_def split: option.split)
next
  case (q_restore_internal iser ide snap ctx)
  then show ?case by (auto simp: restore_internal_def set_internal_def ctx_ok_defs connecting_def split: sum.split)
qed (simp_all add: set_internal_def internal_mut_def clear_internal_def disable_persistence_def
    set_view_filter_def clear_view_filter_def on_any_message_def set_simulation_interval_def
    set_patch_rate_def disconnect_def generate_id_def, simp_all add: ctx_ok_defs connecting_def)

lemma ctx_ok_api_step: "api_step ctx ctx' \<Longrightarrow> ctx_ok ctx \<Longrightarrow> ctx_ok ctx'"
proof (induction rule: api_step.induct)
  case (a_max_clients ctx m)
  have "ctx_ok (ctx\<lparr>max_clients := m\<rparr>)"
    using a_max_clients by (simp add: ctx_ok_defs connecting_def)
  then show ?case by (simp add: set_max_clients_def)
qed (simp_all add: ctx_ok_quiet_step ctx_ok_allow)

lemma ctx_ok_api: "api ctx ctx' \<Longrightarrow> ctx_ok ctx \<Longrightarrow> ctx_ok ctx'"
  unfolding api_def by (induction rule: rtranclp_induct) (auto intro: ctx_ok_api_step)

text \<open>What no public operation changes.\<close>

lemma traffic_connecting: "traffic ctx ctx' \<Longrightarrow> connecting ctx' = connecting ctx"
  by (simp add: connecting_def traffic_frame(10))

lemma traffic_mail_refs: "traffic ctx ctx' \<Longrightarrow> mail_refs ctx' = mail_refs ctx"
  by (simp add: mail_refs_def traffic_frame(10))

lemma quiet_step_frame:
  "quiet_step ctx ctx' \<Longrightarrow> room_id ctx' = room_id ctx \<and> now ctx' = now ctx \<and> disposing ctx' = disposing ctx
     \<and> had_clients ctx' = had_clients ctx \<and> next_ref ctx' = next_ref ctx \<and> connecting ctx' = connecting ctx
     \<and> mail_refs ctx' = mail_refs ctx \<and> max_clients ctx' = max_clients ctx \<and> set (clients ctx') \<subseteq> set (clients ctx)
     \<and> owned False (room_id ctx) (driver ctx) (driver ctx')
     \<and> queued (sender ctx) (sender ctx')"
proof (induction rule: quiet_step.induct)
  case (q_broadcast ctx t p opts)
  show ?case
    by (simp add: traffic_frame [OF traffic_broadcast(1)] traffic_connecting [OF traffic_broadcast(1)]
        traffic_mail_refs [OF traffic_broadcast(1)])
next
  case (q_broadcast_bytes ctx t bs)
  show ?case
    by (simp add: traffic_frame [OF traffic_broadcast(2)] traffic_connecting [OF traffic_broadcast(2)]
        traffic_mail_refs [OF traffic_broadcast(2)])
next
  case (q_broadcast_patch ctx)
  show ?case
    by (simp add: traffic_frame [OF traffic_broadcast_patch] traffic_connecting [OF traffic_broadcast_patch]
        traffic_mail_refs [OF traffic_broadcast_patch])
next
  case (q_sender h ctx)
  show ?case
    by (simp only: queued_send) (simp add: sender_send_def connecting_def mail_refs_def List.map_filter_def split: option.split)
qed (simp_all add: set_state_def state_mut_def set_internal_def internal_mut_def clear_internal_def
    disable_persistence_def persist_now_def restore_state_def restore_internal_def set_view_filter_def
    clear_view_filter_def on_message_def on_any_message_def on_message_bytes_def set_timeout_def
    clear_timeout_def set_simulation_interval_def set_patch_rate_def room_lock_def room_unlock_def
    set_private_def set_metadata_def disconnect_def generate_id_def client_send_def client_send_bytes_def
    remove_client_def Let_def tap_log_def connecting_def mail_refs_def sender_send_def List.map_filter_def
    split: option.split sum.split prod.split)

lemma api_step_frame:
  "api_step ctx ctx' \<Longrightarrow> room_id ctx' = room_id ctx \<and> now ctx' = now ctx \<and> disposing ctx' = disposing ctx
     \<and> had_clients ctx' = had_clients ctx \<and> next_ref ctx' = next_ref ctx \<and> connecting ctx' = connecting ctx
     \<and> mail_refs ctx' = mail_refs ctx \<and> set (clients ctx') \<subseteq> set (clients ctx)
     \<and> owned False (room_id ctx) (driver ctx) (driver ctx')
     \<and> queued (sender ctx) (sender ctx')"
proof (induction rule: api_step.induct)
  case (a_allow c ctx d)
  show ?case by (simp add: allow_reconnection_def Let_def connecting_def mail_refs_def)
next
  case (a_quiet ctx ctx')
  then show ?case using quiet_step_frame by blast
qed (simp add: set_max_clients_def connecting_def mail_refs_def)

lemma api_frame:
  assumes "api ctx ctx'"
  shows "room_id ctx' = room_id ctx" "now ctx' = now ctx" "disposing ctx' = disposing ctx"
    "had_clients ctx' = had_clients ctx" "next_ref ctx' = next_ref ctx" "connecting ctx' = connecting ctx"
    "mail_refs ctx' = mail_refs ctx" "set (clients ctx') \<subseteq> set (clients ctx)"
    "owned False (room_id ctx) (driver ctx) (driver ctx')" "queued (sender ctx) (sender ctx')"
proof -
  have "room_id ctx' = room_id ctx \<and> now ctx' = now ctx \<and> disposing ctx' = disposing ctx
     \<and> had_clients ctx' = had_clients ctx \<and> next_ref ctx' = next_ref ctx \<and> connecting ctx' = connecting ctx
     \<and> mail_refs ctx' = mail_refs ctx \<and> set (clients ctx') \<subseteq> set (clients ctx)
     \<and> owned False (room_id ctx) (driver ctx) (driver ctx')
     \<and> queued (sender ctx) (sender ctx')"
    using assms unfolding api_def
  proof (induction rule: rtranclp_induct)
    case (step y z)
    then show ?case
      using api_step_frame [OF step(2)] owned_trans [of False "room_id ctx" "driver ctx" "driver y" "driver z"]
        queued_trans [of "sender ctx" "sender y" "sender z"] by auto
  qed simp
  then show "room_id ctx' = room_id ctx" "now ctx' = now ctx" "disposing ctx' = disposing ctx"
    "had_clients ctx' = had_clients ctx" "next_ref ctx' = next_ref ctx" "connecting ctx' = connecting ctx"
    "mail_refs ctx' = mail_refs ctx" "set (clients ctx') \<subseteq> set (clients ctx)"
    "owned False (room_id ctx) (driver ctx) (driver ctx')" "queued (sender ctx) (sender ctx')" by simp_all
qed

section \<open>The steps of the actor keep it\<close>

definition fresh :: "cref \<Rightarrow> ('s, 'i, 'h) RoomContext \<Rightarrow> bool" where
  "fresh c ctx \<longleftrightarrow> c \<notin> set (clients ctx) \<and> c \<notin> set (connecting ctx) \<and> c < next_ref ctx"

lemma fresh_api: "api ctx ctx' \<Longrightarrow> fresh c ctx \<Longrightarrow> fresh c ctx'"
  using api_frame [of ctx ctx'] by (auto simp: fresh_def)

lemma connecting_updates [simp]:
  "connecting (ctx\<lparr>store := st\<rparr>) = connecting ctx" "connecting (ctx\<lparr>clients := cs\<rparr>) = connecting ctx"
  "connecting (ctx\<lparr>reserved_seats := m\<rparr>) = connecting ctx" "connecting (on_client c f ctx) = connecting ctx"
  "connecting (tap_log e ctx) = connecting ctx" "connecting (ctx\<lparr>reconnections := r\<rparr>) = connecting ctx"
  by (simp_all add: connecting_def tap_log_def)

lemma ctx_ok_send_welcome: "ctx_ok ctx \<Longrightarrow> ctx_ok (send_welcome k c st ctx)"
  unfolding send_welcome_def Let_def generate_id_def set_view_snapshot_def
  by (simp add: ctx_ok_snapshots distinct_update ctx_ok_facts split: option.split)

lemma ctx_ok_admit:
  assumes "ctx_ok ctx" and "fresh c ctx" and "clients ctx = cs"
  shows "ctx_ok (ctx\<lparr>clients := cs @ [c]\<rparr>)"
  using assms by (auto simp: ctx_ok_defs fresh_def)

lemma ctx_ok_joining:
  assumes "ctx_ok ctx" and "fresh c ctx"
  shows "ctx_ok (joining c seat ctx)"
  unfolding joining_def Let_def
proof (rule ctx_ok_admit)
  show "ctx_ok (ctx\<lparr>reserved_seats := AList.update (session_id (store ctx c)) (seat\<lparr>consumed := True\<rparr>)
      (reserved_seats ctx), store := st\<rparr>)" for st
    using assms(1) by (simp add: ctx_ok_seats distinct_update ctx_ok_facts)
  show "fresh c (ctx\<lparr>reserved_seats := m, store := st\<rparr>)" for m st
    using assms(2) by (simp add: fresh_def)
qed simp

lemma extract_split:
  "List.extract P xs = Some (as, x, bs) \<Longrightarrow> xs = as @ x # bs"
  by (metis extract_SomeE)

lemma ctx_ok_put_client:
  assumes "ctx_ok ctx" and "fresh c ctx"
  shows "ctx_ok (put_client c ctx)"
proof (cases "List.extract (\<lambda>c'. session_id (store ctx c') = session_id (store ctx c)) (clients ctx)")
  case None
  then show ?thesis using ctx_ok_admit [OF assms refl] by (simp add: put_client_def Let_def)
next
  case (Some r)
  obtain as x bs where r: "r = (as, x, bs)" by (cases r)
  have "clients ctx = as @ x # bs" using extract_split Some r by fast
  then have "ctx_ok (ctx\<lparr>clients := as @ c # bs\<rparr>)"
    using assms by (auto simp: ctx_ok_defs fresh_def)
  then show ?thesis by (simp add: put_client_def Let_def Some r)
qed

lemma ctx_ok_join_failed: "ctx_ok (snd rm) \<Longrightarrow> ctx_ok (snd (snd (join_failed c e rm)))"
  unfolding join_failed_def Let_def snd_conv
  by (intro ctx_ok_sync) (simp add: ctx_ok_clients ctx_ok_facts)

end
