(* ===== verification/Room_Reach.thy ===== *)
theory Room_Reach
  imports Room_Inv
begin

text \<open>
  Reachable states of a room. The contract of a room type is a locale: its hooks change the
  context only through the public operations. Inside it every event, every tick and every
  deadline is shown to keep the invariant of theory Room_Inv; the step relation \<open>reach\<close>
  interleaves the turns of the actor with arriving sockets, posted events, the passing of
  time and the other rooms of the process.
\<close>

section \<open>Staying good\<close>

text \<open>The invariant, and what a handler does not change of the context it started from.\<close>

definition good :: "('s, 'i, 'h) RoomContext \<Rightarrow> ('s, 'i, 'h) RoomContext \<Rightarrow> bool" where
  "good ctx0 ctx \<longleftrightarrow> ctx_ok ctx \<and> next_ref ctx = next_ref ctx0 \<and> mail_refs ctx = mail_refs ctx0
     \<and> connecting ctx = connecting ctx0 \<and> room_id ctx = room_id ctx0 \<and> now ctx = now ctx0
     \<and> disposing ctx = disposing ctx0 \<and> owned (disposing ctx0) (room_id ctx0) (driver ctx0) (driver ctx)
     \<and> queued (sender ctx0) (sender ctx)"

lemma good_refl: "ctx_ok ctx \<Longrightarrow> good ctx ctx"
  by (simp add: good_def)

lemma goodD: "good ctx0 ctx \<Longrightarrow> ctx_ok ctx" "good ctx0 ctx \<Longrightarrow> next_ref ctx = next_ref ctx0"
  by (simp_all add: good_def)

lemma good_api: "good ctx0 ctx \<Longrightarrow> api ctx ctx' \<Longrightarrow> good ctx0 ctx'"
  using api_frame [of ctx ctx'] ctx_ok_api [of ctx ctx']
    owned_trans [of "disposing ctx0" "room_id ctx0" "driver ctx0" "driver ctx" "driver ctx'"]
    owned_weaken [of False "room_id ctx" "driver ctx" "driver ctx'" "disposing ctx0"]
    queued_trans [of "sender ctx0" "sender ctx" "sender ctx'"]
  by (simp add: good_def)

lemma mail_refs_updates [simp]:
  "mail_refs (ctx\<lparr>store := st\<rparr>) = mail_refs ctx" "mail_refs (ctx\<lparr>clients := cs\<rparr>) = mail_refs ctx"
  "mail_refs (ctx\<lparr>reserved_seats := m\<rparr>) = mail_refs ctx" "mail_refs (ctx\<lparr>reconnections := r\<rparr>) = mail_refs ctx"
  "mail_refs (ctx\<lparr>tap := tp\<rparr>) = mail_refs ctx" "mail_refs (sync_listing ctx) = mail_refs ctx"
  "connecting (ctx\<lparr>tap := tp\<rparr>) = connecting ctx" "connecting (sync_listing ctx) = connecting ctx"
  by (simp_all add: mail_refs_def connecting_def)

lemma mail_refs_updates2 [simp]:
  "mail_refs (ctx\<lparr>persistence := ph\<rparr>) = mail_refs ctx" "connecting (ctx\<lparr>persistence := ph\<rparr>) = connecting ctx"
  "mail_refs (ctx\<lparr>disposing := b\<rparr>) = mail_refs ctx" "connecting (ctx\<lparr>disposing := b\<rparr>) = connecting ctx"
  "mail_refs (ctx\<lparr>request_dispose := rd\<rparr>) = mail_refs ctx" "connecting (ctx\<lparr>request_dispose := rd\<rparr>) = connecting ctx"
  "mail_refs (ctx\<lparr>clock := ck\<rparr>) = mail_refs ctx" "connecting (ctx\<lparr>clock := ck\<rparr>) = connecting ctx"
  "mail_refs (ctx\<lparr>driver := d\<rparr>) = mail_refs ctx" "connecting (ctx\<lparr>driver := d\<rparr>) = connecting ctx"
  "mail_refs (ctx\<lparr>lobby_tx := l\<rparr>) = mail_refs ctx" "connecting (ctx\<lparr>lobby_tx := l\<rparr>) = connecting ctx"
  "mail_refs (ctx\<lparr>now := t\<rparr>) = mail_refs ctx" "connecting (ctx\<lparr>now := t\<rparr>) = connecting ctx"
  "mail_refs (ctx\<lparr>wall := w\<rparr>) = mail_refs ctx" "connecting (ctx\<lparr>wall := w\<rparr>) = connecting ctx"
  by (simp_all add: mail_refs_def connecting_def)

lemma good_simps [simp]:
  "good ctx0 (on_client c f ctx) \<longleftrightarrow> good ctx0 ctx" "good ctx0 (tap_log e ctx) \<longleftrightarrow> good ctx0 ctx"
  by (simp_all add: good_def on_client_def tap_log_def)

lemma good_store [simp]: "good ctx0 (ctx\<lparr>store := st\<rparr>) \<longleftrightarrow> good ctx0 ctx"
  by (simp add: good_def)

lemma good_had [simp]: "good ctx0 (ctx\<lparr>had_clients := b\<rparr>) \<longleftrightarrow> good ctx0 ctx"
  by (simp add: good_def mail_refs_def connecting_def)

lemma good_sync [simp]: "good ctx0 ctx \<Longrightarrow> good ctx0 (sync_listing ctx)"
  by (simp add: good_def)

lemma good_seats:
  assumes "good ctx0 ctx" and "reserved_seats ctx = m0"
  shows "good ctx0 (ctx\<lparr>reserved_seats := AList.delete sid m0\<rparr>)"
    and "good ctx0 (ctx\<lparr>reserved_seats := AList.update sid seat m0\<rparr>)"
    and "good ctx0 (ctx\<lparr>reserved_seats := []\<rparr>)"
  using assms by (auto simp: good_def ctx_ok_seats distinct_delete distinct_update ctx_ok_facts)

lemma good_delete_reconnection:
  assumes "good ctx0 ctx" and "reconnections ctx = m0"
  shows "good ctx0 (ctx\<lparr>reconnections := AList.delete token m0\<rparr>)"
    and "good ctx0 (ctx\<lparr>reconnections := []\<rparr>)"
  using assms ctx_ok_delete_reconnection [of ctx token] ctx_ok_reconnections [of ctx "[]"]
  by (auto simp: good_def)

lemma good_clients:
  assumes "good ctx0 ctx" and "clients ctx = cs"
  shows "good ctx0 (ctx\<lparr>clients := filter P cs\<rparr>)" and "good ctx0 (ctx\<lparr>clients := []\<rparr>)"
  using assms ctx_ok_clients [of ctx "filter P cs"] ctx_ok_clients [of ctx "[]"]
  by (auto simp: good_def ctx_ok_facts)

lemma good_drop_view [simp]: "good ctx0 ctx \<Longrightarrow> good ctx0 (drop_view_snapshot sid ctx)"
  using ctx_ok_snapshots [of ctx "AList.delete sid (view_snapshots ctx)"]
  by (simp add: good_def drop_view_snapshot_def distinct_delete ctx_ok_facts mail_refs_def connecting_def)

lemma send_welcome_refs [simp]:
  "next_ref (send_welcome k c st ctx) = next_ref ctx" "sender (send_welcome k c st ctx) = sender ctx"
  "room_id (send_welcome k c st ctx) = room_id ctx" "now (send_welcome k c st ctx) = now ctx"
  by (simp_all add: send_welcome_def generate_id_def set_view_snapshot_def Let_def split: option.splits)

lemma owned_send_welcome:
  "room_id ctx = rid \<Longrightarrow> owned b rid d0 (driver ctx) \<Longrightarrow> owned b rid d0 (driver (send_welcome k c st ctx))"
  by (auto simp: send_welcome_def generate_id_def set_view_snapshot_def Let_def split: option.split
      intro!: owned_update simp: update_listing_def)

lemma good_send_welcome [simp]: "good ctx0 ctx \<Longrightarrow> good ctx0 (send_welcome k c st ctx)"
  by (simp add: owned_send_welcome good_def ctx_ok_send_welcome mail_refs_def connecting_def)

lemma good_local_ops:
  assumes "good ctx0 ctx"
  shows "good ctx0 (client_send c t v so ctx)" "good ctx0 (broadcast t v ctx)" "good ctx0 (room_lock ctx)"
    "good ctx0 (room_unlock ctx)" "good ctx0 (snd (broadcast_patch ctx))"
  using assms
  by (auto simp: broadcast_def
      intro!: good_api [of _ ctx] quiet_api_api quiet_apiI quiet_step.intros)

lemma good_sender_free [simp]:
  "good ctx0 ctx \<Longrightarrow> good ctx0 (ctx\<lparr>clock := ck\<rparr>)" "good ctx0 ctx \<Longrightarrow> good ctx0 (ctx\<lparr>request_dispose := rd\<rparr>)"
  "good ctx0 ctx \<Longrightarrow> good ctx0 (ctx\<lparr>persistence := ph\<rparr>)"
  by (simp_all add: good_def)

lemma good_persist_now [simp]: "good ctx0 ctx \<Longrightarrow> good ctx0 (persist_now ctx)"
  by (simp add: persist_now_def Let_def split: option.split)

lemma good_state_slot: "good ctx0 ctx \<Longrightarrow> wf_slot slot \<Longrightarrow> good ctx0 (ctx\<lparr>state_slot := Some slot\<rparr>)"
  by (simp add: good_def) (simp add: connecting_def mail_refs_def)

lemma actor_ctx_run_room [simp]: "actor_ctx (snd (run_room f a)) = snd (snd (f (actor_room a, actor_ctx a)))"
  and fst_run_room [simp]: "fst (run_room f a) = fst (f (actor_room a, actor_ctx a))"
  by (simp_all add: run_room_def split: prod.split)

section \<open>The contract of a room type\<close>

locale room_type =
  fixes H :: "('r, 's, 'i, 'h) RoomHooks"
  assumes create_api: "ctx_ok (snd rm) \<Longrightarrow> api (snd rm) (snd (snd (on_create H options rm)))"
    and restore_api: "ctx_ok (snd rm) \<Longrightarrow> api (snd rm) (snd (snd (on_restore H snap rm)))"
    and auth_api: "ctx_ok (snd rm) \<Longrightarrow> api (snd rm) (snd (snd (on_auth H options auth rm)))"
    and join_api: "ctx_ok (snd rm) \<Longrightarrow> c < next_ref (snd rm)
      \<Longrightarrow> api (snd rm) (snd (snd (on_join H c options auth_data rm)))"
    and drop_api: "ctx_ok (snd rm) \<Longrightarrow> c < next_ref (snd rm) \<Longrightarrow> api (snd rm) (snd (on_drop H c code rm))"
    and reconnect_api: "ctx_ok (snd rm) \<Longrightarrow> c < next_ref (snd rm) \<Longrightarrow> api (snd rm) (snd (on_reconnect H c rm))"
    and leave_api: "ctx_ok (snd rm) \<Longrightarrow> c < next_ref (snd rm) \<Longrightarrow> api (snd rm) (snd (on_leave H c code rm))"
    and dispose_api: "ctx_ok (snd rm) \<Longrightarrow> api (snd rm) (snd (on_dispose H rm))"
    and tick_api: "ctx_ok (snd rm) \<Longrightarrow> api (snd rm) (snd (on_tick H delta rm))"
    and msg_api: "ctx_ok (snd rm) \<Longrightarrow> c < next_ref (snd rm)
      \<Longrightarrow> api (snd rm) (snd (snd (msg_run H h c payload rm)))"
    and any_api: "ctx_ok (snd rm) \<Longrightarrow> c < next_ref (snd rm)
      \<Longrightarrow> api (snd rm) (snd (snd (any_run H h c t payload rm)))"
    and bytes_api: "ctx_ok (snd rm) \<Longrightarrow> c < next_ref (snd rm)
      \<Longrightarrow> api (snd rm) (snd (snd (bytes_run H h c bs rm)))"
    and timer_api: "ctx_ok (snd rm) \<Longrightarrow> api (snd rm) (snd (timer_run H h rm))"
    and command_api: "ctx_ok (snd rm) \<Longrightarrow> api (snd rm) (snd (command_run H h rm))"
    and rpc_api: "ctx_ok (snd rm) \<Longrightarrow> api (snd rm) (snd (snd (rpc_run H h rm)))"
begin

lemmas hook_apis = create_api restore_api auth_api join_api drop_api reconnect_api leave_api
  dispose_api tick_api msg_api any_api bytes_api timer_api command_api rpc_api

lemma hook_good:
  assumes "good ctx0 (snd rm)"
  shows "good ctx0 (snd (snd (on_create H options rm)))" "good ctx0 (snd (snd (on_restore H snap rm)))"
    "good ctx0 (snd (snd (on_auth H options auth rm)))"
    "c < next_ref ctx0 \<Longrightarrow> good ctx0 (snd (snd (on_join H c options auth_data rm)))"
    "c < next_ref ctx0 \<Longrightarrow> good ctx0 (snd (on_drop H c code rm))"
    "c < next_ref ctx0 \<Longrightarrow> good ctx0 (snd (on_reconnect H c rm))"
    "c < next_ref ctx0 \<Longrightarrow> good ctx0 (snd (on_leave H c code rm))"
    "good ctx0 (snd (on_dispose H rm))" "good ctx0 (snd (on_tick H delta rm))"
    "c < next_ref ctx0 \<Longrightarrow> good ctx0 (snd (snd (msg_run H h c payload rm)))"
    "c < next_ref ctx0 \<Longrightarrow> good ctx0 (snd (snd (any_run H h c t payload rm)))"
    "c < next_ref ctx0 \<Longrightarrow> good ctx0 (snd (snd (bytes_run H h c bs rm)))"
    "good ctx0 (snd (timer_run H h rm))" "good ctx0 (snd (command_run H h rm))"
    "good ctx0 (snd (snd (rpc_run H h rm)))"
  using assms goodD [OF assms] by (auto intro!: good_api [OF assms] hook_apis)

lemma good_run_handlers:
  assumes "\<And>f rm. f \<in> set fs \<Longrightarrow> good ctx0 (snd rm) \<Longrightarrow> good ctx0 (snd (snd (f rm)))"
    and "good ctx0 (snd rm)"
  shows "good ctx0 (snd (run_handlers report c fs rm))"
  using assms
proof (induction fs arbitrary: rm)
  case (Cons f fs)
  have "good ctx0 (snd (snd (f rm)))" using Cons.prems by simp
  then show ?case
    using Cons.IH Cons.prems(1) by (cases "f rm"; cases "fst (f rm)") auto
qed simp

lemma good_call_msg:
  "good ctx0 (snd rm) \<Longrightarrow> c < next_ref ctx0 \<Longrightarrow> good ctx0 (snd (snd (call_msg_handler H h c payload rm)))"
  using hook_good(10) by (simp add: call_msg_handler_def split: sum.split)

lemma good_on_reserve_seat:
  "good ctx0 (snd rm) \<Longrightarrow> good ctx0 (snd (snd (on_reserve_seat H sid options auth rm)))"
  using hook_good(3) [of ctx0 rm options auth]
  by (auto simp: on_reserve_seat_def Let_def good_seats split: prod.split sum.split)

lemma good_join:
  assumes "good ctx0 (snd rm)" and "fresh c (snd rm)"
  shows "good ctx0 (snd (snd (join H c rm)))"
proof (cases "map_of (reserved_seats (snd rm)) (session_id (store (snd rm) c))")
  case None
  then show ?thesis using assms by (simp add: join_no_seat)
next
  case (Some seat)
  show ?thesis
  proof (cases "consumed seat")
    case True
    then show ?thesis using assms by (simp add: join_consumed [OF Some])
  next
    case False
    have "c < next_ref ctx0" using assms by (simp add: fresh_def good_def)
    moreover have "good ctx0 (joining c seat (snd rm))"
      using assms ctx_ok_joining [of "snd rm" c seat]
      by (simp add: good_def) (simp add: joining_def Let_def mail_refs_def connecting_def)
    moreover obtain res r ctx where
      r: "on_join H c (seat_options seat) (seat_auth seat) (fst rm, joining c seat (snd rm)) = (res, (r, ctx))"
      by (metis surj_pair)
    ultimately have g: "good ctx0 ctx"
      using hook_good(4) [of ctx0 "(fst rm, joining c seat (snd rm))"] by (metis snd_conv)
    let ?ctx = "ctx\<lparr>reserved_seats := AList.delete (session_id (store (snd rm) c)) (reserved_seats ctx)\<rparr>"
    have g': "good ctx0 ?ctx" using g by (simp add: good_seats)
    then have "good ctx0 (snd (snd (join_failed c e (r, ?ctx))))" for e
      by (simp add: join_failed_def Let_def good_clients)
    moreover have "good ctx0 (send_welcome k c st (?ctx\<lparr>had_clients := True\<rparr>))" for k st
      using g' by (intro good_send_welcome) (simp only: good_had)
    ultimately show ?thesis
      by (simp add: join_run [OF Some False r] split: sum.split)
  qed
qed

lemma good_put_client:
  assumes "good ctx0 ctx" and "fresh c ctx"
  shows "good ctx0 (put_client c ctx)"
  using assms ctx_ok_put_client [of ctx c]
  by (auto simp: good_def put_client_def Let_def mail_refs_def connecting_def split: option.split)

lemma good_reconnect:
  assumes "good ctx0 (snd rm)" and "fresh c (snd rm)"
  shows "good ctx0 (snd (snd (reconnect H c token rm)))"
proof -
  have c: "c < next_ref ctx0" using assms by (simp add: fresh_def good_def)
  have "good ctx0 (put_client c ctx)" if "good ctx0 ctx" "clients ctx = clients (snd rm)" for ctx
    using that assms(2) assms(1) by (intro good_put_client) (simp_all add: fresh_def good_def)
  then have "good ctx0 (snd (on_reconnect H c (r, put_client c ctx)))"
    if "good ctx0 ctx" "clients ctx = clients (snd rm)" for r ctx
    using that hook_good(6) [of ctx0 "(r, put_client c ctx)" c] c by simp
  then show ?thesis
    using assms(1)
    by (simp add: reconnect_def Let_def good_seats good_delete_reconnection split: option.split)
qed

lemma good_on_connect:
  assumes "good ctx0 (snd rm)" and "fresh c (snd rm)"
  shows "good ctx0 (snd (snd (on_connect H c token_opt rm)))"
proof -
  let ?rm = "on_ctx (on_client c (\<lambda>cl. attach_tap (attach_after_patch cl))) rm"
  have "good ctx0 (snd ?rm)" "fresh c (snd ?rm)" using assms by (simp_all add: fresh_def)
  then show ?thesis
    using good_join [of ctx0 ?rm c] good_reconnect [of ctx0 ?rm c]
    by (simp add: on_connect_def Let_def split: option.split)
qed

lemma good_leave_client:
  assumes "good ctx0 (snd rm)" and "c < next_ref ctx0"
  shows "good ctx0 (snd (leave_client H c code consented rm))"
proof -
  have forget: "good ctx0 (sync_listing ((drop_view_snapshot sid ctx)\<lparr>clients :=
      filter P (clients (drop_view_snapshot sid ctx))\<rparr>))" if "good ctx0 ctx" for sid P ctx
    using that by (simp add: good_clients)
  show ?thesis
    using assms by (auto simp: leave_client_def Let_def hook_good intro!: forget)
qed

lemma good_run_check_rate: "good ctx0 ctx \<Longrightarrow> run_check_rate c ctx = (ok, ctx') \<Longrightarrow> good ctx0 ctx'"
  by (auto simp: run_check_rate_def split: prod.splits)

lemma good_on_data:
  assumes "good ctx0 (snd rm)" and "c < next_ref ctx0"
  shows "good ctx0 (snd (on_data H c t payload rm))"
proof -
  let ?ctx = "tap_log (event_payload payload (event_msg_type t (event_client (session_id (store (snd rm) c))
        (event_new (wall (snd rm)) ''in'' ''message'')))) (snd rm)"
  obtain ok ctx2 where r: "run_check_rate c ?ctx = (ok, ctx2)" by (cases "run_check_rate c ?ctx")
  have "good ctx0 ctx2" using good_run_check_rate [OF _ r] assms(1) by simp
  then have "good ctx0 (snd (run_handlers False c (map (\<lambda>h. any_run H h c t payload) hs)
      (run_handlers True c (map (\<lambda>h. call_msg_handler H h c payload) hs') (fst rm, ctx2))))" for hs hs'
    using assms(2) by (intro good_run_handlers) (auto simp: hook_good good_call_msg)
  then show ?thesis
    using assms(1) r \<open>good ctx0 ctx2\<close> by (simp add: on_data_def Let_def)
qed

lemma good_on_data_bytes:
  assumes "good ctx0 (snd rm)" and "c < next_ref ctx0"
  shows "good ctx0 (snd (on_data_bytes H c t bs rm))"
proof -
  obtain ok ctx1 where r: "run_check_rate c (snd rm) = (ok, ctx1)" by (cases "run_check_rate c (snd rm)")
  have g: "good ctx0 ctx1" using good_run_check_rate [OF assms(1) r] .
  then have "good ctx0 (snd (run_handlers True c (map (\<lambda>h. bytes_run H h c bs) hs) (fst rm, tap_log e ctx1)))"
    for hs e
    using assms(2) by (intro good_run_handlers) (auto simp: hook_good)
  then show ?thesis
    using assms(1) r g by (simp add: on_data_bytes_def Let_def on_ctx_def)
qed

lemma good_on_client_message:
  assumes "good ctx0 (snd rm)" and "c < next_ref ctx0"
  shows "good ctx0 (snd (on_client_message H c msg rm))"
  using assms
  by (simp add: on_client_message_def Let_def good_on_data good_on_data_bytes good_leave_client
      split: option.split ClientMessage.split)

lemma good_on_disconnected:
  assumes "good ctx0 (snd rm)" and "c < next_ref ctx0"
  shows "good ctx0 (snd (on_disconnected H c code rm))"
  using assms by (simp add: on_disconnected_def Let_def good_leave_client split: option.split)

lemma good_fold:
  assumes "\<And>x rm. good ctx0 (snd rm) \<Longrightarrow> good ctx0 (snd (f x rm))" and "good ctx0 (snd rm)"
  shows "good ctx0 (snd (fold f xs rm))"
  using assms(2) by (induction xs arbitrary: rm) (simp_all add: assms(1))

lemma good_expire_reconnection:
  assumes "good ctx0 (snd rm)"
  shows "good ctx0 (snd (expire_reconnection H token rm))"
proof (cases "map_of (reconnections (snd rm)) token")
  case (Some e)
  have "re_client e < next_ref ctx0"
    using ctx_okD(3) [of "snd rm" token e] map_of_SomeD [OF Some] assms by (simp add: good_def)
  moreover have "good ctx0 (sync_listing ((drop_view_snapshot sid ctx)\<lparr>clients :=
      filter P (clients (drop_view_snapshot sid ctx))\<rparr>))" if "good ctx0 ctx" for sid P ctx
    using that by (simp add: good_clients)
  ultimately show ?thesis
    using assms by (simp add: expire_reconnection_def Some Let_def hook_good good_seats good_delete_reconnection)
qed (simp add: expire_reconnection_def assms)

lemma good_fold_delete:
  "good ctx0 ctx \<Longrightarrow> good ctx0 (ctx\<lparr>reserved_seats := fold AList.delete es (reserved_seats ctx)\<rparr>)"
proof (induction es arbitrary: ctx)
  case (Cons k es)
  then show ?case
    using Cons.IH [of "ctx\<lparr>reserved_seats := AList.delete k (reserved_seats ctx)\<rparr>"] by (simp add: good_seats)
qed simp

lemma good_handle_deadlines:
  assumes "good ctx0 (snd rm)"
  shows "good ctx0 (snd (handle_deadlines H rm))"
proof -
  have "good ctx0 (snd (fold (expire_reconnection H) ts rm))" for ts
    using good_fold [OF good_expire_reconnection assms] .
  then have "good ctx0 (snd (on_ctx (expire_seats t) (fold (expire_reconnection H) ts rm)))" for t ts
    by (simp add: expire_seats_def Let_def good_fold_delete)
  moreover have "good ctx0 (snd (run_due_timers H t rm'))" if "good ctx0 (snd rm')" for t rm'
  proof -
    have "good ctx0 ((snd rm')\<lparr>timers := filter P (timers (snd rm'))\<rparr>)" for P
      using that ctx_ok_timers [of "snd rm'" P] by (simp add: good_def connecting_def mail_refs_def)
    then show ?thesis
      unfolding run_due_timers_def Let_def by (intro good_fold) (simp_all add: hook_good)
  qed
  ultimately show ?thesis by (simp add: handle_deadlines_def Let_def)
qed

lemma good_final_snapshot: "good ctx0 ctx \<Longrightarrow> good ctx0 (final_snapshot ctx)"
proof -
  assume g: "good ctx0 ctx"
  have "good ctx0 (ctx\<lparr>persistence := p\<rparr>)" for p
    using g by (simp add: good_def)
  then show ?thesis
    using g by (simp add: final_snapshot_def delete_snapshot_def persist_now_def Let_def split: option.split)
qed

lemma good_disposing: "good ctx0 ctx \<Longrightarrow> good (ctx0\<lparr>disposing := True\<rparr>) (ctx\<lparr>disposing := True, request_dispose := r\<rparr>)"
  using owned_True by (auto simp: good_def)

lemma good_dispose_room:
  assumes "good ctx0 (snd rm)"
  shows "good (ctx0\<lparr>disposing := True\<rparr>) (snd (dispose_room H code rm))"
proof -
  let ?ctx0 = "ctx0\<lparr>disposing := True\<rparr>"
  have leave: "good ?ctx0 (fold (\<lambda>c. on_client c f) cs ctx)" if "good ?ctx0 ctx" for f cs ctx
    using that by (induction cs arbitrary: ctx) simp_all
  have remove: "good ?ctx0 (ctx\<lparr>driver := snd (driver_remove (room_id ctx) (driver ctx)), lobby_tx := l\<rparr>)"
    if "good ?ctx0 ctx" "driver_inv (driver ctx)" for ctx l
    using that owned_remove [of True "room_id ctx0"] by (simp add: good_def)
  have clear: "good ?ctx0 (ctx\<lparr>reserved_seats := [], reconnections := []\<rparr>)" if "good ?ctx0 ctx" for ctx
    using that by (simp add: good_seats good_delete_reconnection)
  let ?ctx2 = "final_snapshot ((snd rm)\<lparr>disposing := True, request_dispose := None\<rparr>)"
  have "good ?ctx0 ?ctx2" using good_disposing [OF assms] good_final_snapshot by blast
  then have "good ?ctx0 (?ctx2\<lparr>clients := []\<rparr>)" by (simp add: good_clients)
  then have "good ?ctx0 (snd (on_dispose H (fst rm, (fold (\<lambda>c. on_client c f) cs (?ctx2\<lparr>clients := []\<rparr>))
      \<lparr>reserved_seats := [], reconnections := []\<rparr>)))" for f cs
    using leave clear hook_good(8) by (metis snd_conv)
  note g5 = this [of _ "clients ?ctx2"]
  show ?thesis
    using remove [OF good_simps(2) [THEN iffD2, OF g5]] ctx_ok_facts(4) [OF goodD(1) [OF g5]]
    by (simp add: dispose_room_def Let_def)
qed

text \<open>After \<^verbatim>\<open>dispose\<close>: the flag is set, whatever it was.\<close>

lemma good_dispose:
  assumes "good ctx0 (actor_ctx a)"
  shows "good (ctx0\<lparr>disposing := True\<rparr>) (actor_ctx (dispose H code a))"
proof (cases "disposing (actor_ctx a)")
  case True
  then show ?thesis using assms owned_True by (auto simp: dispose_def good_def)
next
  case False
  then show ?thesis
    using good_dispose_room [of ctx0 "(actor_room a, actor_ctx a)" code] assms
    by (simp add: dispose_def split_def)
qed

lemma good_edit_state:
  assumes "good ctx0 ctx"
  shows "good ctx0 (snd (edit_state path edit ctx))"
proof (cases "state_slot ctx")
  case None
  then show ?thesis using assms by (simp add: edit_state_def)
next
  case (Some slot)
  then have "wf_slot slot" using ctx_okD(1) [OF goodD(1) [OF assms]] by simp
  then show ?thesis
    using wf_slot_edit [of slot path edit] assms
    by (simp add: edit_state_def Some split_def good_state_slot)
qed

lemma good_handle_event:
  assumes "good ctx0 (actor_ctx a)" and "\<And>c. event_ref ev = Some c \<Longrightarrow> c < next_ref ctx0"
    and "\<And>c token. ev = Connect c token \<Longrightarrow> fresh c (actor_ctx a)"
  shows "good (if fst (fst (handle_event H ev a)) = Break then ctx0\<lparr>disposing := True\<rparr> else ctx0)
    (actor_ctx (snd (handle_event H ev a)))"
proof (cases ev)
  case (ReserveSeat sid options auth)
  then show ?thesis
    using good_on_reserve_seat [of ctx0 "(actor_room a, actor_ctx a)"] assms(1)
    by (simp add: handle_event_def split_def)
next
  case (Connect c token_opt)
  then show ?thesis
    using good_on_connect [of ctx0 "(actor_room a, actor_ctx a)" c] assms(1,3)
    by (simp add: handle_event_def split_def)
next
  case (Message c msg)
  then show ?thesis
    using good_on_client_message [of ctx0 "(actor_room a, actor_ctx a)" c] assms(1,2)
    by (simp add: handle_event_def)
next
  case (Disconnected c code)
  then show ?thesis
    using good_on_disconnected [of ctx0 "(actor_room a, actor_ctx a)" c] assms(1,2)
    by (simp add: handle_event_def)
next
  case (Command h)
  then show ?thesis
    using hook_good(14) [of ctx0 "(actor_room a, actor_ctx a)"] assms(1) by (simp add: handle_event_def)
next
  case (CallRoomRpc h)
  then show ?thesis
    using hook_good(15) [of ctx0 "(actor_room a, actor_ctx a)"] assms(1)
    by (simp add: handle_event_def split_def)
next
  case (EditState path edit)
  then show ?thesis
    using good_edit_state [OF assms(1)] by (simp add: handle_event_def split_def)
qed (use assms(1) in \<open>simp_all add: handle_event_def kick_def admin_message_def good_local_ops good_dispose
      split: option.split\<close>)

lemma good_maybe_auto_save: "good ctx0 (actor_ctx a) \<Longrightarrow> good ctx0 (actor_ctx (maybe_auto_save a))"
  by (simp add: maybe_auto_save_def Let_def split: option.split)

lemma good_patch_tick:
  assumes "good ctx0 (actor_ctx a)"
  shows "good ctx0 (actor_ctx (patch_tick a))"
proof -
  define ctx1 where "ctx1 = (if sim_interval (actor_ctx a) = None
    then (actor_ctx a)\<lparr>clock := clock_tick (now (actor_ctx a)) (clock (actor_ctx a))\<rparr> else actor_ctx a)"
  have "good ctx0 ctx1" using assms by (simp add: ctx1_def)
  then have "good ctx0 (snd (broadcast_patch ctx1))" by (rule good_local_ops(5))
  moreover have "patch_tick a = (if fst (broadcast_patch ctx1)
      then maybe_auto_save (a\<lparr>actor_ctx := snd (broadcast_patch ctx1)\<rparr>)
      else a\<lparr>actor_ctx := snd (broadcast_patch ctx1)\<rparr>)"
    unfolding ctx1_def by (simp add: patch_tick_def Let_def split_def)
  ultimately show ?thesis by (simp add: good_maybe_auto_save)
qed

lemma good_sim_tick: "good ctx0 (actor_ctx a) \<Longrightarrow> good ctx0 (actor_ctx (sim_tick H a))"
  by (simp add: sim_tick_def Let_def hook_good)

lemma good_after_branch:
  "good ctx0 (actor_ctx a)
     \<Longrightarrow> good (if fst (after_branch H a) = Break then ctx0\<lparr>disposing := True\<rparr> else ctx0)
           (actor_ctx (snd (after_branch H a)))"
  by (simp add: after_branch_def good_dispose split: option.split)

end

section \<open>Turns and reachable states\<close>

definition actor_ok :: "('r, 's, 'i, 'h) RoomActor \<Rightarrow> bool" where
  "actor_ok a \<longleftrightarrow> ctx_ok (actor_ctx a) \<and> (\<forall>c \<in> set (mail_refs (actor_ctx a)). c < next_ref (actor_ctx a))"

lemma actor_ok_good: "actor_ok a \<Longrightarrow> good (actor_ctx a) (actor_ctx b) \<Longrightarrow> actor_ok b"
  by (simp add: actor_ok_def good_def)

lemma sync_intervals_ctx [simp]: "actor_ctx (sync_intervals a) = actor_ctx a"
  by (simp add: sync_intervals_def Let_def)

lemma pop_ok:
  assumes "actor_ok a" and "sender (actor_ctx a) = Some (ev # rest)"
  defines "a' \<equiv> a\<lparr>actor_ctx := (actor_ctx a)\<lparr>sender := Some rest\<rparr>\<rparr>"
  shows "actor_ok a'" and "event_ref ev = Some c \<Longrightarrow> c < next_ref (actor_ctx a)"
    and "ev = Connect c token \<Longrightarrow> fresh c (actor_ctx a')"
  using assms(1,2)
  by (auto simp: a'_def actor_ok_def ctx_ok_defs connecting_def mail_refs_def fresh_def List.map_filter_simps
      split: option.splits)

text \<open>An event that another task sends to the mailbox.\<close>

definition post :: "'h RoomEvent \<Rightarrow> ('r, 's, 'i, 'h) RoomActor \<Rightarrow> ('r, 's, 'i, 'h) RoomActor" where
  "post ev a =
     a\<lparr>actor_ctx := (actor_ctx a)\<lparr>sender := map_option (\<lambda>q. q @ [ev]) (sender (actor_ctx a))\<rparr>\<rparr>"

text \<open>A new socket: a fresh client handle, and the request to connect it.\<close>

definition arrive ::
  "string \<Rightarrow> string \<Rightarrow> string option \<Rightarrow> ('r, 's, 'i, 'h) RoomActor \<Rightarrow> ('r, 's, 'i, 'h) RoomActor" where
  "arrive conn sid token_opt a =
     (let ctx = actor_ctx a; c = next_ref ctx
      in post (Connect c token_opt)
           (a\<lparr>actor_ctx := ctx\<lparr>store := (store ctx)(c := client_new (now ctx) conn sid), next_ref := c + 1\<rparr>\<rparr>))"

text \<open>
  The steps of a room: turns of its own interleaved with time, events posted by other
  tasks, new sockets, sockets whose writer ends, and whatever the other rooms do to the
  driver (not to this room's listing), the presence and the lobby.
\<close>

inductive room_step :: "('r, 's, 'i, 'h) RoomHooks \<Rightarrow> ('r, 's, 'i, 'h) RoomActor \<Rightarrow> ('r, 's, 'i, 'h) RoomActor \<Rightarrow> bool"
  for H where
  turn: "run_turn H a = Some (Continue, res, a') \<Longrightarrow> room_step H a a'"
| time: "now (actor_ctx a) \<le> t \<Longrightarrow> room_step H a (a\<lparr>actor_ctx := (actor_ctx a)\<lparr>now := t, wall := w\<rparr>\<rparr>)"
| posted: "connect_ref ev = None \<Longrightarrow> (\<And>c. event_ref ev = Some c \<Longrightarrow> c < next_ref (actor_ctx a))
    \<Longrightarrow> room_step H a (post ev a)"
| socket: "room_step H a (arrive conn sid token_opt a)"
| writer_ends: "room_step H a (a\<lparr>actor_ctx := on_client c (\<lambda>cl. cl\<lparr>tx_open := False\<rparr>) (actor_ctx a)\<rparr>)"
| others: "driver_inv d
    \<Longrightarrow> driver_get (room_id (actor_ctx a)) d = driver_get (room_id (actor_ctx a)) (driver (actor_ctx a))
    \<Longrightarrow> room_step H a (a\<lparr>actor_ctx := (actor_ctx a)\<lparr>driver := d, presence := ps, lobby_tx := lb\<rparr>\<rparr>)"

text \<open>The states of a room, spawned or restored, that its steps lead to.\<close>

inductive reach :: "('r, 's, 'i, 'h) RoomHooks \<Rightarrow> ('r, 's, 'i, 'h) RoomActor \<Rightarrow> bool" for H where
  spawned: "spawn_room H r (room_context_new rid rname pid d ps lb ex per t w g gn st nr) options = Inr (a, l)
    \<Longrightarrow> driver_inv d \<Longrightarrow> reach H a"
| restored: "spawn_restored_room H r (room_context_new rid rname pid d ps lb ex per t w g gn st nr) snap = Inr (a, l)
    \<Longrightarrow> driver_inv d \<Longrightarrow> reach H a"
| step: "reach H a \<Longrightarrow> room_step H a a' \<Longrightarrow> reach H a'"

lemma post_ok:
  assumes "actor_ok a" and "connect_ref ev = None" and "\<And>c. event_ref ev = Some c \<Longrightarrow> c < next_ref (actor_ctx a)"
  shows "actor_ok (post ev a)"
proof (cases "sender (actor_ctx a)")
  case None
  then show ?thesis
    using assms(1) by (simp add: post_def actor_ok_def ctx_ok_defs connecting_def mail_refs_def)
next
  case (Some q)
  have "connecting (actor_ctx (post ev a)) = connecting (actor_ctx a)"
    using assms(2) Some by (simp add: connecting_def post_def List.map_filter_def)
  moreover have "set (mail_refs (actor_ctx (post ev a))) \<subseteq> set (mail_refs (actor_ctx a)) \<union> set_option (event_ref ev)"
    using Some by (auto simp: mail_refs_def post_def List.map_filter_def)
  ultimately show ?thesis
    using assms(1,3) by (auto simp: actor_ok_def ctx_ok_defs post_def)
qed

lemma ctx_ok_arrive:
  assumes "ctx_ok ctx" and "connecting ctx' = connecting ctx @ cs" and "set cs \<subseteq> {next_ref ctx}" "distinct cs"
    and "ctx' = ctx\<lparr>store := st, next_ref := Suc (next_ref ctx), sender := q\<rparr>"
  shows "ctx_ok ctx'"
proof -
  have "clients ctx' = clients ctx" "next_ref ctx' = Suc (next_ref ctx)" "reconnections ctx' = reconnections ctx"
    using assms(5) by simp_all
  moreover have "next_ref ctx \<notin> set (clients ctx @ connecting ctx)"
    using assms(1) by (auto simp: ctx_ok_defs)
  ultimately have "refs_ok ctx'"
    using assms(1-4) by (auto simp: ctx_ok_defs less_Suc_eq)
  then show ?thesis
    using assms(1) unfolding assms(5) by (simp add: ctx_ok_def maps_ok_def slot_ok_def timers_ok_def)
qed

lemma arrive_ok:
  assumes "actor_ok a"
  shows "actor_ok (arrive conn sid token_opt a)"
proof -
  let ?ctx = "actor_ctx (arrive conn sid token_opt a)"
  let ?cs = "if sender (actor_ctx a) = None then [] else [next_ref (actor_ctx a)]"
  have e: "?ctx = (actor_ctx a)\<lparr>store := (store (actor_ctx a))(next_ref (actor_ctx a) :=
        client_new (now (actor_ctx a)) conn sid), next_ref := Suc (next_ref (actor_ctx a)),
      sender := map_option (\<lambda>q. q @ [Connect (next_ref (actor_ctx a)) token_opt]) (sender (actor_ctx a))\<rparr>"
    by (simp add: arrive_def Let_def post_def)
  have refs: "connecting ?ctx = connecting (actor_ctx a) @ ?cs" "mail_refs ?ctx = mail_refs (actor_ctx a) @ ?cs"
    by (auto simp: e connecting_def mail_refs_def List.map_filter_def split: option.split)
  have "ctx_ok ?ctx"
    using assms by (intro ctx_ok_arrive [OF _ refs(1) _ _ e]) (simp_all add: actor_ok_def)
  moreover have "next_ref ?ctx = Suc (next_ref (actor_ctx a))" by (simp add: e)
  moreover have "c < Suc (next_ref (actor_ctx a))" if "c \<in> set (mail_refs (actor_ctx a) @ ?cs)" for c
    using that assms by (auto simp: actor_ok_def less_Suc_eq split: if_splits)
  ultimately show ?thesis
    unfolding actor_ok_def refs(2) by simp
qed

text \<open>Spawning.\<close>

lemma ctx_ok_new:
  "driver_inv d \<Longrightarrow> ctx_ok (room_context_new rid rname pid d ps lb ex per t w g gn st nr)"
  "connecting (room_context_new rid rname pid d ps lb ex per t w g gn st nr) = []"
  by (simp_all add: ctx_ok_defs connecting_def room_context_new_def)

lemma ctx_ok_options [simp]:
  "ctx_ok (ctx\<lparr>create_options := opt\<rparr>) \<longleftrightarrow> ctx_ok ctx" "ctx_ok (ctx\<lparr>schema_version := v\<rparr>) \<longleftrightarrow> ctx_ok ctx"
  by (simp_all add: ctx_ok_defs connecting_def)

lemma sender_free_options [simp]:
  "mail_refs (ctx\<lparr>schema_version := v\<rparr>) = mail_refs ctx" "connecting (ctx\<lparr>schema_version := v\<rparr>) = connecting ctx"
  by (simp_all add: mail_refs_def connecting_def)

definition spawning :: "('s, 'i, 'h) RoomContext \<Rightarrow> bool" where
  "spawning ctx \<longleftrightarrow> ctx_ok ctx \<and> connecting ctx = [] \<and> mail_refs ctx = []"

lemma spawning_set_sender [simp]: "ctx_ok ctx \<Longrightarrow> connecting ctx = [] \<Longrightarrow> spawning (set_sender [] ctx)"
  by (simp add: spawning_def set_sender_def ctx_ok_defs connecting_def mail_refs_def List.map_filter_def)

lemma spawning_api: "spawning ctx \<Longrightarrow> api ctx ctx' \<Longrightarrow> spawning ctx'"
  using api_frame [of ctx ctx'] ctx_ok_api [of ctx ctx'] by (simp add: spawning_def)

lemma spawning_restore_reconnection: "spawning ctx \<Longrightarrow> spawning (restore_reconnection r ctx)"
proof -
  assume s: "spawning ctx"
  let ?ctx = "restore_reconnection r ctx"
  obtain cl e seat where e: "?ctx = ctx\<lparr>gen_next := gen_next ctx + 1, next_ref := Suc (next_ref ctx),
      store := (store ctx)(next_ref ctx := cl),
      reconnections := AList.update (pr_token r) e (reconnections ctx),
      reserved_seats := AList.update (pr_session_id r) seat (reserved_seats ctx),
      clients := clients ctx @ [next_ref ctx]\<rparr>" and re: "re_client e = next_ref ctx"
    by (simp add: restore_reconnection_def generate_id_def Let_def)
  have "\<forall>(t, e') \<in> set (AList.update (pr_token r) e (reconnections ctx)). re_client e' < Suc (next_ref ctx)"
    using set_update_subset [of "pr_token r" e "reconnections ctx"] s re
    by (auto simp: spawning_def dest!: ctx_okD(3) intro: less_SucI)
  then show ?thesis
    using s by (auto simp: e spawning_def ctx_ok_defs connecting_def mail_refs_def distinct_update less_Suc_eq)
qed

lemma spawning_restore_seat: "spawning ctx \<Longrightarrow> spawning (restore_seat x ctx)"
  by (simp add: spawning_def restore_seat_def ctx_ok_seats distinct_update ctx_ok_facts)

lemma spawning_fold: "(\<And>x ctx. spawning ctx \<Longrightarrow> spawning (f x ctx)) \<Longrightarrow> spawning ctx \<Longrightarrow> spawning (fold f xs ctx)"
  by (induction xs arbitrary: ctx) simp_all

lemma spawning_apply_snapshot: "spawning ctx \<Longrightarrow> spawning (apply_snapshot snap ctx)"
  unfolding apply_snapshot_def
proof (intro spawning_fold [OF spawning_restore_seat] spawning_fold [OF spawning_restore_reconnection])
  let ?ctx = "ctx\<lparr>created_at := s_created_at snap, clock := clock_restore (now ctx) (from_millis (s_clock_elapsed_ms snap)),
            metadata := s_metadata snap, locked := s_locked snap, is_private := s_private snap,
            max_clients := s_max_clients snap, filter_extra := s_filter_extra snap,
            create_options := s_options snap, reconnections := [], reserved_seats := [], clients := []\<rparr>"
  assume "spawning ctx"
  moreover have "connecting ?ctx = connecting ctx" "mail_refs ?ctx = mail_refs ctx"
    by (simp_all add: connecting_def mail_refs_def)
  ultimately show "spawning ?ctx"
    by (simp add: spawning_def ctx_ok_defs)
qed

lemma spawning_actor: "spawning (snd rm) \<Longrightarrow> finish_spawn rm = (a, l) \<Longrightarrow> actor_ok a"
  by (auto simp: finish_spawn_def spawning_def actor_ok_def)

text \<open>What a turn keeps of the room and of the driver.\<close>

definition same_room :: "('r, 's, 'i, 'h) RoomActor \<Rightarrow> ('r, 's, 'i, 'h) RoomActor \<Rightarrow> bool" where
  "same_room a b \<longleftrightarrow> room_id (actor_ctx b) = room_id (actor_ctx a) \<and> next_ref (actor_ctx b) = next_ref (actor_ctx a)
     \<and> (disposing (actor_ctx a) \<longrightarrow> disposing (actor_ctx b))
     \<and> owned (disposing (actor_ctx b)) (room_id (actor_ctx a)) (driver (actor_ctx a)) (driver (actor_ctx b))"

lemma same_room_trans: "same_room a b \<Longrightarrow> same_room b c \<Longrightarrow> same_room a c"
  using owned_join [of "disposing (actor_ctx b)" "room_id (actor_ctx a)" "driver (actor_ctx a)" "driver (actor_ctx b)"
      "disposing (actor_ctx c)" "driver (actor_ctx c)"]
  by (simp add: same_room_def)

text \<open>The branches of a turn: an event, or one of the timed ones.\<close>

lemma run_turn_cases:
  assumes "run_turn H a0 = Some (fl, res, a')"
  obtains (event) ev rest fl1 a1 where
      "sender (actor_ctx a0) = Some (ev # rest)"
      "handle_event H ev ((sync_intervals a0)\<lparr>actor_ctx := (actor_ctx a0)\<lparr>sender := Some rest\<rparr>\<rparr>) = ((fl1, res), a1)"
      "fl1 = Break \<and> fl = Break \<and> a' = a1 \<or> fl1 = Continue \<and> after_branch H a1 = (fl, a')"
    | (timed) b s where
      "b = sim_tick H ((sync_intervals a0)\<lparr>sim := s\<rparr>) \<or> b = patch_tick ((sync_intervals a0)\<lparr>patch := s\<rparr>)
        \<or> b = snd (run_room (\<lambda>rm. ((), handle_deadlines H rm)) (sync_intervals a0))"
      "after_branch H b = (fl, a')"
proof (cases "\<exists>ev rest. sender (actor_ctx a0) = Some (ev # rest)")
  case True
  then obtain ev rest where q: "sender (actor_ctx a0) = Some (ev # rest)" by blast
  let ?a = "(sync_intervals a0)\<lparr>actor_ctx := (actor_ctx a0)\<lparr>sender := Some rest\<rparr>\<rparr>"
  obtain fl1 res1 a1 where h: "handle_event H ev ?a = ((fl1, res1), a1)" by (metis surj_pair)
  show ?thesis
  proof (cases fl1)
    case Break
    then show ?thesis
      using assms event [OF q, of Break a1] h by (simp add: run_turn_def Let_def q)
  next
    case Continue
    then show ?thesis
      using assms event [OF q, of Continue a1] h by (simp add: run_turn_def Let_def q split: prod.splits)
  qed
next
  case False
  then show ?thesis
    using assms timed
    by (auto simp: run_turn_def Let_def split: option.splits list.splits if_splits prod.splits)
qed

context room_type
begin

lemma after_branch_ok:
  assumes "actor_ok a" and "after_branch H a = (fl, a')"
  shows "actor_ok a' \<and> disposing (actor_ctx a') = (disposing (actor_ctx a) \<or> fl = Break) \<and> same_room a a'"
proof -
  have "good (if fl = Break then (actor_ctx a)\<lparr>disposing := True\<rparr> else actor_ctx a) (actor_ctx a')"
    using good_after_branch [of "actor_ctx a" a] good_refl [of "actor_ctx a"] assms
    by (simp add: actor_ok_def)
  then show ?thesis
    using assms(1) by (auto simp: actor_ok_def good_def same_room_def split: if_splits)
qed

text \<open>What a turn hands to its end is as good as what it started from.\<close>

lemma event_ok:
  assumes "actor_ok a0" and "sender (actor_ctx a0) = Some (ev # rest)"
    and "handle_event H ev ((sync_intervals a0)\<lparr>actor_ctx := (actor_ctx a0)\<lparr>sender := Some rest\<rparr>\<rparr>) = ((fl, res), a1)"
  shows "actor_ok a1 \<and> disposing (actor_ctx a1) = (disposing (actor_ctx a0) \<or> fl = Break) \<and> same_room a0 a1
    \<and> queued (Some rest) (sender (actor_ctx a1))"
proof -
  let ?a = "(sync_intervals a0)\<lparr>actor_ctx := (actor_ctx a0)\<lparr>sender := Some rest\<rparr>\<rparr>"
  have "actor_ok (sync_intervals a0)" "sender (actor_ctx (sync_intervals a0)) = Some (ev # rest)"
    using assms(1,2) by (simp_all add: actor_ok_def)
  note pop = pop_ok [OF this, simplified]
  have "good (if fl = Break then (actor_ctx ?a)\<lparr>disposing := True\<rparr> else actor_ctx ?a) (actor_ctx a1)"
    using good_handle_event [of "actor_ctx ?a" ?a ev] pop assms(3) good_refl [of "actor_ctx ?a"]
    by (simp add: actor_ok_def)
  then show ?thesis
    using pop(1) by (auto simp: actor_ok_def good_def same_room_def split: if_splits)
qed

lemma timed_ok:
  assumes "actor_ok a0"
    and "b = sim_tick H ((sync_intervals a0)\<lparr>sim := s\<rparr>) \<or> b = patch_tick ((sync_intervals a0)\<lparr>patch := s\<rparr>)
      \<or> b = snd (run_room (\<lambda>rm. ((), handle_deadlines H rm)) (sync_intervals a0))"
  shows "actor_ok b \<and> disposing (actor_ctx b) = disposing (actor_ctx a0) \<and> same_room a0 b"
proof -
  have "good (actor_ctx a0) (actor_ctx a0)"
    using assms(1) good_refl [of "actor_ctx a0"] by (simp add: actor_ok_def)
  then have "good (actor_ctx a0) (actor_ctx b)"
    using assms(2) by (auto simp: good_sim_tick good_patch_tick good_handle_deadlines)
  then show ?thesis
    using actor_ok_good [OF assms(1), of b] by (simp add: good_def same_room_def)
qed

lemma run_turn_ok:
  assumes "actor_ok a0" and "run_turn H a0 = Some (fl, res, a')"
  shows "actor_ok a' \<and> disposing (actor_ctx a') = (disposing (actor_ctx a0) \<or> fl = Break) \<and> same_room a0 a'"
  using assms(2)
proof (cases rule: run_turn_cases)
  case (event ev rest fl1 a1)
  then show ?thesis
    using event_ok [OF assms(1) event(1,2)] after_branch_ok [of a1 fl a'] same_room_trans [of a0 a1 a'] by auto
next
  case (timed b s)
  then show ?thesis
    using timed_ok [OF assms(1) timed(1)] after_branch_ok [of b fl a'] same_room_trans [of a0 b a'] by auto
qed

lemma spawn_room_ok:
  assumes "spawn_room H r ctx options = Inr (a, l)" and "ctx_ok ctx" and "connecting ctx = []"
  shows "actor_ok a"
proof -
  let ?ctx1 = "set_sender [] (ctx\<lparr>create_options := options\<rparr>)"
  obtain res r' ctx2 where h: "on_create H options (r, ?ctx1) = (res, (r', ctx2))" by (metis surj_pair)
  have s1: "spawning ?ctx1"
    using assms(2,3) by (intro spawning_set_sender) (simp_all add: connecting_def)
  then have "spawning ctx2"
    using spawning_api [OF s1] create_api [of "(r, ?ctx1)" options] h by (simp add: spawning_def)
  then have "spawning (ctx2\<lparr>schema_version := v\<rparr>)" for v by (simp add: spawning_def)
  then show ?thesis
    using assms(1) h spawning_actor [of "(r', ctx2\<lparr>schema_version := room_schema_version H r'\<rparr>)" a l]
    by (auto simp: spawn_room_def Let_def split: sum.splits)
qed

lemma spawn_restored_room_ok:
  assumes "spawn_restored_room H r ctx snap = Inr (a, l)" and "ctx_ok ctx" and "connecting ctx = []"
  shows "actor_ok a"
proof -
  obtain res r1 ctx1 where h: "on_create H (s_options snap) (r, set_sender [] ctx) = (res, (r1, ctx1))"
    by (metis surj_pair)
  have s0: "spawning (set_sender [] ctx)" using assms(2,3) by (rule spawning_set_sender)
  then have s1: "spawning ctx1"
    using spawning_api [OF s0] create_api [of "(r, set_sender [] ctx)" "s_options snap"] h
    by (simp add: spawning_def)
  have s3: "spawning ctx3" if "on_restore H sn (r2, ctx1) = (x, (r3, ctx3))" for sn r2 x r3 ctx3
    using spawning_api [OF s1] restore_api [of "(r2, ctx1)" sn] that s1 by (simp add: spawning_def)
  have "\<exists>r3 ctx3 sn v. finish_spawn (r3, (apply_snapshot sn ctx3)\<lparr>schema_version := v\<rparr>) = (a, l) \<and> spawning ctx3"
    using assms(1) s3
    by (auto simp: spawn_restored_room_def h Let_def split: sum.splits prod.splits if_splits) blast+
  then obtain r3 ctx3 sn v where f: "finish_spawn (r3, (apply_snapshot sn ctx3)\<lparr>schema_version := v\<rparr>) = (a, l)"
    and "spawning ctx3" by blast
  then have "spawning ((apply_snapshot sn ctx3)\<lparr>schema_version := v\<rparr>)"
    using spawning_apply_snapshot [of ctx3 sn] by (simp add: spawning_def)
  then show ?thesis using spawning_actor [OF _ f] by simp
qed

lemma room_step_ok: "room_step H a a' \<Longrightarrow> actor_ok a \<Longrightarrow> actor_ok a'"
proof (induction rule: room_step.induct)
  case (turn a res a')
  then show ?case using run_turn_ok [of a Continue res a'] by simp
next
  case (posted ev a)
  then show ?case using post_ok by blast
next
  case (socket a conn sid token_opt)
  then show ?case using arrive_ok by blast
next
  case (others d a lb ps)
  then have "ctx_ok ((actor_ctx a)\<lparr>driver := d\<rparr>)" by (simp add: actor_ok_def)
  then have "ctx_ok ((actor_ctx a)\<lparr>driver := d, presence := ps, lobby_tx := lb\<rparr>)"
    by (simp add: ctx_ok_defs connecting_def)
  then show ?case using others by (simp add: actor_ok_def mail_refs_def)
qed (simp_all add: actor_ok_def mail_refs_def)

lemma reach_actor_ok: "reach H a \<Longrightarrow> actor_ok a"
proof (induction rule: reach.induct)
  case (spawned r rid rname pid d ps lb ex per t w g gn st nr options a l)
  then show ?case using spawn_room_ok [OF spawned(1) ctx_ok_new(1) ctx_ok_new(2)] by simp
next
  case (restored r rid rname pid d ps lb ex per t w g gn st nr snap a l)
  then show ?case using spawn_restored_room_ok [OF restored(1) ctx_ok_new(1) ctx_ok_new(2)] by simp
next
  case (step a a')
  then show ?case using room_step_ok by blast
qed

end

interpretation default_room: room_type default_hooks
  by unfold_locales (simp_all add: default_hooks_def)

end
