(* ===== verification/Room_Life.thy ===== *)
theory Room_Life
  imports Room_Reach
begin

text \<open>
  The life of a room from its first to its last turn: what holds in every reachable state,
  and what is left of the room when the loop of the actor ends.
\<close>

section \<open>Before the end\<close>

lemma armed_simps [simp]:
  "on_dispose_armed (snd (run_room f a)) = on_dispose_armed a"
  "on_dispose_armed (sync_intervals a) = on_dispose_armed a"
  "on_dispose_armed (sim_tick H a) = on_dispose_armed a"
  "on_dispose_armed (maybe_auto_save a) = on_dispose_armed a"
  "on_dispose_armed (patch_tick a) = on_dispose_armed a"
  by (simp_all add: run_room_def sync_intervals_def sim_tick_def maybe_auto_save_def patch_tick_def Let_def
      split: prod.split option.split)

lemma armed_handle_event:
  "fst (fst (handle_event H ev a)) = Continue \<Longrightarrow> on_dispose_armed (snd (handle_event H ev a)) = on_dispose_armed a"
  by (cases ev) (simp_all add: handle_event_def)

lemma armed_after_branch:
  "fst (after_branch H a) = Continue \<Longrightarrow> on_dispose_armed (snd (after_branch H a)) = on_dispose_armed a"
  by (simp add: after_branch_def split: option.splits if_splits)

lemma armed_run_turn:
  assumes "run_turn H a = Some (Continue, res, a')"
  shows "on_dispose_armed a' = on_dispose_armed a"
proof -
  have "on_dispose_armed b' = on_dispose_armed b" if "after_branch H b = (Continue, b')" for b b'
    using armed_after_branch [of H b] that by simp
  moreover have "on_dispose_armed b' = on_dispose_armed b"
    if "handle_event H ev b = ((Continue, res), b')" for ev b res b'
    using armed_handle_event [of H ev b] that by simp
  ultimately show ?thesis
    using assms
    by (fastforce simp: run_turn_def Let_def split: option.splits list.splits if_splits prod.splits Flow.splits)
qed

lemma disposing_simps [simp]:
  "disposing (set_sender q ctx) = disposing ctx" "disposing (restore_reconnection r ctx) = disposing ctx"
  "disposing (restore_seat x ctx) = disposing ctx"
  by (simp_all add: set_sender_def restore_reconnection_def restore_seat_def generate_id_def Let_def)

lemma field_fold: "(\<And>x ctx. g (f x ctx) = g ctx) \<Longrightarrow> g (fold f xs ctx) = g ctx"
  by (induction xs arbitrary: ctx) simp_all

lemma disposing_apply_snapshot [simp]: "disposing (apply_snapshot snap ctx) = disposing ctx"
  by (simp add: apply_snapshot_def field_fold [of disposing])

text \<open>A room whose loop still runs is not disposing, and its clean-up callback is due.\<close>

context room_type
begin

lemma spawn_room_open:
  assumes "spawn_room H r ctx options = Inr (a, l)" and "ctx_ok ctx" and "\<not> disposing ctx" and "connecting ctx = []"
  shows "\<not> disposing (actor_ctx a) \<and> on_dispose_armed a"
proof -
  let ?ctx1 = "set_sender [] (ctx\<lparr>create_options := options\<rparr>)"
  have "ctx_ok ?ctx1"
    using assms(2,4) spawning_set_sender [of "ctx\<lparr>create_options := options\<rparr>"]
    by (simp add: spawning_def connecting_def)
  then have "api ?ctx1 (snd (snd (on_create H options (r, ?ctx1))))"
    using create_api [of "(r, ?ctx1)"] by simp
  then have "disposing (snd (snd (on_create H options (r, ?ctx1)))) = disposing ctx"
    using api_frame(3) by fastforce
  then show ?thesis
    using assms(1,3) by (auto simp: spawn_room_def Let_def finish_spawn_def split: prod.splits sum.splits)
qed

lemma spawn_restored_open:
  assumes "spawn_restored_room H r ctx snap = Inr (a, l)" and "ctx_ok ctx" and "\<not> disposing ctx" and "connecting ctx = []"
  shows "\<not> disposing (actor_ctx a) \<and> on_dispose_armed a"
proof -
  have ok0: "ctx_ok (set_sender [] ctx)"
    using assms(2,4) spawning_set_sender [of ctx] by (simp add: spawning_def)
  then have api1: "api (set_sender [] ctx) (snd (snd (on_create H (s_options snap) (r, set_sender [] ctx))))"
    using create_api [of "(r, set_sender [] ctx)"] by simp
  obtain res r1 ctx1 where h: "on_create H (s_options snap) (r, set_sender [] ctx) = (res, (r1, ctx1))"
    by (metis surj_pair)
  have d1: "\<not> disposing ctx1" and ok1: "ctx_ok ctx1"
    using api_frame(3) [OF api1] ctx_ok_api [OF api1 ok0] assms(3) by (simp_all add: h)
  have "\<not> disposing ctx3" if "on_restore H sn (r2, ctx1) = (x, (r3, ctx3))" for sn r2 x r3 ctx3
    using restore_api [of "(r2, ctx1)" sn] that ok1 d1 api_frame(3) [of ctx1 ctx3] by simp
  then show ?thesis
    using assms(1)
    by (auto simp: spawn_restored_room_def h Let_def finish_spawn_def split: sum.splits prod.splits if_splits)
qed

lemma room_step_open:
  "room_step H a a' \<Longrightarrow> actor_ok a \<Longrightarrow> \<not> disposing (actor_ctx a) \<and> on_dispose_armed a
     \<Longrightarrow> \<not> disposing (actor_ctx a') \<and> on_dispose_armed a'"
proof (induction rule: room_step.induct)
  case (turn a res a')
  then show ?case using run_turn_ok [OF _ turn(1)] armed_run_turn [OF turn(1)] by simp
qed (simp_all add: post_def arrive_def Let_def)

lemma reach_open: "reach H a \<Longrightarrow> \<not> disposing (actor_ctx a) \<and> on_dispose_armed a"
proof (induction rule: reach.induct)
  case (spawned r rid rname pid d ps lb ex per t w g gn st nr options a l)
  then show ?case using spawn_room_open [OF spawned(1) ctx_ok_new(1) _ ctx_ok_new(2)]
    by (simp add: room_context_new_def)
next
  case (restored r rid rname pid d ps lb ex per t w g gn st nr snap a l)
  then show ?case using spawn_restored_open [OF restored(1) ctx_ok_new(1) _ ctx_ok_new(2)]
    by (simp add: room_context_new_def)
next
  case (step a a')
  then show ?case using room_step_open reach_actor_ok by blast
qed

end

section \<open>The end\<close>

text \<open>Nobody is left, and nothing is promised to anybody.\<close>

definition vacant :: "('s, 'i, 'h) RoomContext \<Rightarrow> bool" where
  "vacant ctx \<longleftrightarrow> disposing ctx \<and> clients ctx = [] \<and> reserved_seats ctx = [] \<and> reconnections ctx = []"

lemma vacant_quiet: "quiet_step ctx ctx' \<Longrightarrow> vacant ctx \<Longrightarrow> vacant ctx'"
proof (induction rule: quiet_step.induct)
  case (q_broadcast ctx t p opts)
  then show ?case by (simp add: vacant_def traffic_frame [OF traffic_broadcast(1)])
next
  case (q_broadcast_bytes ctx t bs)
  then show ?case by (simp add: vacant_def traffic_frame [OF traffic_broadcast(2)])
next
  case (q_broadcast_patch ctx)
  then show ?case by (simp add: vacant_def traffic_frame [OF traffic_broadcast_patch])
qed (simp_all add: vacant_def set_state_def state_mut_def set_internal_def internal_mut_def clear_internal_def
    disable_persistence_def persist_now_def restore_state_def restore_internal_def set_view_filter_def
    clear_view_filter_def on_message_def on_any_message_def on_message_bytes_def set_timeout_def
    clear_timeout_def set_simulation_interval_def set_patch_rate_def room_lock_def room_unlock_def
    set_private_def set_metadata_def disconnect_def generate_id_def client_send_def client_send_bytes_def
    remove_client_def Let_def tap_log_def sender_send_def split: option.split sum.split prod.split)

lemma vacant_api: "api ctx ctx' \<Longrightarrow> vacant ctx \<Longrightarrow> vacant ctx'"
  unfolding api_def
proof (induction rule: rtranclp_induct)
  case (step y z)
  have "vacant z" if "api_step y z" "vacant y"
    using that by (cases rule: api_step.cases)
      (auto simp: vacant_quiet set_max_clients_def allow_reconnection_def, simp_all add: vacant_def)
  then show ?case using step by simp
qed simp

text \<open>What \<^verbatim>\<open>dispose\<close> leaves behind.\<close>

definition gone :: "string \<Rightarrow> ('s, 'i, 'h) RoomContext \<Rightarrow> bool" where
  "gone rid ctx \<longleftrightarrow> vacant ctx \<and> driver_get rid (driver ctx) = None
     \<and> (\<exists>es. lobby_tx ctx = es @ [RoomRemoved rid])"

context room_type
begin

lemma dispose_room_gone:
  assumes "ctx_ok (snd rm)"
  shows "gone (room_id (snd rm)) (snd (dispose_room H code rm))"
proof -
  let ?ctx1 = "(snd rm)\<lparr>disposing := True, request_dispose := None\<rparr>"
  let ?ctx2 = "final_snapshot ?ctx1"
  define ctx4 where "ctx4 = (fold (\<lambda>c. on_client c (\<lambda>cl. client_leave (Some code) (Some ''room disposed'')
      (set_client_state Closed cl))) (clients ?ctx2) (?ctx2\<lparr>clients := []\<rparr>))\<lparr>reserved_seats := [], reconnections := []\<rparr>"
  have g2: "good ?ctx1 ?ctx2"
    using assms by (intro good_final_snapshot good_refl) simp
  then have "good ?ctx1 (?ctx2\<lparr>clients := []\<rparr>)" by (simp add: good_clients)
  moreover have "good ?ctx1 (fold (\<lambda>c. on_client c f) cs ctx)" if "good ?ctx1 ctx" for f cs ctx
    using that by (induction cs arbitrary: ctx) simp_all
  ultimately have g4: "good ?ctx1 ctx4"
    by (simp add: ctx4_def good_seats good_delete_reconnection)
  have "clients (fold (\<lambda>c. on_client c f) cs ctx) = clients ctx" for f cs and ctx :: "('s, 'i, 'h) RoomContext"
    by (induction cs arbitrary: ctx) simp_all
  then have v4: "vacant ctx4" using g4 by (simp add: vacant_def good_def ctx4_def)
  define rm5 where "rm5 = on_dispose H (fst rm, ctx4)"
  have "api ctx4 (snd rm5)"
    using dispose_api [of "(fst rm, ctx4)"] goodD(1) [OF g4] by (simp add: rm5_def)
  then have v5: "vacant (snd rm5)" and "room_id (snd rm5) = room_id (snd rm)"
    using vacant_api [OF _ v4] api_frame(1) [of ctx4 "snd rm5"] g4 by (simp_all add: good_def)
  moreover have "snd (dispose_room H code rm) =
      (tap_log (event_new (wall (snd rm5)) ''sys'' ''dispose'') (snd rm5))
        \<lparr>driver := snd (driver_remove (room_id (snd rm5)) (driver (snd rm5))),
         lobby_tx := lobby_tx (snd rm5) @ [RoomRemoved (room_id (snd rm5))]\<rparr>"
    by (simp add: dispose_room_def Let_def rm5_def ctx4_def) (simp add: tap_log_def)
  ultimately show ?thesis
    by (simp add: gone_def vacant_def)
qed

lemma dispose_gone:
  assumes "actor_ok a" and "\<not> disposing (actor_ctx a)"
  shows "gone (room_id (actor_ctx a)) (actor_ctx (dispose H code a)) \<and> \<not> on_dispose_armed (dispose H code a)"
  using dispose_room_gone [of "(actor_room a, actor_ctx a)" code] assms
  by (simp add: dispose_def split_def actor_ok_def)

lemma break_gone_ok:
  assumes ok: "actor_ok a" and open': "\<not> disposing (actor_ctx a)" and turn: "run_turn H a = Some (Break, res, a')"
  shows "gone (room_id (actor_ctx a)) (actor_ctx a') \<and> \<not> on_dispose_armed a'"
proof -
  have end': "gone (room_id (actor_ctx b)) (actor_ctx a') \<and> \<not> on_dispose_armed a'"
    if br: "after_branch H b = (Break, a')" "actor_ok b" "\<not> disposing (actor_ctx b)" for b
  proof -
    obtain code b' where "a' = dispose H code b'" "b' = b \<or> b' = b\<lparr>actor_ctx := (actor_ctx b)\<lparr>request_dispose := None\<rparr>\<rparr>"
      using br(1) by (cases "request_dispose (actor_ctx b)") (auto simp: after_branch_def split: if_splits)
    then show ?thesis
      using dispose_gone [of b' code] br(2,3) by (auto simp: actor_ok_def)
  qed
  show ?thesis
    using turn
  proof (cases rule: run_turn_cases)
    case (event ev rest fl1 a1)
    show ?thesis
    proof (cases fl1)
      case Continue
      then show ?thesis
        using event_ok [OF ok event(1,2)] event(3) end' [of a1] open' by (simp add: same_room_def)
    next
      case Break
      let ?b = "(sync_intervals a)\<lparr>actor_ctx := (actor_ctx a)\<lparr>sender := Some rest\<rparr>\<rparr>"
      obtain code where "a1 = dispose H code ?b"
        using event(2) Break by (cases ev) (auto simp: handle_event_def run_room_def split: prod.splits)
      moreover have "actor_ok ?b"
        using pop_ok(1) [of "sync_intervals a" ev rest] ok event(1) by (simp add: actor_ok_def)
      ultimately show ?thesis
        using dispose_gone [of ?b code] event(3) Break open' by simp
    qed
  next
    case (timed b s)
    then show ?thesis
      using timed_ok [OF ok timed(1)] end' [of b] timed open' by (simp add: same_room_def)
  qed
qed

lemma break_gone:
  "reach H a \<Longrightarrow> run_turn H a = Some (Break, res, a')
     \<Longrightarrow> gone (room_id (actor_ctx a)) (actor_ctx a') \<and> \<not> on_dispose_armed a'"
  using break_gone_ok reach_actor_ok reach_open by blast

end

section \<open>The properties\<close>

text \<open>
  C7. Every reachable state of every room is well formed. Whatever the hooks of the room
  do through the public operations, and whatever events, sockets, ticks and deadlines come
  in whatever order: seats, reconnection tokens, view baselines and handlers have distinct
  keys, the state slot holds well-formed values, timer ids are unique, the handles of the
  room and of the sockets still connecting are distinct live handles, the driver is
  consistent, and a room whose loop still runs is not disposing and has its clean-up
  callback left.
\<close>

theorem reachable_room_ok:
  assumes "room_type H" and "reach H a"
  shows "ctx_ok (actor_ctx a) \<and> (\<forall>c \<in> set (mail_refs (actor_ctx a)). c < next_ref (actor_ctx a))
    \<and> \<not> disposing (actor_ctx a) \<and> on_dispose_armed a"
  using room_type.reach_actor_ok [OF assms] room_type.reach_open [OF assms] by (simp add: actor_ok_def)

text \<open>A room of the default hooks, spawned on the sample context.\<close>

definition sample_actor :: "(unit, json, unit, nat) RoomActor" where
  "sample_actor = fst (finish_spawn ((), (set_sender [] (sample_ctx\<lparr>create_options := JNull\<rparr>))\<lparr>schema_version := 1\<rparr>))"

lemma sample_actor_reach: "reach default_hooks sample_actor"
proof -
  have "\<exists>l. spawn_room default_hooks () sample_ctx JNull = Inr (sample_actor, l)"
    by (simp add: spawn_room_def Let_def default_hooks_def sample_actor_def finish_spawn_def)
  then obtain l where "spawn_room default_hooks () sample_ctx JNull = Inr (sample_actor, l)" ..
  from reach.spawned [OF this [unfolded sample_ctx_def] driver_inv_simps(1)] show ?thesis .
qed

theorem reachable_room_ok_witness:
  "ctx_ok (actor_ctx (arrive ''c'' ''s'' None sample_actor))"
  using reachable_room_ok [OF default_room.room_type_axioms reach.step [OF sample_actor_reach room_step.socket]] by blast

text \<open>
  C21. When the loop of the actor ends, the room is gone: however it ended (disposed from
  outside, at its own request, automatically, or by a server shutdown), the last turn
  leaves no clients, seats or reconnections, the listing is out of the driver, the lobby
  was told last, and the matchmaker's clean-up callback has run (it ran once: it is armed
  in every state before).
\<close>

theorem last_turn_disposes:
  assumes "room_type H" and "reach H a" and "run_turn H a = Some (Break, res, a')"
  shows "vacant (actor_ctx a') \<and> driver_get (room_id (actor_ctx a)) (driver (actor_ctx a')) = None
    \<and> (\<exists>es. lobby_tx (actor_ctx a') = es @ [RoomRemoved (room_id (actor_ctx a))])
    \<and> on_dispose_armed a \<and> \<not> on_dispose_armed a'"
  using room_type.break_gone [OF assms] room_type.reach_open [OF assms(1,2)] by (simp add: gone_def)

theorem last_turn_disposes_witness:
  "case run_turn default_hooks (post Shutdown sample_actor) of
     Some (fl, res, a') \<Rightarrow> fl = Break \<and> vacant (actor_ctx a')
   | None \<Rightarrow> False"
proof -
  have "sender (actor_ctx sample_actor) = Some []"
    by (simp add: sample_actor_def finish_spawn_def set_sender_def)
  then have q: "sender (actor_ctx (post Shutdown sample_actor)) = Some [Shutdown]"
    by (simp add: post_def)
  have "reach default_hooks (post Shutdown sample_actor)"
    by (rule reach.step [OF sample_actor_reach room_step.posted]) simp_all
  moreover obtain a' where t: "run_turn default_hooks (post Shutdown sample_actor) = Some (Break, NoResponse, a')"
    by (simp add: run_turn_def Let_def q handle_event_def)
  ultimately show ?thesis
    using last_turn_disposes [OF default_room.room_type_axioms _ t] by simp
qed

end
