(* ===== verification/Roster.thy ===== *)
theory Roster
  imports Room_Life
begin

text \<open>
  Who is in a room, and who is promised a place: the abstract specification of seat
  reservations is a machine on the sessions that are expected and the sessions that are
  in. A room whose hooks do not use reconnections refines it turn by turn, and the
  capacity of a room is a consequence of the abstract machine.
\<close>

section \<open>What public operations do to clients\<close>

text \<open>The identity of a client is fixed and its channel only grows.\<close>

definition cl_le :: "client \<Rightarrow> client \<Rightarrow> bool" where
  "cl_le cl cl' \<longleftrightarrow> session_id cl' = session_id cl \<and> connection_id cl' = connection_id cl
     \<and> (\<exists>out. tx cl' = tx cl @ out)"

definition grows :: "('s, 'i, 'h) RoomContext \<Rightarrow> ('s, 'i, 'h) RoomContext \<Rightarrow> bool" where
  "grows ctx ctx' \<longleftrightarrow> (\<forall>c. cl_le (store ctx c) (store ctx' c))"

lemma cl_le_refl [simp, intro]: "cl_le cl cl"
  by (simp add: cl_le_def)

lemma cl_le_trans: "cl_le a b \<Longrightarrow> cl_le b c \<Longrightarrow> cl_le a c"
  by (auto simp: cl_le_def)

lemma cl_le_ops [simp, intro]:
  "cl_le cl (raw_now f cl)" "cl_le cl (set_user_data v cl)" "cl_le cl (set_client_state s cl)"
  "cl_le cl (client_leave code_opt reason cl)" "cl_le cl (client_error code msg cl)"
  "cl_le cl (cl\<lparr>pending := p\<rparr>)"
  by (auto simp: cl_le_def client_op_defs)

lemma grows_refl [simp, intro]: "grows ctx ctx"
  by (simp add: grows_def)

lemma grows_trans: "grows a b \<Longrightarrow> grows b c \<Longrightarrow> grows a c"
  using cl_le_trans by (fastforce simp: grows_def)

lemma grows_store_eq: "store ctx' = store ctx \<Longrightarrow> grows ctx ctx'"
  by (simp add: grows_def)

lemma grows_store: "grows ctx ctx' \<Longrightarrow> store ctx'' = store ctx' \<Longrightarrow> grows ctx ctx''"
  by (simp add: grows_def)

lemma grows_on_client: "(\<And>cl. cl_le cl (f cl)) \<Longrightarrow> grows ctx (on_client c f ctx)"
  by (simp add: grows_def)

lemma grows_fold: "(\<And>x ctx. grows ctx (f x ctx)) \<Longrightarrow> grows ctx (fold f xs ctx)"
proof (induction xs arbitrary: ctx)
  case (Cons x xs)
  show ?case using grows_trans [OF Cons.prems Cons.IH [OF Cons.prems]] by simp
qed simp

lemma grows_each_client: "(\<And>cl. cl_le cl (f cl)) \<Longrightarrow> grows ctx (each_client p f cs ctx)"
  unfolding each_client_def by (rule grows_fold) (simp add: grows_on_client)

lemma grows_deliver_item: "grows ctx (deliver_item it ctx)"
  by (auto simp: deliver_item_def intro!: grows_on_client grows_each_client
      split: AfterPatchTarget.split option.split)

lemma grows_flush: "grows ctx (flush_after_patch ctx)"
  unfolding flush_after_patch_def
  by (rule grows_trans [OF grows_store_eq grows_fold [OF grows_deliver_item]]) simp

lemma grows_view_step: "grows ctx (snd (view_step f s c (ch, ctx)))"
  by (auto simp: view_step_def Let_def grows_def on_client_def tap_log_def split: option.split)

lemma grows_view_steps: "grows ctx (snd (fold (view_step f s) cs (ch, ctx)))"
proof (induction cs arbitrary: ch ctx)
  case (Cons c cs)
  show ?case
    using grows_trans [OF grows_view_step [of ctx f s c ch] Cons.IH]
    by (cases "view_step f s c (ch, ctx)") auto
qed simp

lemma grows_broadcast_patch: "grows ctx (snd (broadcast_patch ctx))"
proof -
  have "grows ctx (each_client p (raw_now f) cs (tap_log e (ctx\<lparr>state_slot := sl\<rparr>)))" for p f cs e sl
    by (rule grows_trans [OF grows_store_eq grows_each_client]) auto
  moreover have "grows ctx (ctx\<lparr>state_slot := sl\<rparr>)" for sl by (rule grows_store_eq) simp
  ultimately have "grows ctx (snd (broadcast_state ctx))"
    by (simp add: broadcast_state_def Let_def grows_view_steps split: option.split prod.split)
  then show ?thesis unfolding snd_broadcast_patch by (rule grows_trans [OF _ grows_flush])
qed

lemma grows_broadcast: "grows ctx (broadcast_with_options t p opts ctx)" "grows ctx (broadcast_bytes t bs ctx)"
proof -
  have "grows ctx (each_client q (raw_now f) cs (tap_log e ctx))" for q f cs e
    by (rule grows_trans [OF grows_store_eq grows_each_client]) auto
  moreover have "grows ctx (each_client q (raw_now f) cs ctx)" for q f cs
    by (rule grows_each_client) auto
  moreover have "grows ctx (ctx'\<lparr>after_patch := q\<rparr>)" if "store ctx' = store ctx" for ctx' q
    using that by (intro grows_store_eq) simp
  ultimately show "grows ctx (broadcast_with_options t p opts ctx)" "grows ctx (broadcast_bytes t bs ctx)"
    by (auto simp: broadcast_with_options_def broadcast_bytes_def Let_def)
qed

lemma grows_send: "grows ctx (client_send c t v so ctx)" "grows ctx (client_send_bytes c t bs ctx)"
  by (auto simp: grows_def client_send_def client_send_bytes_def send_with_options_def send_bytes_def
      deliver_def Let_def split: prod.split ClientState.split)

lemma sync_listing_store_eq: "store (sync_listing ctx) = store ctx"
  by simp

lemma grows_quiet_step: "quiet_step ctx ctx' \<Longrightarrow> grows ctx ctx'"
proof (induction rule: quiet_step.induct)
  case (q_client ctx c cl')
  then have "cl_le (store ctx c) cl'" by (cases rule: client_api.cases) auto
  then show ?case by (simp add: grows_def)
qed (auto intro: grows_broadcast grows_broadcast_patch grows_send grows_store_eq simp: set_state_def state_mut_def
    set_internal_def internal_mut_def clear_internal_def disable_persistence_def persist_now_def restore_state_def
    restore_internal_def set_view_filter_def clear_view_filter_def on_message_def on_any_message_def
    on_message_bytes_def set_timeout_def clear_timeout_def set_simulation_interval_def set_patch_rate_def
    room_lock_def room_unlock_def set_private_def set_metadata_def disconnect_def generate_id_def
    remove_client_def Let_def tap_log_def sender_send_def split: option.split sum.split prod.split)

text \<open>What public operations do to seats, clients and reconnection entries.\<close>

lemma quiet_step_seats:
  "quiet_step ctx ctx' \<Longrightarrow>
     (clients ctx' = clients ctx \<and> reserved_seats ctx' = reserved_seats ctx \<and> reconnections ctx' = reconnections ctx)
   \<or> (\<exists>sid. clients ctx' = filter (\<lambda>c. session_id (store ctx c) \<noteq> sid) (clients ctx)
        \<and> reserved_seats ctx' = AList.delete sid (reserved_seats ctx)
        \<and> reconnections ctx' = filter (\<lambda>(_, e). re_session_id e \<noteq> sid) (reconnections ctx))"
proof (induction rule: quiet_step.induct)
  case (q_broadcast ctx t p opts)
  show ?case by (simp add: traffic_frame [OF traffic_broadcast(1)])
next
  case (q_broadcast_bytes ctx t bs)
  show ?case by (simp add: traffic_frame [OF traffic_broadcast(2)])
next
  case (q_broadcast_patch ctx)
  show ?case by (simp add: traffic_frame [OF traffic_broadcast_patch])
next
  case (q_remove_client ctx sid)
  show ?case by (rule disjI2, rule exI [of _ sid]) (simp add: remove_client_def)
qed (simp_all add: set_state_def state_mut_def set_internal_def internal_mut_def clear_internal_def
    disable_persistence_def persist_now_def restore_state_def restore_internal_def set_view_filter_def
    clear_view_filter_def on_message_def on_any_message_def on_message_bytes_def set_timeout_def
    clear_timeout_def set_simulation_interval_def set_patch_rate_def room_lock_def room_unlock_def
    set_private_def set_metadata_def disconnect_def generate_id_def client_send_def client_send_bytes_def
    Let_def tap_log_def sender_send_def split: option.split sum.split prod.split)

section \<open>The abstract machine\<close>

record roster =
  expected :: "string set"
  present :: "string list"

definition load :: "roster \<Rightarrow> nat" where
  "load r = card (expected r) + length (present r)"

inductive roster_step :: "nat option \<Rightarrow> roster \<Rightarrow> roster \<Rightarrow> bool" for cap where
  reserve: "(\<And>mx. cap = Some mx \<Longrightarrow> load r < mx) \<Longrightarrow> roster_step cap r (r\<lparr>expected := insert sid (expected r)\<rparr>)"
| admit: "sid \<in> expected r
    \<Longrightarrow> roster_step cap r \<lparr>expected = expected r - {sid}, present = present r @ [sid]\<rparr>"
| withdraw: "roster_step cap r (r\<lparr>expected := expected r - {sid}\<rparr>)"
| depart: "roster_step cap r (r\<lparr>present := filter (\<lambda>s. s \<noteq> sid) (present r)\<rparr>)"
| close: "roster_step cap r \<lparr>expected = {}, present = []\<rparr>"

text \<open>The limit is never exceeded, and the expected sessions stay finitely many.\<close>

definition bounded :: "nat option \<Rightarrow> roster \<Rightarrow> bool" where
  "bounded cap r \<longleftrightarrow> finite (expected r) \<and> (\<forall>mx. cap = Some mx \<longrightarrow> load r \<le> mx)"

lemma bounded_step: "roster_step cap r r' \<Longrightarrow> bounded cap r \<Longrightarrow> bounded cap r'"
proof (induction rule: roster_step.induct)
  case (reserve r sid)
  then show ?case
    by (auto simp: bounded_def load_def card_insert_if Suc_le_eq)
next
  case (admit sid r)
  then have "card (expected r) = Suc (card (expected r - {sid}))"
    by (intro card.remove) (simp_all add: bounded_def)
  then show ?case using admit by (auto simp: bounded_def load_def)
next
  case (withdraw r sid)
  have "card (expected r - {sid}) \<le> card (expected r)"
    using withdraw by (intro card_mono) (auto simp: bounded_def)
  then show ?case using withdraw by (fastforce simp: bounded_def load_def)
next
  case (depart r sid)
  have "load (r\<lparr>present := filter (\<lambda>s. s \<noteq> sid) (present r)\<rparr>) \<le> load r" by (simp add: load_def)
  then show ?case using depart by (auto simp: bounded_def dest: le_trans)
qed (simp add: bounded_def load_def)

lemma bounded_steps: "(roster_step cap)\<^sup>*\<^sup>* r r' \<Longrightarrow> bounded cap r \<Longrightarrow> bounded cap r'"
  by (induction rule: rtranclp_induct) (auto intro: bounded_step)

section \<open>The roster of a room\<close>

definition expected_of :: "(string \<times> ReservedSeat) list \<Rightarrow> string set" where
  "expected_of m = {sid. \<exists>s. map_of m sid = Some s \<and> seat_pending s}"

definition roster_of :: "('s, 'i, 'h) RoomContext \<Rightarrow> roster" where
  "roster_of ctx = \<lparr>expected = expected_of (reserved_seats ctx),
     present = map (\<lambda>c. session_id (store ctx c)) (clients ctx)\<rparr>"

definition plain :: "('s, 'i, 'h) RoomContext \<Rightarrow> bool" where
  "plain ctx \<longleftrightarrow> reconnections ctx = [] \<and> (\<forall>(sid, s) \<in> set (reserved_seats ctx). \<not> waiting_reconnection s)"

lemma expected_of_delete [simp]: "expected_of (AList.delete sid m) = expected_of m - {sid}"
  by (auto simp: expected_of_def delete_conv')

lemma expected_of_update [simp]:
  "expected_of (AList.update sid s m) = (if seat_pending s then insert sid (expected_of m) else expected_of m - {sid})"
  by (auto simp: expected_of_def update_conv')

lemma finite_expected_of [simp]: "finite (expected_of m)"
proof (rule finite_subset)
  show "expected_of m \<subseteq> dom (map_of m)" by (auto simp: expected_of_def)
qed (rule finite_dom_map_of)

lemma pending_seats_card:
  assumes "distinct (map fst (reserved_seats ctx))"
  shows "pending_seats ctx = card (expected_of (reserved_seats ctx))"
proof -
  let ?m = "filter (\<lambda>(_, s). \<not> consumed s \<and> \<not> waiting_reconnection s) (reserved_seats ctx)"
  have "expected_of (reserved_seats ctx) = set (map fst ?m)"
    using assms by (force simp: expected_of_def seat_pending_def dest: map_of_SomeD)
  moreover have "distinct (map fst ?m)" using assms by (rule distinct_map_filter)
  ultimately have "card (expected_of (reserved_seats ctx)) = length (map fst ?m)"
    by (simp only: distinct_card)
  then show ?thesis by (simp add: pending_seats_def)
qed

text \<open>The load of the roster is what the room compares with its limit.\<close>

lemma load_roster_of:
  "ctx_ok ctx \<Longrightarrow> load (roster_of ctx) = length (clients ctx) + pending_seats ctx"
  using pending_seats_card [of ctx] ctx_ok_facts(1) [of ctx] by (simp add: load_def roster_of_def)

section \<open>Following the abstract machine\<close>

definition tracks :: "('s, 'i, 'h) RoomContext \<Rightarrow> ('s, 'i, 'h) RoomContext \<Rightarrow> bool" where
  "tracks ctx0 ctx \<longleftrightarrow> good ctx0 ctx \<and> plain ctx \<and> max_clients ctx = max_clients ctx0
     \<and> (roster_step (max_clients ctx0))\<^sup>*\<^sup>* (roster_of ctx0) (roster_of ctx)"

lemma tracks_refl: "ctx_ok ctx \<Longrightarrow> plain ctx \<Longrightarrow> tracks ctx ctx"
  by (simp add: tracks_def good_refl)

lemma tracks_step:
  assumes "tracks ctx0 ctx" and "good ctx0 ctx'" and "plain ctx'" and "max_clients ctx' = max_clients ctx"
    and "(roster_step (max_clients ctx))\<^sup>*\<^sup>* (roster_of ctx) (roster_of ctx')"
  shows "tracks ctx0 ctx'"
  using assms by (auto simp: tracks_def)

text \<open>Steps that the roster does not see.\<close>

lemma tracks_same:
  assumes "tracks ctx0 ctx" and "good ctx0 ctx'" and "clients ctx' = clients ctx"
    and "reserved_seats ctx' = reserved_seats ctx" and "reconnections ctx' = reconnections ctx"
    and "max_clients ctx' = max_clients ctx" and "\<And>c. session_id (store ctx' c) = session_id (store ctx c)"
  shows "tracks ctx0 ctx'"
  using assms by (simp add: tracks_def plain_def roster_of_def)

lemma tracks_goodD: "tracks ctx0 ctx \<Longrightarrow> good ctx0 ctx"
  by (simp add: tracks_def)

lemma tracks_on_client:
  "tracks ctx0 ctx \<Longrightarrow> (\<And>cl. session_id (f cl) = session_id cl) \<Longrightarrow> tracks ctx0 (on_client c f ctx)"
  by (rule tracks_same) (auto simp: tracks_goodD)

lemma tracks_tap_log [simp]: "tracks ctx0 ctx \<Longrightarrow> tracks ctx0 (tap_log e ctx)"
  by (rule tracks_same) (simp_all add: tracks_goodD)

lemma tracks_sync [simp]: "tracks ctx0 ctx \<Longrightarrow> tracks ctx0 (sync_listing ctx)"
  by (rule tracks_same) (simp_all add: tracks_goodD)

lemma tracks_drop_view [simp]: "tracks ctx0 ctx \<Longrightarrow> tracks ctx0 (drop_view_snapshot sid ctx)"
  by (rule tracks_same [OF _ good_drop_view]) (simp_all add: tracks_goodD drop_view_snapshot_def)

lemma tracks_send_welcome [simp]: "tracks ctx0 ctx \<Longrightarrow> tracks ctx0 (send_welcome k c st ctx)"
  by (rule tracks_same [OF _ good_send_welcome]) (simp_all add: tracks_goodD)

lemma map_filter_session:
  "map f (filter (\<lambda>c. f c \<noteq> sid) cs) = filter (\<lambda>s. s \<noteq> sid) (map f cs)"
  by (induction cs) simp_all

lemma plain_delete: "plain ctx \<Longrightarrow> plain (ctx\<lparr>reserved_seats := AList.delete sid (reserved_seats ctx)\<rparr>)"
  using set_delete_subset [of sid "reserved_seats ctx"] by (auto simp: plain_def)

lemma tracks_depart:
  assumes "tracks ctx0 ctx"
  shows "tracks ctx0 (ctx\<lparr>clients := filter (\<lambda>c. session_id (store ctx c) \<noteq> sid) (clients ctx)\<rparr>)"
proof (rule tracks_step [OF assms])
  let ?ctx' = "ctx\<lparr>clients := filter (\<lambda>c. session_id (store ctx c) \<noteq> sid) (clients ctx)\<rparr>"
  show "good ctx0 ?ctx'" using assms by (simp add: good_clients tracks_goodD)
  show "plain ?ctx'" using assms by (simp add: tracks_def plain_def)
  have "roster_of ?ctx' = (roster_of ctx)\<lparr>present := filter (\<lambda>s. s \<noteq> sid) (present (roster_of ctx))\<rparr>"
    by (simp add: roster_of_def map_filter_session)
  then show "(roster_step (max_clients ctx))\<^sup>*\<^sup>* (roster_of ctx) (roster_of ?ctx')"
    using roster_step.depart by (metis r_into_rtranclp)
qed simp

lemma tracks_withdraw:
  assumes "tracks ctx0 ctx"
  shows "tracks ctx0 (ctx\<lparr>reserved_seats := AList.delete sid (reserved_seats ctx)\<rparr>)"
proof (rule tracks_step [OF assms])
  let ?ctx' = "ctx\<lparr>reserved_seats := AList.delete sid (reserved_seats ctx)\<rparr>"
  show "good ctx0 ?ctx'" using assms by (simp add: good_seats tracks_goodD)
  show "plain ?ctx'" using assms plain_delete [of ctx sid] by (simp add: tracks_def)
  have "roster_of ?ctx' = (roster_of ctx)\<lparr>expected := expected (roster_of ctx) - {sid}\<rparr>"
    by (simp add: roster_of_def)
  then show "(roster_step (max_clients ctx))\<^sup>*\<^sup>* (roster_of ctx) (roster_of ?ctx')"
    using roster_step.withdraw by (metis r_into_rtranclp)
qed simp

lemma quiet_roster_steps:
  assumes "quiet_step ctx ctx'"
  shows "(roster_step cap)\<^sup>*\<^sup>* (roster_of ctx) (roster_of ctx') \<and> (plain ctx \<longrightarrow> plain ctx')
    \<and> load (roster_of ctx') \<le> load (roster_of ctx)"
proof -
  have sid: "session_id (store ctx' c) = session_id (store ctx c)" for c
    using grows_quiet_step [OF assms] by (simp add: grows_def cl_le_def)
  from quiet_step_seats [OF assms] show ?thesis
  proof (elim disjE exE conjE)
    assume "clients ctx' = clients ctx" "reserved_seats ctx' = reserved_seats ctx" "reconnections ctx' = reconnections ctx"
    then show ?thesis by (simp add: roster_of_def sid plain_def)
  next
    fix s
    assume eq: "clients ctx' = filter (\<lambda>c. session_id (store ctx c) \<noteq> s) (clients ctx)"
      "reserved_seats ctx' = AList.delete s (reserved_seats ctx)"
      "reconnections ctx' = filter (\<lambda>(_, e). re_session_id e \<noteq> s) (reconnections ctx)"
    let ?r1 = "(roster_of ctx)\<lparr>expected := expected (roster_of ctx) - {s}\<rparr>"
    have r: "roster_of ctx' = ?r1\<lparr>present := filter (\<lambda>x. x \<noteq> s) (present ?r1)\<rparr>"
      by (simp add: roster_of_def eq sid map_filter_session)
    have "(roster_step cap)\<^sup>*\<^sup>* (roster_of ctx) (roster_of ctx')"
      unfolding r
      by (rule rtranclp.rtrancl_into_rtrancl [OF r_into_rtranclp]) (rule roster_step.withdraw, rule roster_step.depart)
    moreover have "plain ctx \<longrightarrow> plain ctx'"
      using set_delete_subset [of s "reserved_seats ctx"] by (auto simp: plain_def eq)
    moreover have "card (expected (roster_of ctx) - {s}) \<le> card (expected (roster_of ctx))"
      by (intro card_mono) (auto simp: roster_of_def)
    then have "load (roster_of ctx') \<le> load (roster_of ctx)"
      unfolding r load_def by (simp add: add_mono)
    ultimately show ?thesis by blast
  qed
qed

lemma tracks_quiet:
  assumes "tracks ctx0 ctx" and "quiet_api ctx ctx'"
  shows "tracks ctx0 ctx' \<and> load (roster_of ctx') \<le> load (roster_of ctx)"
  using assms(2) unfolding quiet_api_def
proof (induction rule: rtranclp_induct)
  case (step y z)
  then have y: "tracks ctx0 y" "load (roster_of y) \<le> load (roster_of ctx)" by simp_all
  have "good ctx0 z"
    using good_api [OF tracks_goodD [OF y(1)]] step(2) quiet_api_api quiet_apiI by blast
  moreover have "max_clients z = max_clients y" using quiet_step_frame [OF step(2)] by simp
  moreover have "plain z" using quiet_roster_steps [OF step(2)] y(1) by (simp add: tracks_def)
  ultimately have "tracks ctx0 z"
    using tracks_step [OF y(1)] quiet_roster_steps [OF step(2)] by simp
  then show ?case
    using quiet_roster_steps [OF step(2), of None] y(2) by linarith
qed (use assms(1) in simp)

section \<open>Rooms without reconnections\<close>

text \<open>
  Their hooks neither change the limit nor promise reconnections, once the room is set up:
  \<^verbatim>\<open>on_create\<close> may set the limit.
\<close>

definition setup_api :: "('s, 'i, 'h) RoomContext \<Rightarrow> ('s, 'i, 'h) RoomContext \<Rightarrow> bool" where
  "setup_api = (\<lambda>ctx ctx'. quiet_step ctx ctx' \<or> (\<exists>m. ctx' = set_max_clients m ctx))\<^sup>*\<^sup>*"

lemma setup_api_api: "setup_api ctx ctx' \<Longrightarrow> api ctx ctx'"
  unfolding setup_api_def api_def
  by (erule rtranclp_mono [THEN predicate2D, rotated]) (auto intro: api_step.intros)

text \<open>The limit is a \<^verbatim>\<open>u32\<close>, and respected.\<close>

definition fits :: "('s, 'i, 'h) RoomContext \<Rightarrow> bool" where
  "fits ctx \<longleftrightarrow> (\<forall>mx. max_clients ctx = Some mx \<longrightarrow> mx < 2 ^ 32) \<and> bounded (max_clients ctx) (roster_of ctx)"

lemma fits_tracks:
  "tracks ctx0 ctx \<Longrightarrow> fits ctx0 \<Longrightarrow> (\<forall>mx. max_clients ctx = Some mx \<longrightarrow> mx < 2 ^ 32)
     \<and> bounded (max_clients ctx) (roster_of ctx)"
  using bounded_steps [of "max_clients ctx0" "roster_of ctx0" "roster_of ctx"]
  by (simp add: fits_def tracks_def)

locale plain_room =
  fixes H :: "('r, 's, 'i, 'h) RoomHooks"
  assumes create_setup: "ctx_ok (snd rm) \<Longrightarrow> setup_api (snd rm) (snd (snd (on_create H options rm)))"
    and restore_quiet: "ctx_ok (snd rm) \<Longrightarrow> quiet_api (snd rm) (snd (snd (on_restore H snap rm)))"
    and auth_quiet: "ctx_ok (snd rm) \<Longrightarrow> quiet_api (snd rm) (snd (snd (on_auth H options auth rm)))"
    and join_quiet: "ctx_ok (snd rm) \<Longrightarrow> c < next_ref (snd rm)
      \<Longrightarrow> quiet_api (snd rm) (snd (snd (on_join H c options auth_data rm)))"
    and drop_quiet: "ctx_ok (snd rm) \<Longrightarrow> c < next_ref (snd rm) \<Longrightarrow> quiet_api (snd rm) (snd (on_drop H c code rm))"
    and reconnect_quiet: "ctx_ok (snd rm) \<Longrightarrow> c < next_ref (snd rm) \<Longrightarrow> quiet_api (snd rm) (snd (on_reconnect H c rm))"
    and leave_quiet: "ctx_ok (snd rm) \<Longrightarrow> c < next_ref (snd rm) \<Longrightarrow> quiet_api (snd rm) (snd (on_leave H c code rm))"
    and dispose_quiet: "ctx_ok (snd rm) \<Longrightarrow> quiet_api (snd rm) (snd (on_dispose H rm))"
    and tick_quiet: "ctx_ok (snd rm) \<Longrightarrow> quiet_api (snd rm) (snd (on_tick H delta rm))"
    and msg_quiet: "ctx_ok (snd rm) \<Longrightarrow> c < next_ref (snd rm)
      \<Longrightarrow> quiet_api (snd rm) (snd (snd (msg_run H h c payload rm)))"
    and any_quiet: "ctx_ok (snd rm) \<Longrightarrow> c < next_ref (snd rm)
      \<Longrightarrow> quiet_api (snd rm) (snd (snd (any_run H h c t payload rm)))"
    and bytes_quiet: "ctx_ok (snd rm) \<Longrightarrow> c < next_ref (snd rm)
      \<Longrightarrow> quiet_api (snd rm) (snd (snd (bytes_run H h c bs rm)))"
    and timer_quiet: "ctx_ok (snd rm) \<Longrightarrow> quiet_api (snd rm) (snd (timer_run H h rm))"
    and command_quiet: "ctx_ok (snd rm) \<Longrightarrow> quiet_api (snd rm) (snd (command_run H h rm))"
    and rpc_quiet: "ctx_ok (snd rm) \<Longrightarrow> quiet_api (snd rm) (snd (snd (rpc_run H h rm)))"

sublocale plain_room \<subseteq> room_type H
  by unfold_locales (auto intro: setup_api_api quiet_api_api create_setup restore_quiet auth_quiet join_quiet
      drop_quiet reconnect_quiet leave_quiet dispose_quiet tick_quiet msg_quiet any_quiet bytes_quiet timer_quiet
      command_quiet rpc_quiet)

context plain_room
begin

lemma is_room_type: "room_type H"
  by (rule room_type_axioms)

lemmas hook_quiets = restore_quiet auth_quiet join_quiet drop_quiet reconnect_quiet leave_quiet
  dispose_quiet tick_quiet msg_quiet any_quiet bytes_quiet timer_quiet command_quiet rpc_quiet

lemma hook_tracks:
  assumes "tracks ctx0 (snd rm)"
  shows "tracks ctx0 (snd (snd (on_auth H options auth rm)))"
    "load (roster_of (snd (snd (on_auth H options auth rm)))) \<le> load (roster_of (snd rm))"
    "c < next_ref ctx0 \<Longrightarrow> tracks ctx0 (snd (snd (on_join H c options auth_data rm)))"
    "c < next_ref ctx0 \<Longrightarrow> tracks ctx0 (snd (on_drop H c code rm))"
    "c < next_ref ctx0 \<Longrightarrow> tracks ctx0 (snd (on_leave H c code rm))"
    "tracks ctx0 (snd (on_tick H delta rm))"
    "c < next_ref ctx0 \<Longrightarrow> tracks ctx0 (snd (snd (msg_run H h c payload rm)))"
    "c < next_ref ctx0 \<Longrightarrow> tracks ctx0 (snd (snd (any_run H h c t payload rm)))"
    "c < next_ref ctx0 \<Longrightarrow> tracks ctx0 (snd (snd (bytes_run H h c bs rm)))"
    "tracks ctx0 (snd (timer_run H h rm))" "tracks ctx0 (snd (command_run H h rm))"
    "tracks ctx0 (snd (snd (rpc_run H h rm)))"
  using goodD [OF tracks_goodD [OF assms]]
  by (auto intro!: tracks_quiet [OF assms, THEN conjunct1] tracks_quiet [OF assms, THEN conjunct2] hook_quiets)

lemma tracks_on_reserve_seat:
  assumes "tracks ctx0 (snd rm)" and "fits ctx0"
  shows "tracks ctx0 (snd (snd (on_reserve_seat H sid options auth rm)))"
proof (cases "disposing (snd rm) \<or> locked (snd rm) \<or> has_reached_max_clients (snd rm)")
  case True
  then show ?thesis using assms by (simp add: on_reserve_seat_def Let_def)
next
  case False
  have room: "load (roster_of (snd rm)) < mx" if "max_clients ctx0 = Some mx" for mx
    using False that fits_tracks [OF assms] load_roster_of [OF goodD(1) [OF tracks_goodD [OF assms(1)]]] assms(1)
    by (simp add: has_reached_max_clients_def as_u32_def bounded_def tracks_def)
  obtain res rm1 where auth: "on_auth H options auth rm = (res, rm1)" by (cases "on_auth H options auth rm")
  have t1: "tracks ctx0 (snd rm1)" and l1: "load (roster_of (snd rm1)) \<le> load (roster_of (snd rm))"
    using hook_tracks(1,2) [OF assms(1), of options auth] auth by simp_all
  have "tracks ctx0 (ctx\<lparr>reserved_seats := AList.update sid seat (reserved_seats ctx)\<rparr>)"
    if "tracks ctx0 ctx" "load (roster_of ctx) \<le> load (roster_of (snd rm))" "\<not> waiting_reconnection seat"
      "seat_pending seat" for ctx seat
  proof (rule tracks_step [OF that(1)])
    let ?ctx' = "ctx\<lparr>reserved_seats := AList.update sid seat (reserved_seats ctx)\<rparr>"
    show "good ctx0 ?ctx'" using that by (simp add: good_seats tracks_goodD)
    show "plain ?ctx'"
      using that set_update_subset [of sid seat "reserved_seats ctx"] by (auto simp: tracks_def plain_def)
    have "roster_of ?ctx' = (roster_of ctx)\<lparr>expected := insert sid (expected (roster_of ctx))\<rparr>"
      using that(4) by (simp add: roster_of_def)
    moreover have "load (roster_of ctx) < mx" if "max_clients ctx = Some mx" for mx
      using room [of mx] that \<open>tracks ctx0 ctx\<close> \<open>load (roster_of ctx) \<le> _\<close> by (simp add: tracks_def)
    ultimately show "(roster_step (max_clients ctx))\<^sup>*\<^sup>* (roster_of ctx) (roster_of ?ctx')"
      using roster_step.reserve [of "max_clients ctx" "roster_of ctx" sid] by (metis r_into_rtranclp)
  qed simp
  note ins = this [of "tap_log e (snd rm1)" for e]
  have "roster_of (tap_log e ctx) = roster_of ctx" for e and ctx :: "('s, 'i, 'h) RoomContext"
    by (simp add: roster_of_def)
  then show ?thesis
    using False t1 l1 auth ins by (auto simp: on_reserve_seat_def Let_def seat_pending_def split: sum.split)
qed


lemma tracks_joining:
  assumes "tracks ctx0 ctx" and "fresh c ctx" and "map_of (reserved_seats ctx) (session_id (store ctx c)) = Some seat"
    and "\<not> consumed seat"
  shows "tracks ctx0 (joining c seat ctx)"
proof (rule tracks_step [OF assms(1)])
  let ?sid = "session_id (store ctx c)"
  have w: "\<not> waiting_reconnection seat"
    using assms(1,3) by (auto simp: tracks_def plain_def dest: map_of_SomeD)
  show "good ctx0 (joining c seat ctx)"
    using tracks_goodD [OF assms(1)] ctx_ok_joining [of ctx c seat] assms(2)
    by (simp add: good_def) (simp add: joining_def Let_def mail_refs_def connecting_def)
  show "plain (joining c seat ctx)"
    using assms(1) w set_update_subset [of ?sid "seat\<lparr>consumed := True\<rparr>" "reserved_seats ctx"]
    by (auto simp: tracks_def plain_def joining_def Let_def)
  have session: "session_id (store (joining c seat ctx) x) = session_id (store ctx x)" for x
    by (simp add: set_client_state_def set_auth_def)
  have "?sid \<in> expected (roster_of ctx)"
    using assms(3,4) w by (simp add: roster_of_def expected_of_def seat_pending_def)
  moreover have "roster_of (joining c seat ctx)
      = \<lparr>expected = expected (roster_of ctx) - {?sid}, present = present (roster_of ctx) @ [?sid]\<rparr>"
    unfolding roster_of_def session by (simp add: seat_pending_def)
  ultimately show "(roster_step (max_clients ctx))\<^sup>*\<^sup>* (roster_of ctx) (roster_of (joining c seat ctx))"
    using roster_step.admit [of ?sid "roster_of ctx" "max_clients ctx"] by (metis r_into_rtranclp)
qed (simp add: joining_def Let_def)

lemma tracks_had [simp]: "tracks ctx0 ctx \<Longrightarrow> tracks ctx0 (ctx\<lparr>had_clients := b\<rparr>)"
  by (rule tracks_same) (auto simp: tracks_goodD)

lemma tracks_join_failed:
  assumes "tracks ctx0 (snd rm)"
  shows "tracks ctx0 (snd (snd (join_failed c e rm)))"
  using tracks_depart [OF assms]
  by (auto simp: join_failed_def Let_def client_leave_def tx_send_def set_client_state_def raw_now_def
      intro!: tracks_sync tracks_on_client)

lemma tracks_join:
  assumes "tracks ctx0 (snd rm)" and "fresh c (snd rm)"
  shows "tracks ctx0 (snd (snd (join H c rm)))"
proof (cases "map_of (reserved_seats (snd rm)) (session_id (store (snd rm) c))")
  case None
  then show ?thesis using assms by (simp add: join_no_seat)
next
  case (Some seat)
  show ?thesis
  proof (cases "consumed seat")
    case True
    then show ?thesis using assms by (simp add: join_consumed [OF Some])
  next
    case False
    have "c < next_ref ctx0" using assms by (simp add: fresh_def good_def tracks_def)
    moreover obtain res r ctx where
      r: "on_join H c (seat_options seat) (seat_auth seat) (fst rm, joining c seat (snd rm)) = (res, (r, ctx))"
      by (metis surj_pair)
    ultimately have t: "tracks ctx0 ctx"
      using hook_tracks(3) [of ctx0 "(fst rm, joining c seat (snd rm))" c "seat_options seat" "seat_auth seat"]
        tracks_joining [OF assms Some False] by simp
    let ?ctx = "ctx\<lparr>reserved_seats := AList.delete (session_id (store (snd rm) c)) (reserved_seats ctx)\<rparr>"
    have t': "tracks ctx0 ?ctx" using tracks_withdraw [OF t] .
    then have "tracks ctx0 (snd (snd (join_failed c e (r, ?ctx))))" for e
      using tracks_join_failed [of ctx0 "(r, ?ctx)"] by simp
    moreover have "tracks ctx0 (send_welcome k c st (?ctx\<lparr>had_clients := True\<rparr>))" for k st
      by (intro tracks_send_welcome tracks_had t')
    ultimately show ?thesis
      by (simp add: join_run [OF Some False r] split: sum.split)
  qed
qed

lemma tracks_on_connect:
  assumes "tracks ctx0 (snd rm)" and "fresh c (snd rm)"
  shows "tracks ctx0 (snd (snd (on_connect H c token_opt rm)))"
proof -
  let ?rm = "on_ctx (on_client c (\<lambda>cl. attach_tap (attach_after_patch cl))) rm"
  have t: "tracks ctx0 (snd ?rm)" and f: "fresh c (snd ?rm)"
    using assms by (auto simp: fresh_def attach_tap_def attach_after_patch_def intro!: tracks_on_client)
  moreover have "reconnections (snd ?rm) = []" using t by (simp add: tracks_def plain_def)
  ultimately show ?thesis
    using tracks_join [OF t f]
    by (simp add: on_connect_def reconnect_def Let_def split: option.split)
qed

lemma tracks_leave_client:
  assumes "tracks ctx0 (snd rm)" and "c < next_ref ctx0"
  shows "tracks ctx0 (snd (leave_client H c code consented rm))"
proof -
  have forget: "tracks ctx0 (sync_listing ((drop_view_snapshot sid ctx)\<lparr>clients :=
      filter (\<lambda>c'. session_id (store (drop_view_snapshot sid ctx) c') \<noteq> sid) (clients (drop_view_snapshot sid ctx))\<rparr>))"
    if "tracks ctx0 ctx" for sid ctx
    using tracks_depart [OF tracks_drop_view [OF that]] by simp
  have ops: "tracks ctx0 (on_client c (set_client_state st) ctx)" "tracks ctx0 (on_client c (close_transport n why) ctx)"
    "tracks ctx0 (on_client c (client_leave code_opt reason) ctx)" if "tracks ctx0 ctx" for ctx st n why code_opt reason
    using that by (auto simp: client_op_defs intro!: tracks_on_client)
  show ?thesis
    using assms by (auto simp: leave_client_def Let_def hook_tracks ops intro!: forget)
qed

lemma tracks_run_check_rate:
  assumes "tracks ctx0 ctx" and "run_check_rate c ctx = (ok, ctx')"
  shows "tracks ctx0 ctx'"
proof -
  define r where "r = rate (snd (check_rate (max_messages_per_second ctx) (now ctx) (store ctx c)))"
  have "snd (check_rate (max_messages_per_second ctx) (now ctx) (store ctx c)) = (store ctx c)\<lparr>rate := r\<rparr>"
    unfolding r_def by (cases "max_messages_per_second ctx") (simp_all add: check_rate_def Let_def)
  then have "ctx' = on_client c (\<lambda>cl. cl\<lparr>rate := r\<rparr>) ctx"
    using assms(2) by (auto simp: run_check_rate_def on_client_def split: prod.splits)
  then show ?thesis using tracks_on_client [OF assms(1)] by simp
qed

lemma tracks_run_handlers:
  assumes "\<And>f rm. f \<in> set fs \<Longrightarrow> tracks ctx0 (snd rm) \<Longrightarrow> tracks ctx0 (snd (snd (f rm)))"
    and "tracks ctx0 (snd rm)"
  shows "tracks ctx0 (snd (run_handlers report c fs rm))"
  using assms
proof (induction fs arbitrary: rm)
  case (Cons f fs)
  have t: "tracks ctx0 (snd (snd (f rm)))" using Cons.prems by simp
  then have "tracks ctx0 (on_client c (client_error n msg) (snd (snd (f rm))))" for n msg
    by (auto simp: client_op_defs intro!: tracks_on_client)
  then show ?case
    using t Cons.IH Cons.prems(1) by (cases "f rm"; cases "fst (f rm)") auto
qed simp


lemma tracks_call_msg:
  "tracks ctx0 (snd rm) \<Longrightarrow> c < next_ref ctx0 \<Longrightarrow> tracks ctx0 (snd (snd (call_msg_handler H h c payload rm)))"
  by (auto simp: call_msg_handler_def hook_tracks client_op_defs intro!: tracks_on_client split: sum.split)

lemma tracks_on_data:
  assumes "tracks ctx0 (snd rm)" and "c < next_ref ctx0"
  shows "tracks ctx0 (snd (on_data H c t payload rm))"
proof -
  let ?ctx = "tap_log (event_payload payload (event_msg_type t (event_client (session_id (store (snd rm) c))
        (event_new (wall (snd rm)) ''in'' ''message'')))) (snd rm)"
  obtain ok ctx2 where r: "run_check_rate c ?ctx = (ok, ctx2)" by (cases "run_check_rate c ?ctx")
  have t2: "tracks ctx0 ctx2" using tracks_run_check_rate [OF _ r] assms(1) by simp
  then have "tracks ctx0 (snd (run_handlers False c (map (\<lambda>h. any_run H h c t payload) hs)
      (run_handlers True c (map (\<lambda>h. call_msg_handler H h c payload) hs') (fst rm, ctx2))))" for hs hs'
    using assms(2) by (intro tracks_run_handlers) (auto simp: hook_tracks tracks_call_msg)
  then show ?thesis
    using assms(1) r t2 by (simp add: on_data_def Let_def)
qed

lemma tracks_on_data_bytes:
  assumes "tracks ctx0 (snd rm)" and "c < next_ref ctx0"
  shows "tracks ctx0 (snd (on_data_bytes H c t bs rm))"
proof -
  obtain ok ctx1 where r: "run_check_rate c (snd rm) = (ok, ctx1)" by (cases "run_check_rate c (snd rm)")
  have t1: "tracks ctx0 ctx1" using tracks_run_check_rate [OF assms(1) r] .
  then have "tracks ctx0 (snd (run_handlers True c (map (\<lambda>h. bytes_run H h c bs) hs) (fst rm, tap_log e ctx1)))"
    for hs e
    using assms(2) by (intro tracks_run_handlers) (auto simp: hook_tracks)
  then show ?thesis
    using assms(1) r t1 by (simp add: on_data_bytes_def Let_def on_ctx_def)
qed

lemma tracks_on_client_message:
  assumes "tracks ctx0 (snd rm)" and "c < next_ref ctx0"
  shows "tracks ctx0 (snd (on_client_message H c msg rm))"
proof -
  have "tracks ctx0 (on_client c (raw_now f) ctx)" if "tracks ctx0 ctx" for f ctx
    using that by (auto intro!: tracks_on_client)
  then show ?thesis
    using assms
    by (simp add: on_client_message_def Let_def tracks_on_data tracks_on_data_bytes tracks_leave_client
        split: option.split ClientMessage.split)
qed

lemma tracks_on_disconnected:
  assumes "tracks ctx0 (snd rm)" and "c < next_ref ctx0"
  shows "tracks ctx0 (snd (on_disconnected H c code rm))"
  using assms by (simp add: on_disconnected_def Let_def tracks_leave_client split: option.split)

lemma tracks_fold_withdraw:
  "tracks ctx0 ctx \<Longrightarrow> tracks ctx0 (ctx\<lparr>reserved_seats := fold AList.delete es (reserved_seats ctx)\<rparr>)"
proof (induction es arbitrary: ctx)
  case (Cons k es)
  show ?case
    using Cons.IH [OF tracks_withdraw [OF Cons.prems, of k]] by simp
qed simp

lemma tracks_handle_deadlines:
  assumes "tracks ctx0 (snd rm)"
  shows "tracks ctx0 (snd (handle_deadlines H rm))"
proof -
  have "expired_tokens t (snd rm) = []" for t
    using assms by (simp add: tracks_def plain_def expired_tokens_def)
  moreover have "tracks ctx0 (snd (on_ctx (expire_seats t) rm))" for t
    using assms by (simp add: expire_seats_def Let_def tracks_fold_withdraw)
  moreover have "tracks ctx0 (snd (run_due_timers H t rm'))" if "tracks ctx0 (snd rm')" for t rm'
  proof -
    have "good ctx0 ((snd rm')\<lparr>timers := filter P (timers (snd rm'))\<rparr>)" for P
      using tracks_goodD [OF that] ctx_ok_timers [of "snd rm'" P]
      by (simp add: good_def connecting_def mail_refs_def)
    then have "tracks ctx0 ((snd rm')\<lparr>timers := filter P (timers (snd rm'))\<rparr>)" for P
      by (rule tracks_same [OF that]) simp_all
    then have "tracks ctx0 (snd (on_ctx (\<lambda>ctx. ctx\<lparr>timers := filter (\<lambda>x. \<not> timer_at x \<le> t) (timers ctx)\<rparr>) rm'))"
      by simp
    moreover have "tracks ctx0 (snd (fold (\<lambda>x. timer_run H (timer_cb x)) ts rm))"
      if "tracks ctx0 (snd rm)" for ts rm
      using that by (induction ts arbitrary: rm) (simp_all add: hook_tracks)
    ultimately show ?thesis unfolding run_due_timers_def Let_def by blast
  qed
  ultimately show ?thesis by (simp add: handle_deadlines_def Let_def)
qed


lemma tracks_local_ops:
  assumes "tracks ctx0 ctx"
  shows "tracks ctx0 (client_send c t v so ctx)" "tracks ctx0 (broadcast t v ctx)" "tracks ctx0 (room_lock ctx)"
    "tracks ctx0 (room_unlock ctx)" "tracks ctx0 (snd (broadcast_patch ctx))" "tracks ctx0 (kick sid ctx)"
    "tracks ctx0 (snd (edit_state path edit ctx))" "tracks ctx0 (ctx\<lparr>clock := ck\<rparr>)" "tracks ctx0 (persist_now ctx)"
proof -
  show "tracks ctx0 (client_send c t v so ctx)" "tracks ctx0 (broadcast t v ctx)" "tracks ctx0 (room_lock ctx)"
    "tracks ctx0 (room_unlock ctx)" "tracks ctx0 (snd (broadcast_patch ctx))" "tracks ctx0 (ctx\<lparr>clock := ck\<rparr>)"
    "tracks ctx0 (persist_now ctx)"
    by (auto simp: broadcast_def
        intro!: tracks_quiet [OF assms, THEN conjunct1] quiet_apiI quiet_step.intros)
  show "tracks ctx0 (kick sid ctx)"
    using assms by (auto simp: kick_def client_op_defs intro!: tracks_on_client split: option.split)
  show "tracks ctx0 (snd (edit_state path edit ctx))"
    by (rule tracks_same [OF assms good_edit_state [OF tracks_goodD [OF assms]]])
      (simp_all add: edit_state_def split_def split: option.split)
qed

lemma tracks_handle_event:
  assumes "tracks ctx0 (actor_ctx a)" and "fits ctx0" and "\<And>c. event_ref ev = Some c \<Longrightarrow> c < next_ref ctx0"
    and "\<And>c token. ev = Connect c token \<Longrightarrow> fresh c (actor_ctx a)"
    and "fst (fst (handle_event H ev a)) = Continue"
  shows "tracks ctx0 (actor_ctx (snd (handle_event H ev a)))"
proof (cases ev)
  case (ReserveSeat sid options auth)
  then show ?thesis
    using tracks_on_reserve_seat [of ctx0 "(actor_room a, actor_ctx a)"] assms(1,2)
    by (simp add: handle_event_def split_def)
next
  case (Connect c token_opt)
  then show ?thesis
    using tracks_on_connect [of ctx0 "(actor_room a, actor_ctx a)" c] assms(1,4)
    by (simp add: handle_event_def split_def)
next
  case (Message c msg)
  then show ?thesis
    using tracks_on_client_message [of ctx0 "(actor_room a, actor_ctx a)" c] assms(1,3)
    by (simp add: handle_event_def)
next
  case (Disconnected c code)
  then show ?thesis
    using tracks_on_disconnected [of ctx0 "(actor_room a, actor_ctx a)" c] assms(1,3)
    by (simp add: handle_event_def)
next
  case (Command h)
  then show ?thesis
    using hook_tracks(11) [of ctx0 "(actor_room a, actor_ctx a)"] assms(1) by (simp add: handle_event_def)
next
  case (CallRoomRpc h)
  then show ?thesis
    using hook_tracks(12) [of ctx0 "(actor_room a, actor_ctx a)"] assms(1)
    by (simp add: handle_event_def split_def)
next
  case (EditState path edit)
  then show ?thesis
    using tracks_local_ops(7) [OF assms(1)] by (simp add: handle_event_def split_def)
next
  case (Dispose code)
  then show ?thesis using assms(5) by (simp add: handle_event_def)
next
  case Shutdown
  then show ?thesis using assms(5) by (simp add: handle_event_def)
qed (use assms(1) in \<open>simp_all add: handle_event_def admin_message_def tracks_local_ops split: option.split\<close>)

lemma tracks_maybe_auto_save: "tracks ctx0 (actor_ctx a) \<Longrightarrow> tracks ctx0 (actor_ctx (maybe_auto_save a))"
  by (simp add: maybe_auto_save_def Let_def tracks_local_ops split: option.split)

lemma tracks_timed:
  assumes "tracks ctx0 (actor_ctx a0)"
    and "b = sim_tick H ((sync_intervals a0)\<lparr>sim := s\<rparr>) \<or> b = patch_tick ((sync_intervals a0)\<lparr>patch := s\<rparr>)
      \<or> b = snd (run_room (\<lambda>rm. ((), handle_deadlines H rm)) (sync_intervals a0))"
  shows "tracks ctx0 (actor_ctx b)"
proof -
  have "tracks ctx0 (actor_ctx (sim_tick H a))" if "tracks ctx0 (actor_ctx a)" for a
    using that by (simp add: sim_tick_def Let_def hook_tracks tracks_local_ops)
  moreover have "tracks ctx0 (actor_ctx (patch_tick a))" if "tracks ctx0 (actor_ctx a)" for a :: "('r, 's, 'i, 'h) RoomActor"
  proof -
    define ctx1 where "ctx1 = (if sim_interval (actor_ctx a) = None
      then (actor_ctx a)\<lparr>clock := clock_tick (now (actor_ctx a)) (clock (actor_ctx a))\<rparr> else actor_ctx a)"
    have "tracks ctx0 ctx1" using that by (simp add: ctx1_def tracks_local_ops)
    then have "tracks ctx0 (snd (broadcast_patch ctx1))" by (rule tracks_local_ops)
    moreover have "patch_tick a = (if fst (broadcast_patch ctx1)
        then maybe_auto_save (a\<lparr>actor_ctx := snd (broadcast_patch ctx1)\<rparr>)
        else a\<lparr>actor_ctx := snd (broadcast_patch ctx1)\<rparr>)"
      unfolding ctx1_def by (simp add: patch_tick_def Let_def split_def)
    ultimately show ?thesis by (simp add: tracks_maybe_auto_save)
  qed
  ultimately show ?thesis
    using assms by (auto simp: tracks_handle_deadlines)
qed

text \<open>A turn is a run of the abstract machine.\<close>

lemma after_branch_continue: "after_branch H a = (Continue, a') \<Longrightarrow> a' = a"
  by (simp add: after_branch_def split: option.splits if_splits)

lemma roster_of_pop [simp]: "roster_of (ctx\<lparr>sender := q\<rparr>) = roster_of ctx" "plain (ctx\<lparr>sender := q\<rparr>) = plain ctx"
  by (simp_all add: roster_of_def plain_def)

lemma turn_follows:
  assumes "actor_ok a0" and "plain (actor_ctx a0)" and "fits (actor_ctx a0)"
    and "run_turn H a0 = Some (Continue, res, a')"
  shows "plain (actor_ctx a') \<and> max_clients (actor_ctx a') = max_clients (actor_ctx a0)
    \<and> (roster_step (max_clients (actor_ctx a0)))\<^sup>*\<^sup>* (roster_of (actor_ctx a0)) (roster_of (actor_ctx a'))"
  using assms(4)
proof (cases rule: run_turn_cases)
  case (event ev rest fl1 a1)
  let ?a = "(sync_intervals a0)\<lparr>actor_ctx := (actor_ctx a0)\<lparr>sender := Some rest\<rparr>\<rparr>"
  have "actor_ok (sync_intervals a0)" "sender (actor_ctx (sync_intervals a0)) = Some (ev # rest)"
    using assms(1) event(1) by (simp_all add: actor_ok_def)
  note pop = pop_ok [OF this, simplified]
  have a': "fl1 = Continue" "a' = a1"
    using event(3) after_branch_continue by auto
  have "tracks (actor_ctx ?a) (actor_ctx a1)"
    using tracks_handle_event [of "actor_ctx ?a" ?a ev] tracks_refl [of "actor_ctx ?a"] pop assms(2,3) event(2) a'(1)
    by (simp add: actor_ok_def fits_def)
  then show ?thesis by (simp add: tracks_def a')
next
  case (timed b s)
  have "tracks (actor_ctx a0) (actor_ctx b)"
    using tracks_timed [OF tracks_refl timed(1)] assms(1,2) by (simp add: actor_ok_def)
  then show ?thesis using after_branch_continue [OF timed(2)] by (simp add: tracks_def)
qed


lemma roster_of_arrive:
  assumes "ctx_ok (actor_ctx a)"
  shows "roster_of (actor_ctx (arrive conn sid token_opt a)) = roster_of (actor_ctx a)"
proof -
  have "c \<noteq> next_ref (actor_ctx a)" if "c \<in> set (clients (actor_ctx a))" for c
    using ctx_okD(2) [OF assms that] by simp
  then show ?thesis
    by (auto simp: roster_of_def arrive_def Let_def post_def intro!: map_cong)
qed

lemma step_follows:
  assumes "room_step H a a'" and "actor_ok a" and "plain (actor_ctx a)" and "fits (actor_ctx a)"
  shows "plain (actor_ctx a') \<and> max_clients (actor_ctx a') = max_clients (actor_ctx a)
    \<and> (roster_step (max_clients (actor_ctx a)))\<^sup>*\<^sup>* (roster_of (actor_ctx a)) (roster_of (actor_ctx a'))"
  using assms(1)
proof (cases rule: room_step.cases)
  case (turn res)
  then show ?thesis using turn_follows assms(2-4) by blast
next
  case (socket conn sid token_opt)
  then show ?thesis
    using roster_of_arrive [of a conn sid token_opt] assms(2,3)
    by (simp add: actor_ok_def plain_def arrive_def Let_def post_def)
next
  case (writer_ends c)
  then have "roster_of (actor_ctx a') = roster_of (actor_ctx a)"
    by (auto simp: roster_of_def intro!: map_cong)
  then show ?thesis using writer_ends assms(3) by (simp add: plain_def)
qed (use assms(3) in \<open>simp_all add: post_def roster_of_def plain_def\<close>)

lemma steps_follow:
  assumes "(room_step H)\<^sup>*\<^sup>* a0 a" and "actor_ok a0" and "plain (actor_ctx a0)" and "fits (actor_ctx a0)"
  shows "actor_ok a \<and> plain (actor_ctx a) \<and> fits (actor_ctx a) \<and> max_clients (actor_ctx a) = max_clients (actor_ctx a0)"
  using assms(1)
proof (induction rule: rtranclp_induct)
  case (step a a')
  then have a: "actor_ok a" "plain (actor_ctx a)" "fits (actor_ctx a)" by simp_all
  note f = step_follows [OF step(2) a]
  have "bounded (max_clients (actor_ctx a)) (roster_of (actor_ctx a'))"
    using bounded_steps f a(3) by (auto simp: fits_def)
  then show ?case
    using f a(3) room_step_ok [OF step(2) a(1)] step.IH by (simp add: fits_def)
qed (use assms in simp)

text \<open>A room that was just set up is empty.\<close>

definition unoccupied :: "('s, 'i, 'h) RoomContext \<Rightarrow> bool" where
  "unoccupied ctx \<longleftrightarrow> clients ctx = [] \<and> reserved_seats ctx = [] \<and> reconnections ctx = []"

lemma unoccupied_setup:
  assumes "setup_api ctx ctx'" and "unoccupied ctx"
  shows "unoccupied ctx'"
  using assms unfolding setup_api_def
proof (induction rule: rtranclp_induct)
  case (step y z)
  then consider "quiet_step y z" | m where "z = set_max_clients m y" by blast
  then show ?case
  proof cases
    case 1
    then show ?thesis using quiet_step_seats [OF 1] step by (auto simp: unoccupied_def)
  qed (use step in \<open>simp add: unoccupied_def set_max_clients_def\<close>)
qed simp

lemma spawn_follows:
  assumes "spawn_room H r (room_context_new rid rname pid d ps lb ex per t w g gn st nr) options = Inr (a, l)"
    and "driver_inv d" and "\<And>mx. max_clients (actor_ctx a) = Some mx \<Longrightarrow> mx < 2 ^ 32"
  shows "actor_ok a \<and> plain (actor_ctx a) \<and> fits (actor_ctx a)"
proof -
  let ?ctx0 = "room_context_new rid rname pid d ps lb ex per t w g gn st nr"
  let ?ctx1 = "set_sender [] (?ctx0\<lparr>create_options := options\<rparr>)"
  have ok: "actor_ok a" using spawn_room_ok [OF assms(1) ctx_ok_new(1) [OF assms(2)] ctx_ok_new(2)] .
  have "ctx_ok ?ctx1" and u: "unoccupied ?ctx1"
    using assms(2) by (simp_all add: ctx_ok_defs connecting_def room_context_new_def set_sender_def unoccupied_def
        List.map_filter_def)
  then have "setup_api ?ctx1 (snd (snd (on_create H options (r, ?ctx1))))"
    using create_setup [of "(r, ?ctx1)"] by simp
  from unoccupied_setup [OF this u] have "unoccupied (actor_ctx a)"
    using assms(1) by (auto simp: spawn_room_def Let_def finish_spawn_def unoccupied_def split: prod.splits sum.splits)
  then show ?thesis
    using ok assms(3)
    by (auto simp: unoccupied_def plain_def fits_def bounded_def roster_of_def load_def expected_of_def)
qed

end

section \<open>The properties\<close>


lemma quiet_api_setup: "quiet_api ctx ctx' \<Longrightarrow> setup_api ctx ctx'"
  unfolding setup_api_def quiet_api_def by (erule rtranclp_mono [THEN predicate2D, rotated]) auto

interpretation default_plain: plain_room default_hooks
  by unfold_locales (simp_all add: default_hooks_def quiet_api_setup)

text \<open>The sample room with a reservation request, and the limit it was given.\<close>

definition limited_actor :: "(unit, json, unit, nat) RoomActor" where
  "limited_actor = post (ReserveSeat ''s'' JNull \<lparr>auth_token = None, auth_headers = [], auth_ip = None\<rparr>) sample_actor"



text \<open>A room type that limits itself when it is created.\<close>

definition capped_hooks :: "nat \<Rightarrow> (unit, json, unit, nat) RoomHooks" where
  "capped_hooks n = default_hooks\<lparr>on_create := \<lambda>options rm. (Inr (), on_ctx (set_max_clients (Some n)) rm)\<rparr>"

interpretation capped: plain_room "capped_hooks n"
proof unfold_locales
  fix rm :: "(unit, json, unit, nat) room" and options
  show "setup_api (snd rm) (snd (snd (on_create (capped_hooks n) options rm)))"
    unfolding setup_api_def by (rule r_into_rtranclp) (auto simp: capped_hooks_def)
qed (simp_all add: capped_hooks_def default_hooks_def)


end
