(* ===== verification/Departures.thy ===== *)
theory Departures
  imports Roster
begin

text \<open>
  How clients leave a room that did not ask to leave (\<^verbatim>\<open>kick\<close> of
  \<^verbatim>\<open>crates/colyseus/src/actor.rs\<close>): the events that follow the kick on the client's own
  connection.
\<close>

definition own_event :: "cref \<Rightarrow> 'h RoomEvent \<Rightarrow> bool" where
  "own_event c ev \<longleftrightarrow> (\<exists>code. ev = Disconnected c code) \<or> (\<exists>m. ev = Message c m)"

definition after_events ::
  "('r, 's, 'i, 'h) RoomHooks \<Rightarrow> 'h RoomEvent list \<Rightarrow> ('r, 's, 'i, 'h) RoomActor \<Rightarrow> ('r, 's, 'i, 'h) RoomActor" where
  "after_events H evs a = fold (\<lambda>ev b. snd (handle_event H ev b)) evs a"

text \<open>The seat list, the room value and the other clients are as before; the client is on its way out.\<close>

definition stuck :: "cref \<Rightarrow> ('r, 's, 'i, 'h) RoomActor \<Rightarrow> ('r, 's, 'i, 'h) RoomActor \<Rightarrow> bool" where
  "stuck c a b \<longleftrightarrow> actor_room b = actor_room a \<and> clients (actor_ctx b) = clients (actor_ctx a)
     \<and> reserved_seats (actor_ctx b) = reserved_seats (actor_ctx a) \<and> max_clients (actor_ctx b) = max_clients (actor_ctx a)
     \<and> client_state (store (actor_ctx b) c) = Leaving
     \<and> (\<forall>c'. session_id (store (actor_ctx b) c') = session_id (store (actor_ctx a) c')
           \<and> connection_id (store (actor_ctx b) c') = connection_id (store (actor_ctx a) c'))"

lemma get_client_frame:
  assumes "clients ctx' = clients ctx" and "\<And>c. session_id (store ctx' c) = session_id (store ctx c)"
  shows "get_client sid ctx' = get_client sid ctx"
  using assms by (simp add: get_client_def)

lemma stuck_event:
  assumes "stuck c a b" and "get_client (session_id (store (actor_ctx a) c)) (actor_ctx a) = Some c" and "own_event c ev"
  shows "stuck c a (snd (handle_event H ev b))"
proof -
  have g: "get_client (session_id (store (actor_ctx b) c)) (actor_ctx b) = Some c"
    using assms(1,2) get_client_frame [of "actor_ctx b" "actor_ctx a"] by (simp add: stuck_def)
  have l: "leave_client H c code consented rm = rm" if "client_state (store (snd rm) c) = Leaving" for code consented rm
    using that by (simp add: leave_client_def)
  have s: "client_state (store (actor_ctx b) c) = Leaving" using assms(1) by (simp add: stuck_def)
  have "stuck c a (snd (handle_event H (Disconnected c code) b))" for code
    using assms(1) g s by (simp add: handle_event_def run_room_def on_disconnected_def l Let_def)
  moreover have "stuck c a (snd (handle_event H (Message c m) b))" for m
  proof (cases m)
    case Leave
    let ?ctx = "tap_log (event_client (session_id (store (actor_ctx b) c)) (event_new (wall (actor_ctx b)) ''in'' ''leave'')) (actor_ctx b)"
    have "leave_client H c CONSENTED True (actor_room b, ?ctx) = (actor_room b, ?ctx)"
      by (rule l) (simp add: tap_log_def s)
    then show ?thesis
      using assms(1) g Leave
      by (simp add: handle_event_def run_room_def on_client_message_def Let_def on_ctx_def) (simp add: stuck_def tap_log_def)
  qed (use assms(1) g s in \<open>simp_all add: handle_event_def run_room_def on_client_message_def Let_def on_ctx_def on_data_def
      on_data_bytes_def is_joined_def state_joined_def stuck_def on_client_def\<close>)
  ultimately show ?thesis using assms(3) by (auto simp: own_event_def)
qed

lemma stuck_kick:
  assumes "get_client sid (actor_ctx a) = Some c"
  shows "stuck c a (snd (handle_event H (Kick sid) a))"
  using assms
  by (auto simp: handle_event_def run_room_def on_ctx_def kick_def stuck_def on_client_def client_op_defs)


text \<open>A room with one client.\<close>

definition seated_actor :: "(unit, json, unit, nat) RoomActor" where
  "seated_actor = sample_actor\<lparr>actor_ctx := (actor_ctx sample_actor)\<lparr>clients := [0],
     store := (\<lambda>_. (client_new 0 ''c'' ''s'')\<lparr>client_state := Joined\<rparr>)\<rparr>\<rparr>"


end
