(* ===== verification/Hazards.thy ===== *)
theory Hazards
  imports Departures
begin

text \<open>
  Two places where the actor (\<^verbatim>\<open>crates/colyseus/src/actor.rs\<close>) does not do what it
  should: the seat that is kept for a dropped client is an ordinary seat on the join path of
  \<^verbatim>\<open>on_connect\<close>, and a deadline that has passed is waited for again.
\<close>

section \<open>Taking over a session\<close>

text \<open>
  C20. The reconnection token protects nothing. When a room waits for a dropped client, a
  connection with a wrong token is turned away; but one that gives no token at all, only the
  session id, takes the seat that is kept: it joins under the session of the dropped client,
  with its authentication data. The reconnection entry stays as it was.
\<close>

theorem session_taken_without_token:
  assumes "allow_reconnection c timeout ctx = (True, ctx1)"
    and "session_id (store ctx1 c') = session_id (store ctx c)"
    and "\<And>opts au rm. on_join H c' opts au rm = (Inr (), rm)"
    and "map_of (reconnections ctx1) wrong = None"
  shows "fst (on_connect H c' (Some wrong) (r, ctx1)) \<noteq> Inr ()
    \<and> (\<exists>ctx2. on_connect H c' None (r, ctx1) = (Inr (), (r, ctx2))
        \<and> c' \<in> set (clients ctx2) \<and> client_state (store ctx2 c') = Joined
        \<and> client_auth (store ctx2 c') = client_auth (store ctx c)
        \<and> reconnections ctx2 = reconnections ctx1)"
proof -
  let ?sid = "session_id (store ctx c)"
  have seat: "\<exists>s. map_of (reserved_seats ctx1) ?sid = Some s \<and> \<not> consumed s \<and> seat_auth s = client_auth (store ctx c)"
    using assms(1) by (auto simp: allow_reconnection_def Let_def update_conv' split: if_splits)
  then show ?thesis
    using assms(2-4)
    by (auto simp: on_connect_def reconnect_def join_def on_ctx_def Let_def on_client_def client_op_defs attach_tap_def attach_after_patch_def)
qed

text \<open>The client of a room drops; a second connection knows only its session id.\<close>

definition dropped_ctx :: "(json, unit, nat) RoomContext" where
  "dropped_ctx = (actor_ctx seated_actor)\<lparr>store := (\<lambda>_. (client_new 0 ''c'' ''s'')\<lparr>client_state := Leaving, reconnection_token := ''t''\<rparr>)\<rparr>"

theorem session_taken_without_token_witness:
  "fst (on_connect default_hooks 1 (Some ''guess'') ((), snd (allow_reconnection 0 None dropped_ctx))) \<noteq> Inr ()"
proof -
  let ?ctx = "snd (allow_reconnection 0 None dropped_ctx)"
  have f: "disposing dropped_ctx = False" "reconnections dropped_ctx = []"
    by (simp_all add: dropped_ctx_def seated_actor_def sample_actor_def finish_spawn_def set_sender_def sample_ctx_def room_context_new_def)
  have s: "session_id (store dropped_ctx c) = ''s''" "reconnection_token (store dropped_ctx c) = ''t''" for c
    by (simp_all add: dropped_ctx_def client_new_def)
  have a: "allow_reconnection 0 None dropped_ctx = (True, ?ctx)"
    by (simp add: allow_reconnection_def Let_def f s)
  have i: "session_id (store ?ctx 1) = session_id (store dropped_ctx 0)" and w: "map_of (reconnections ?ctx) ''guess'' = None"
    by (simp_all add: allow_reconnection_def Let_def f s on_client_def set_client_state_def)
  have j: "on_join default_hooks 1 opts au rm = (Inr (), rm)" for opts au rm
    by (simp add: default_hooks_def)
  show ?thesis by (rule session_taken_without_token [OF a i j w, THEN conjunct1])
qed

section \<open>A deadline that stays due\<close>

text \<open>
  A room that never had a client and holds a seat beyond its own creation timeout: the loop
  wakes up at once for the creation deadline, handling the deadlines changes nothing, and the
  room is not disposed of because of the seat. So the loop spins until the seat goes.
\<close>

lemma creation_deadline_spins:
  assumes "auto_dispose (actor_ctx a)" and "\<not> had_clients (actor_ctx a)" and "clients (actor_ctx a) = []" and "\<not> disposing (actor_ctx a)"
    and "actor_created_at a + seat_reservation_timeout (actor_ctx a) \<le> now (actor_ctx a)"
    and "(sid, s) \<in> set (reserved_seats (actor_ctx a))" and "\<not> consumed s" and "\<not> waiting_reconnection s"
    and "expired_tokens (now (actor_ctx a)) (actor_ctx a) = []" and "expired_seats (now (actor_ctx a)) (actor_ctx a) = []"
    and "\<forall>x \<in> set (timers (actor_ctx a)). now (actor_ctx a) < timer_at x"
  shows "\<exists>d \<le> now (actor_ctx a). next_deadline a = Some d"
    and "handle_deadlines H (actor_room a, actor_ctx a) = (actor_room a, actor_ctx a)"
    and "\<not> should_auto_dispose a"
proof -
  show "\<exists>d \<le> now (actor_ctx a). next_deadline a = Some d"
    using assms by (auto simp: next_deadline_def Let_def min_deadline_def min_def split: option.split)
  have "filter (\<lambda>x. timer_at x \<le> now (actor_ctx a)) (timers (actor_ctx a)) = []"
    "filter (\<lambda>x. \<not> timer_at x \<le> now (actor_ctx a)) (timers (actor_ctx a)) = timers (actor_ctx a)"
    using assms(11) by (auto simp: filter_empty_conv filter_id_conv)
  then show "handle_deadlines H (actor_room a, actor_ctx a) = (actor_room a, actor_ctx a)"
    using assms(9,10) by (simp add: handle_deadlines_def Let_def expire_seats_def run_due_timers_def on_ctx_def)
  show "\<not> should_auto_dispose a"
    using assms(6-8) by (auto simp: should_auto_dispose_def Let_def list_ex_iff)
qed

end
