(* ===== verification/Registry.thy ===== *)
theory Registry
  imports Actor
begin

text \<open>
  The registration of a room type, \<^verbatim>\<open>crates/colyseus/src/matchmaker.rs\<close>: the
  knobs of \<^verbatim>\<open>RegisteredHandler\<close>, the matchmaking conditions it derives from the
  options of a request, and the merge of default options. A factory gives the first value
  of the room and its hooks.
\<close>

section \<open>Registered room types\<close>

record ('r, 's, 'i, 'h) RegisteredHandler =
  rh_name :: string
  factory :: "'r \<times> ('r, 's, 'i, 'h) RoomHooks"
  rh_filter_by :: "string list"
  rh_sort_by :: SortOptions
  rh_default_options :: "json option"
  rh_internal :: bool
  rh_persistent :: bool
  rh_unique_by :: "string list"
  rh_strict_filter :: bool
  match_filter :: "(RoomListing \<Rightarrow> json \<Rightarrow> bool) option"
  match_sort :: "(RoomListing \<Rightarrow> RoomListing \<Rightarrow> ordering) option"

definition handler_new ::
  "string \<Rightarrow> 'r \<times> ('r, 's, 'i, 'h) RoomHooks \<Rightarrow> ('r, 's, 'i, 'h) RegisteredHandler" where
  "handler_new name f =
     \<lparr>rh_name = name, factory = f, rh_filter_by = [], rh_sort_by = [], rh_default_options = None,
      rh_internal = False, rh_persistent = True, rh_unique_by = [], rh_strict_filter = False,
      match_filter = None, match_sort = None\<rparr>"

definition handler_internal :: "('r, 's, 'i, 'h) RegisteredHandler \<Rightarrow> ('r, 's, 'i, 'h) RegisteredHandler" where
  "handler_internal h = h\<lparr>rh_internal := True\<rparr>"

definition handler_persistent ::
  "bool \<Rightarrow> ('r, 's, 'i, 'h) RegisteredHandler \<Rightarrow> ('r, 's, 'i, 'h) RegisteredHandler" where
  "handler_persistent b h = h\<lparr>rh_persistent := b\<rparr>"

definition handler_filter_by ::
  "string list \<Rightarrow> ('r, 's, 'i, 'h) RegisteredHandler \<Rightarrow> ('r, 's, 'i, 'h) RegisteredHandler" where
  "handler_filter_by names h = h\<lparr>rh_filter_by := names\<rparr>"

definition handler_sort_by ::
  "SortOptions \<Rightarrow> ('r, 's, 'i, 'h) RegisteredHandler \<Rightarrow> ('r, 's, 'i, 'h) RegisteredHandler" where
  "handler_sort_by so h = h\<lparr>rh_sort_by := so\<rparr>"

definition handler_default_options ::
  "json \<Rightarrow> ('r, 's, 'i, 'h) RegisteredHandler \<Rightarrow> ('r, 's, 'i, 'h) RegisteredHandler" where
  "handler_default_options v h = h\<lparr>rh_default_options := Some v\<rparr>"

definition handler_unique_by ::
  "string list \<Rightarrow> ('r, 's, 'i, 'h) RegisteredHandler \<Rightarrow> ('r, 's, 'i, 'h) RegisteredHandler" where
  "handler_unique_by names h = h\<lparr>rh_unique_by := names\<rparr>"

definition handler_strict ::
  "bool \<Rightarrow> ('r, 's, 'i, 'h) RegisteredHandler \<Rightarrow> ('r, 's, 'i, 'h) RegisteredHandler" where
  "handler_strict b h = h\<lparr>rh_strict_filter := b\<rparr>"

definition handler_match_filter ::
  "(RoomListing \<Rightarrow> json \<Rightarrow> bool) \<Rightarrow> ('r, 's, 'i, 'h) RegisteredHandler \<Rightarrow> ('r, 's, 'i, 'h) RegisteredHandler" where
  "handler_match_filter f h = h\<lparr>match_filter := Some f\<rparr>"

definition handler_match_sort ::
  "(RoomListing \<Rightarrow> RoomListing \<Rightarrow> ordering) \<Rightarrow> ('r, 's, 'i, 'h) RegisteredHandler
     \<Rightarrow> ('r, 's, 'i, 'h) RegisteredHandler" where
  "handler_match_sort f h = h\<lparr>match_sort := Some f\<rparr>"

section \<open>Criteria\<close>

text \<open>The loop over the \<^verbatim>\<open>filter_by\<close> fields; a missing one is a wildcard or must be absent.\<close>

fun filter_conditions :: "bool \<Rightarrow> json \<Rightarrow> string list \<Rightarrow> (string \<times> Condition) list" where
  "filter_conditions strict options [] = []"
| "filter_conditions strict options (field # rest) =
     (case json_get options field of
        Some v \<Rightarrow> (field, condition_eq v) # filter_conditions strict options rest
      | None \<Rightarrow>
          if strict
          then (field, \<lparr>cond_op = NotExists, cond_value = None\<rparr>) # filter_conditions strict options rest
          else filter_conditions strict options rest)"

definition match_conditions ::
  "('r, 's, 'i, 'h) RegisteredHandler \<Rightarrow> json \<Rightarrow> (string \<times> Condition) list" where
  "match_conditions h options =
     [(''name'', condition_eq (JStr (rh_name h))),
      (''locked'', condition_eq (JBool False)),
      (''private'', condition_eq (JBool False))]
     @ filter_conditions (rh_strict_filter h) options (rh_filter_by h)"

definition unique_conditions ::
  "('r, 's, 'i, 'h) RegisteredHandler \<Rightarrow> json \<Rightarrow> (string \<times> Condition) list" where
  "unique_conditions h options =
     (''name'', condition_eq (JStr (rh_name h)))
     # List.map_filter (\<lambda>field. map_option (\<lambda>v. (field, condition_eq v)) (json_get options field)) (rh_unique_by h)"

definition handler_filter_extra :: "('r, 's, 'i, 'h) RegisteredHandler \<Rightarrow> json \<Rightarrow> obj" where
  "handler_filter_extra h options =
     fold (\<lambda>field extra. case json_get options field of
             Some v \<Rightarrow> map_insert field v extra | None \<Rightarrow> extra)
       (rh_filter_by h @ rh_unique_by h) []"

text \<open>The object that \<^verbatim>\<open>json!\<close> builds: a map, whose keys come out sorted.\<close>

definition handler_schema :: "('r, 's, 'i, 'h) RegisteredHandler \<Rightarrow> json" where
  "handler_schema h =
     (let base = fold (\<lambda>(k, v). map_insert k v)
            [(''name'', JStr (rh_name h)),
             (''filterBy'', JArr (map JStr (rh_filter_by h))),
             (''uniqueBy'', JArr (map JStr (rh_unique_by h))),
             (''sortBy'', JArr (map (\<lambda>(f, d). JArr [JStr f, jint d]) (rh_sort_by h))),
             (''strictFilterFields'', JBool (rh_strict_filter h)),
             (''internal'', JBool (rh_internal h)),
             (''persistent'', JBool (rh_persistent h))] []
      in JObj (case rh_default_options h of
                 Some options \<Rightarrow> map_insert ''defaultOptions'' options base
               | None \<Rightarrow> base))"

definition or_insert :: "string \<Rightarrow> json \<Rightarrow> obj \<Rightarrow> obj" where
  "or_insert k v m = (case map_of m k of Some _ \<Rightarrow> m | None \<Rightarrow> map_insert k v m)"

definition merged_options :: "('r, 's, 'i, 'h) RegisteredHandler \<Rightarrow> json \<Rightarrow> json" where
  "merged_options h options =
     (case (rh_default_options h, options) of
        (Some defaults, JObj opts) \<Rightarrow>
          JObj (fold (\<lambda>(k, v). or_insert k v) (case defaults of JObj d \<Rightarrow> d | _ \<Rightarrow> []) opts)
      | (Some defaults, JNull) \<Rightarrow> defaults
      | (_, opts) \<Rightarrow> opts)"

text \<open>The key of a creation lock; \<open>vs\<close> prints a JSON value.\<close>

definition condition_key :: "(json \<Rightarrow> string) \<Rightarrow> Condition \<Rightarrow> string" where
  "condition_key vs c =
     (case cond_op c of
        NotExists \<Rightarrow> ''<absent>''
      | Exists \<Rightarrow> ''<present>''
      | _ \<Rightarrow> (case cond_value c of None \<Rightarrow> ''null'' | Some v \<Rightarrow> vs v))"

definition conditions_key :: "(json \<Rightarrow> string) \<Rightarrow> (string \<times> Condition) list \<Rightarrow> string" where
  "conditions_key vs conditions =
     (let entries = map (\<lambda>(k, c). k @ ''='' @ condition_key vs c)
            (filter (\<lambda>(k, _). k \<noteq> ''locked'' \<and> k \<noteq> ''private'' \<and> k \<noteq> ''name'') conditions)
      in join_with ''&'' (sort entries))"

section \<open>What the criteria mean\<close>

lemma or_insert_get [simp]:
  "map_of (or_insert k v m) = (if map_of m k = None then (map_of m)(k \<mapsto> v) else map_of m)"
  by (auto simp: or_insert_def split: option.splits)

lemma fold_or_insert_get:
  "map_of (fold (\<lambda>(k, v). or_insert k v) d m) k
     = (case map_of m k of Some v \<Rightarrow> Some v | None \<Rightarrow> map_of d k)"
proof (induction d arbitrary: m)
  case (Cons kv d)
  obtain k' v' where "kv = (k', v')" by (cases kv)
  then show ?case
    using Cons [of "or_insert k' v' m"] by (auto split: option.splits)
qed (simp split: option.split)

end
