(* ===== verification/Matchmaker.thy ===== *)
theory Matchmaker
  imports Registry
begin

text \<open>
  The matchmaker, \<^verbatim>\<open>crates/colyseus/src/matchmaker.rs\<close>: the registry, the rooms
  of the process, creation, seat reservation with retries, idempotent replays, queries and
  statistics, restoring and shutdown. The matchmaker owns what its rooms share (driver,
  presence, lobby channel, clients, snapshot writer, clocks, id generator) and lends it to a
  room while the room runs.

  Its functions await the rooms and the creation locks. What other tasks do at the n-th
  await is \<open>meanwhile n\<close>, an argument; a room that is asked something serves its mailbox
  up to the question. Whether the n-th answer comes within the five seconds is
  \<open>rpc_late n\<close>. Rendering floats and JSON values and MessagePack are arguments too.
\<close>

section \<open>State\<close>

definition JOIN_OR_CREATE_RETRIES :: nat where "JOIN_OR_CREATE_RETRIES = 3"
definition JOIN_RETRIES :: nat where "JOIN_RETRIES = 2"
definition IDEMPOTENCY_TTL :: duration where "IDEMPOTENCY_TTL = from_secs 30"
definition IDEMPOTENCY_CAP :: nat where "IDEMPOTENCY_CAP = 1024"

record RoomStats =
  st_total :: nat
  st_open :: nat
  st_waiting :: nat
  st_full :: nat
  st_locked :: nat
  st_private :: nat

record SeatReservation =
  sr_room :: RoomListing
  sr_session_id :: string
  sr_reconnection_token :: "string option"
  sr_public_address :: "string option"
  sr_process_id :: string

record CreateRoomOutcome =
  outcome_listing :: RoomListing
  created :: bool

text \<open>
  A creation lock is in the map with the number of tasks that hold a reference to it.
  \<open>mm_calls\<close> counts the awaits.
\<close>

record ('r, 's, 'i, 'h) MatchMaker =
  mm_handlers :: "(string \<times> ('r, 's, 'i, 'h) RegisteredHandler) list"
  mm_rooms :: "(string \<times> ('r, 's, 'i, 'h) RoomHooks \<times> ('r, 's, 'i, 'h) RoomActor) list"
  mm_driver :: LocalDriver
  mm_presence :: LocalPresence
  mm_process_id :: string
  mm_public_address :: "string option"
  mm_shutting_down :: bool
  mm_lobby_tx :: "MatchmakerEvent list"
  mm_create_locks :: "(string \<times> nat) list"
  mm_idempotency :: "(string \<times> instant \<times> SeatReservation) list"
  mm_store :: "FileSnapshotStore option"
  mm_persistence :: "PersistenceHandle option"
  mm_now :: instant
  mm_wall :: millis
  mm_gen :: "nat \<Rightarrow> string"
  mm_gen_next :: nat
  mm_clients :: "cref \<Rightarrow> client"
  mm_next_ref :: cref
  mm_calls :: nat

record ('r, 's, 'i, 'h) Surroundings =
  float_string :: "rat \<Rightarrow> string"
  value_string :: "json \<Rightarrow> string"
  meanwhile :: "nat \<Rightarrow> ('r, 's, 'i, 'h) MatchMaker \<Rightarrow> ('r, 's, 'i, 'h) MatchMaker"
  rpc_late :: "nat \<Rightarrow> bool"
  unpack :: "bytes \<Rightarrow> (string, RoomSnapshot) result"
  crc :: "bytes \<Rightarrow> 32 word"
  delete_outcome :: "string option"
  quarantine_ok :: bool

definition await ::
  "('r, 's, 'i, 'h) Surroundings \<Rightarrow> ('r, 's, 'i, 'h) MatchMaker \<Rightarrow> ('r, 's, 'i, 'h) MatchMaker" where
  "await env w = meanwhile env (mm_calls w) (w\<lparr>mm_calls := mm_calls w + 1\<rparr>)"

definition mm_generate_id :: "('r, 's, 'i, 'h) MatchMaker \<Rightarrow> string \<times> ('r, 's, 'i, 'h) MatchMaker" where
  "mm_generate_id w = (mm_gen w (mm_gen_next w), w\<lparr>mm_gen_next := mm_gen_next w + 1\<rparr>)"

definition matchmaker_new ::
  "LocalPresence option \<Rightarrow> LocalDriver option \<Rightarrow> string option \<Rightarrow> (PersistenceHandle \<times> FileSnapshotStore) option
     \<Rightarrow> instant \<Rightarrow> millis \<Rightarrow> (nat \<Rightarrow> string) \<Rightarrow> (cref \<Rightarrow> client) \<Rightarrow> ('r, 's, 'i, 'h) MatchMaker" where
  "matchmaker_new ps d address pers t wl g st =
     \<lparr>mm_handlers = [], mm_rooms = [],
      mm_driver = (case d of Some d' \<Rightarrow> d' | None \<Rightarrow> driver_new),
      mm_presence = (case ps of Some p \<Rightarrow> p | None \<Rightarrow> presence_new),
      mm_process_id = g 0, mm_public_address = address, mm_shutting_down = False, mm_lobby_tx = [],
      mm_create_locks = [], mm_idempotency = [], mm_store = map_option snd pers,
      mm_persistence = map_option fst pers, mm_now = t, mm_wall = wl, mm_gen = g, mm_gen_next = 1,
      mm_clients = st, mm_next_ref = 0, mm_calls = 0\<rparr>"

definition sample_listing :: RoomListing where
  "sample_listing =
     \<lparr>l_room_id = ''r1'', l_name = ''game'', l_process_id = ''p'', l_clients = 1, l_max_clients = Some 2,
      l_locked = False, l_private = False, l_metadata = None, l_created_at = 0, l_extra = []\<rparr>"

definition sample_reservation :: SeatReservation where
  "sample_reservation =
     \<lparr>sr_room = sample_listing, sr_session_id = ''s1'', sr_reconnection_token = None,
      sr_public_address = None, sr_process_id = ''p''\<rparr>"

definition sample_mm :: "(unit, json, unit, nat) MatchMaker" where
  "sample_mm = matchmaker_new None None None None 0 0 (\<lambda>n. replicate n (CHR ''x'')) (\<lambda>_. client_new 0 [] [])"

definition sample_env :: "(unit, json, unit, nat) Surroundings" where
  "sample_env =
     \<lparr>float_string = (\<lambda>_. ''1.5''), value_string = (\<lambda>_. ''v''), meanwhile = (\<lambda>_ w. w), rpc_late = (\<lambda>_. False),
      unpack = (\<lambda>_. Inl ''bad''), crc = (\<lambda>_. 0), delete_outcome = None, quarantine_ok = True\<rparr>"

section \<open>The registry\<close>

definition register ::
  "('r, 's, 'i, 'h) RegisteredHandler \<Rightarrow> ('r, 's, 'i, 'h) MatchMaker \<Rightarrow> ('r, 's, 'i, 'h) MatchMaker" where
  "register h w = w\<lparr>mm_handlers := AList.update (rh_name h) h (mm_handlers w)\<rparr>"

definition remove_room_type ::
  "string \<Rightarrow> ('r, 's, 'i, 'h) MatchMaker \<Rightarrow> ('r, 's, 'i, 'h) MatchMaker" where
  "remove_room_type name w = w\<lparr>mm_handlers := AList.delete name (mm_handlers w)\<rparr>"

definition handlers :: "('r, 's, 'i, 'h) MatchMaker \<Rightarrow> ('r, 's, 'i, 'h) RegisteredHandler list" where
  "handlers w = map snd (mm_handlers w)"

definition get_handler ::
  "string \<Rightarrow> ('r, 's, 'i, 'h) MatchMaker \<Rightarrow> (ServerError, ('r, 's, 'i, 'h) RegisteredHandler) result" where
  "get_handler name w =
     (case map_of (mm_handlers w) name of Some h \<Rightarrow> Inr h | None \<Rightarrow> Inl (no_handler name))"

section \<open>Running a room\<close>

definition lend ::
  "('r, 's, 'i, 'h) MatchMaker \<Rightarrow> ('s, 'i, 'h) RoomContext \<Rightarrow> ('s, 'i, 'h) RoomContext" where
  "lend w ctx =
     ctx\<lparr>driver := mm_driver w, presence := mm_presence w, lobby_tx := mm_lobby_tx w,
         now := mm_now w, wall := mm_wall w, gen := mm_gen w, gen_next := mm_gen_next w,
         store := mm_clients w, next_ref := mm_next_ref w,
         persistence := (case (persistence ctx, mm_persistence w) of
            (Some p, Some q) \<Rightarrow> Some (p\<lparr>writer := writer q\<rparr>) | (p, _) \<Rightarrow> p)\<rparr>"

definition reclaim ::
  "('s, 'i, 'h) RoomContext \<Rightarrow> ('r, 's, 'i, 'h) MatchMaker \<Rightarrow> ('r, 's, 'i, 'h) MatchMaker" where
  "reclaim ctx w =
     w\<lparr>mm_driver := driver ctx, mm_presence := presence ctx, mm_lobby_tx := lobby_tx ctx,
       mm_gen_next := gen_next ctx, mm_clients := store ctx, mm_next_ref := next_ref ctx,
       mm_persistence := (case (persistence ctx, mm_persistence w) of
          (Some p, Some q) \<Rightarrow> Some (q\<lparr>writer := writer p\<rparr>) | (_, q) \<Rightarrow> q)\<rparr>"

text \<open>
  The room serves the \<open>n\<close> events ahead and then the one asked. \<open>None\<close>: it ended before,
  and the channel for the answer is dropped.
\<close>

fun serve ::
  "nat \<Rightarrow> ('r, 's, 'i, 'h) RoomHooks \<Rightarrow> ('r, 's, 'i, 'h) RoomActor
     \<Rightarrow> Flow \<times> Response option \<times> ('r, 's, 'i, 'h) RoomActor" where
  "serve 0 H a = (case run_turn H a of None \<Rightarrow> (Continue, None, a) | Some (fl, res, a') \<Rightarrow> (fl, Some res, a'))"
| "serve (Suc n) H a =
     (case run_turn H a of
        None \<Rightarrow> (Continue, None, a)
      | Some (Break, res, a') \<Rightarrow> (Break, None, a')
      | Some (Continue, res, a') \<Rightarrow> serve n H a')"

text \<open>A room that ends takes itself out of the map (the clean-up callback).\<close>

definition ask ::
  "string \<Rightarrow> 'h RoomEvent \<Rightarrow> ('r, 's, 'i, 'h) MatchMaker \<Rightarrow> Response option \<times> ('r, 's, 'i, 'h) MatchMaker" where
  "ask rid ev w =
     (case map_of (mm_rooms w) rid of
        None \<Rightarrow> (None, w)
      | Some (H, a) \<Rightarrow>
          let ahead = (case sender (actor_ctx a) of Some q \<Rightarrow> length q | None \<Rightarrow> 0);
              a1 = a\<lparr>actor_ctx := (lend w (actor_ctx a))\<lparr>
                       sender := map_option (\<lambda>q. q @ [ev]) (sender (actor_ctx a))\<rparr>\<rparr>
          in case serve ahead H a1 of
              (fl, res, a2) \<Rightarrow>
                let w1 = reclaim (actor_ctx a2) w
                in (res, w1\<lparr>mm_rooms := (if fl = Break then AList.delete rid (mm_rooms w1)
                                       else AList.update rid (H, a2) (mm_rooms w1))\<rparr>))"

section \<open>Reserving a seat\<close>

definition reserve_seat ::
  "('r, 's, 'i, 'h) Surroundings \<Rightarrow> RoomListing \<Rightarrow> json \<Rightarrow> AuthContext \<Rightarrow> ('r, 's, 'i, 'h) MatchMaker
     \<Rightarrow> (ServerError, SeatReservation) result \<times> ('r, 's, 'i, 'h) MatchMaker" where
  "reserve_seat env lst options auth w =
     (let rid = l_room_id lst
      in if map_of (mm_rooms w) rid = None
         then (Inl seat_expired, w\<lparr>mm_driver := snd (driver_remove rid (mm_driver w))\<rparr>)
         else
           let (sid, w1) = mm_generate_id w;
               late = rpc_late env (mm_calls w1);
               (answer, w2) = ask rid (ReserveSeat sid options auth) w1;
               w3 = await env w2
           in if late then (Inl (new_error MATCHMAKE_UNHANDLED ''seat reservation timed out''), w3)
              else (case answer of
                      Some (RUnit (Inr _)) \<Rightarrow>
                        (case driver_get rid (mm_driver w3) of
                           None \<Rightarrow> (Inl seat_expired, w3)
                         | Some room \<Rightarrow>
                             (Inr \<lparr>sr_room = room, sr_session_id = sid, sr_reconnection_token = None,
                                   sr_public_address = mm_public_address w3,
                                   sr_process_id = mm_process_id w3\<rparr>, w3))
                    | Some (RUnit (Inl e)) \<Rightarrow> (Inl e, w3)
                    | _ \<Rightarrow> (Inl seat_expired, w3)))"

section \<open>Finding a room\<close>

definition plain_query :: "(string \<times> Condition) list \<Rightarrow> SortOptions \<Rightarrow> RoomQuery" where
  "plain_query conditions so =
     \<lparr>q_name = None, q_conditions = conditions, q_sort = so, q_limit = None, q_offset = 0, q_count = False\<rparr>"

definition find_match ::
  "('r, 's, 'i, 'h) Surroundings \<Rightarrow> ('r, 's, 'i, 'h) RegisteredHandler \<Rightarrow> (string \<times> Condition) list
     \<Rightarrow> (string \<times> Condition) list \<Rightarrow> json \<Rightarrow> ('r, 's, 'i, 'h) MatchMaker \<Rightarrow> RoomListing option" where
  "find_match env h conditions flt options w =
     (let query = plain_query (conditions @ flt) (if match_sort h \<noteq> None then [] else rh_sort_by h);
          candidates = items (driver_query_rooms (float_string env) query (mm_driver w));
          candidates = (case match_filter h of
                          Some p \<Rightarrow> filter (\<lambda>l. p l options) candidates | None \<Rightarrow> candidates);
          candidates = (case match_sort h of Some c \<Rightarrow> sort_by c candidates | None \<Rightarrow> candidates)
      in case candidates of [] \<Rightarrow> None | l # _ \<Rightarrow> Some l)"

text \<open>The loop over the listings found: a stale one is removed, the first live one is returned.\<close>

fun first_live ::
  "RoomListing list \<Rightarrow> ('r, 's, 'i, 'h) MatchMaker \<Rightarrow> RoomListing option \<times> ('r, 's, 'i, 'h) MatchMaker" where
  "first_live [] w = (None, w)"
| "first_live (l # ls) w =
     (if map_of (mm_rooms w) (l_room_id l) \<noteq> None then (Some l, w)
      else first_live ls (w\<lparr>mm_driver := snd (driver_remove (l_room_id l) (mm_driver w))\<rparr>))"

definition find_live ::
  "('r, 's, 'i, 'h) Surroundings \<Rightarrow> (string \<times> Condition) list \<Rightarrow> ('r, 's, 'i, 'h) MatchMaker
     \<Rightarrow> RoomListing option \<times> ('r, 's, 'i, 'h) MatchMaker" where
  "find_live env conditions w =
     first_live (items (driver_query_rooms (float_string env) (plain_query conditions []) (mm_driver w))) w"

section \<open>Creation locks\<close>

text \<open>A reference to the lock of a key; the entry is made on demand.\<close>

definition create_lock :: "string \<Rightarrow> ('r, 's, 'i, 'h) MatchMaker \<Rightarrow> ('r, 's, 'i, 'h) MatchMaker" where
  "create_lock key w =
     w\<lparr>mm_create_locks :=
         AList.update key ((case map_of (mm_create_locks w) key of Some n \<Rightarrow> n | None \<Rightarrow> 0) + 1) (mm_create_locks w)\<rparr>"

text \<open>
  The entry goes when the map and this task hold the only references (a strong count of
  at most 2).
\<close>

definition release_create_lock :: "string \<Rightarrow> ('r, 's, 'i, 'h) MatchMaker \<Rightarrow> ('r, 's, 'i, 'h) MatchMaker" where
  "release_create_lock key w =
     (case map_of (mm_create_locks w) key of
        None \<Rightarrow> w
      | Some n \<Rightarrow> if n \<le> 1 then w\<lparr>mm_create_locks := AList.delete key (mm_create_locks w)\<rparr> else w)"

text \<open>The task drops its reference at the end of its scope.\<close>

definition drop_lock :: "string \<Rightarrow> ('r, 's, 'i, 'h) MatchMaker \<Rightarrow> ('r, 's, 'i, 'h) MatchMaker" where
  "drop_lock key w =
     (case map_of (mm_create_locks w) key of
        None \<Rightarrow> w
      | Some n \<Rightarrow> w\<lparr>mm_create_locks := AList.update key (n - 1) (mm_create_locks w)\<rparr>)"

section \<open>Creating a room\<close>

definition spawn_new_room ::
  "('r, 's, 'i, 'h) Surroundings \<Rightarrow> string \<Rightarrow> ('r, 's, 'i, 'h) RegisteredHandler \<Rightarrow> json
     \<Rightarrow> ('r, 's, 'i, 'h) MatchMaker \<Rightarrow> (ServerError, RoomListing) result \<times> ('r, 's, 'i, 'h) MatchMaker" where
  "spawn_new_room env name h options w0 =
     (let (rid, w) = mm_generate_id w0;
          ctx = room_context_new rid name (mm_process_id w) (mm_driver w) (mm_presence w) (mm_lobby_tx w)
                  (handler_filter_extra h options) (if rh_persistent h then mm_persistence w else None)
                  (mm_now w) (mm_wall w) (mm_gen w) (mm_gen_next w) (mm_clients w) (mm_next_ref w)
      in case spawn_room (snd (factory h)) (fst (factory h)) ctx options of
          Inl (e, ctx') \<Rightarrow>
            (Inl (new_error (if err_code e = 0 then MATCHMAKE_UNHANDLED else err_code e) (err_message e)),
             await env (reclaim ctx' w))
        | Inr (a, lst) \<Rightarrow>
            let w1 = await env (reclaim (actor_ctx a) w)
            in (Inr lst, w1\<lparr>mm_rooms := AList.update rid (snd (factory h), a) (mm_rooms w1),
                               mm_driver := driver_insert lst (mm_driver w1),
                               mm_lobby_tx := mm_lobby_tx w1 @ [RoomCreated lst]\<rparr>))"

definition has_unique_key :: "('r, 's, 'i, 'h) RegisteredHandler \<Rightarrow> json \<Rightarrow> bool" where
  "has_unique_key h options \<longleftrightarrow>
     rh_unique_by h \<noteq> [] \<and> list_all (\<lambda>f. json_get options f \<noteq> None) (rh_unique_by h)"

definition create_room_inner ::
  "('r, 's, 'i, 'h) Surroundings \<Rightarrow> string \<Rightarrow> json \<Rightarrow> ('r, 's, 'i, 'h) MatchMaker
     \<Rightarrow> (ServerError, CreateRoomOutcome) result \<times> ('r, 's, 'i, 'h) MatchMaker" where
  "create_room_inner env name options w =
     (case get_handler name w of
        Inl e \<Rightarrow> (Inl e, w)
      | Inr h \<Rightarrow>
          if has_unique_key h options then
            let key_conditions = unique_conditions h options;
                key = name @ '':unique:'' @ conditions_key (value_string env) key_conditions;
                w1 = await env (create_lock key w);
                (found, w2) = find_live env key_conditions w1;
                (outcome, w3) =
                  (case found of
                     Some l \<Rightarrow> (Inr \<lparr>outcome_listing = l, created = False\<rparr>, w2)
                   | None \<Rightarrow>
                       (case spawn_new_room env name h options w2 of
                          (Inl e, w3) \<Rightarrow> (Inl e, w3)
                        | (Inr l, w3) \<Rightarrow> (Inr \<lparr>outcome_listing = l, created = True\<rparr>, w3)))
            in (outcome, drop_lock key (release_create_lock key w3))
          else
            (case spawn_new_room env name h options w of
               (Inl e, w1) \<Rightarrow> (Inl e, w1)
             | (Inr l, w1) \<Rightarrow> (Inr \<lparr>outcome_listing = l, created = True\<rparr>, w1)))"

definition create_room ::
  "('r, 's, 'i, 'h) Surroundings \<Rightarrow> string \<Rightarrow> json \<Rightarrow> ('r, 's, 'i, 'h) MatchMaker
     \<Rightarrow> (ServerError, CreateRoomOutcome) result \<times> ('r, 's, 'i, 'h) MatchMaker" where
  "create_room env name options w = create_room_inner env name options w"

definition mm_create ::
  "('r, 's, 'i, 'h) Surroundings \<Rightarrow> string \<Rightarrow> json \<Rightarrow> AuthContext \<Rightarrow> ('r, 's, 'i, 'h) MatchMaker
     \<Rightarrow> (ServerError, SeatReservation) result \<times> ('r, 's, 'i, 'h) MatchMaker" where
  "mm_create env name options auth w =
     (case get_handler name w of
        Inl e \<Rightarrow> (Inl e, w)
      | Inr h \<Rightarrow>
          (case create_room_inner env name (merged_options h options) w of
             (Inl e, w1) \<Rightarrow> (Inl e, w1)
           | (Inr outcome, w1) \<Rightarrow> reserve_seat env (outcome_listing outcome) options auth w1))"

section \<open>Joining\<close>

text \<open>
  The retry loop of the three join operations: \<open>look\<close> looks for a listing or fails,
  \<open>n\<close> attempts are left, a seat that could not be reserved is the last error.
\<close>

fun seat_loop ::
  "('r, 's, 'i, 'h) Surroundings
     \<Rightarrow> (('r, 's, 'i, 'h) MatchMaker \<Rightarrow> (ServerError, RoomListing) result \<times> ('r, 's, 'i, 'h) MatchMaker)
     \<Rightarrow> json \<Rightarrow> AuthContext \<Rightarrow> nat \<Rightarrow> ServerError \<Rightarrow> ('r, 's, 'i, 'h) MatchMaker
     \<Rightarrow> (ServerError, SeatReservation) result \<times> ('r, 's, 'i, 'h) MatchMaker" where
  "seat_loop env look options auth 0 last_err w = (Inl last_err, w)"
| "seat_loop env look options auth (Suc n) last_err w =
     (case look w of
        (Inl e, w1) \<Rightarrow> (Inl e, w1)
      | (Inr lst, w1) \<Rightarrow>
          (case reserve_seat env lst options auth w1 of
             (Inr reservation, w2) \<Rightarrow> (Inr reservation, w2)
           | (Inl e, w2) \<Rightarrow>
               if is_seat_reservation_failure e then seat_loop env look options auth n e w2
               else (Inl e, w2)))"

definition join_find ::
  "('r, 's, 'i, 'h) Surroundings \<Rightarrow> ('r, 's, 'i, 'h) RegisteredHandler \<Rightarrow> (string \<times> Condition) list \<Rightarrow> json
     \<Rightarrow> ('r, 's, 'i, 'h) MatchMaker \<Rightarrow> (ServerError, RoomListing) result \<times> ('r, 's, 'i, 'h) MatchMaker" where
  "join_find env h flt options w =
     (case find_match env h (match_conditions h options) flt options w of
        Some l \<Rightarrow> (Inr l, w)
      | None \<Rightarrow>
          (Inl (new_error MATCHMAKE_INVALID_CRITERIA ''no rooms found with the provided criteria''), w))"

definition join_inner ::
  "('r, 's, 'i, 'h) Surroundings \<Rightarrow> string \<Rightarrow> json \<Rightarrow> (string \<times> Condition) list \<Rightarrow> AuthContext
     \<Rightarrow> ('r, 's, 'i, 'h) MatchMaker \<Rightarrow> (ServerError, SeatReservation) result \<times> ('r, 's, 'i, 'h) MatchMaker" where
  "join_inner env name options flt auth w =
     (case get_handler name w of
        Inl e \<Rightarrow> (Inl e, w)
      | Inr h \<Rightarrow> seat_loop env (join_find env h flt options) options auth (Suc JOIN_RETRIES) seat_expired w)"

definition by_id_find ::
  "string \<Rightarrow> ('r, 's, 'i, 'h) MatchMaker \<Rightarrow> (ServerError, RoomListing) result \<times> ('r, 's, 'i, 'h) MatchMaker" where
  "by_id_find rid w =
     (case driver_get rid (mm_driver w) of
        None \<Rightarrow> (Inl (room_not_found rid), w)
      | Some l \<Rightarrow>
          if l_locked l
          then (Inl (new_error MATCHMAKE_INVALID_ROOM_ID (''room '' @ quote @ rid @ quote @ '' is locked'')), w)
          else (Inr l, w))"

definition join_by_id ::
  "('r, 's, 'i, 'h) Surroundings \<Rightarrow> string \<Rightarrow> json \<Rightarrow> AuthContext
     \<Rightarrow> ('r, 's, 'i, 'h) MatchMaker \<Rightarrow> (ServerError, SeatReservation) result \<times> ('r, 's, 'i, 'h) MatchMaker" where
  "join_by_id env rid options auth w =
     seat_loop env (by_id_find rid) options auth (Suc JOIN_RETRIES) seat_expired w"

text \<open>
  Find or create. An error of the creation returns at once, before the lock is released;
  its reference is dropped with the task.
\<close>

definition find_or_create ::
  "('r, 's, 'i, 'h) Surroundings \<Rightarrow> string \<Rightarrow> ('r, 's, 'i, 'h) RegisteredHandler \<Rightarrow> (string \<times> Condition) list \<Rightarrow> json
     \<Rightarrow> ('r, 's, 'i, 'h) MatchMaker \<Rightarrow> (ServerError, RoomListing) result \<times> ('r, 's, 'i, 'h) MatchMaker" where
  "find_or_create env name h flt options w =
     (let conditions = match_conditions h options
      in case find_match env h conditions flt options w of
          Some l \<Rightarrow> (Inr l, w)
        | None \<Rightarrow>
            let key = name @ '':'' @ conditions_key (value_string env) conditions;
                w1 = await env (create_lock key w);
                finish = (\<lambda>r w2. (r, drop_lock key (release_create_lock key w2)))
            in case find_match env h conditions flt options w1 of
                Some l \<Rightarrow> finish (Inr l) w1
              | None \<Rightarrow>
                  (case create_room_inner env name (merged_options h options) w1 of
                     (Inl e, w2) \<Rightarrow> (Inl e, drop_lock key w2)
                   | (Inr outcome, w2) \<Rightarrow>
                       if \<not> created outcome
                          \<and> (case find_match env h conditions flt options w2 of
                               None \<Rightarrow> True
                             | Some l \<Rightarrow> l_room_id l \<noteq> l_room_id (outcome_listing outcome))
                       then finish (Inl seat_expired) w2
                       else finish (Inr (outcome_listing outcome)) w2))"

definition join_or_create_inner ::
  "('r, 's, 'i, 'h) Surroundings \<Rightarrow> string \<Rightarrow> json \<Rightarrow> (string \<times> Condition) list \<Rightarrow> AuthContext
     \<Rightarrow> ('r, 's, 'i, 'h) MatchMaker \<Rightarrow> (ServerError, SeatReservation) result \<times> ('r, 's, 'i, 'h) MatchMaker" where
  "join_or_create_inner env name options flt auth w =
     (case get_handler name w of
        Inl e \<Rightarrow> (Inl e, w)
      | Inr h \<Rightarrow>
          seat_loop env (find_or_create env name h flt options) options auth JOIN_OR_CREATE_RETRIES
            (new_error MATCHMAKE_UNHANDLED ''join_or_create failed'') w)"

section \<open>The checked entry points\<close>

definition join_or_create ::
  "('r, 's, 'i, 'h) Surroundings \<Rightarrow> string \<Rightarrow> json \<Rightarrow> AuthContext
     \<Rightarrow> ('r, 's, 'i, 'h) MatchMaker \<Rightarrow> (ServerError, SeatReservation) result \<times> ('r, 's, 'i, 'h) MatchMaker" where
  "join_or_create env name options auth w = join_or_create_inner env name options [] auth w"

definition mm_join ::
  "('r, 's, 'i, 'h) Surroundings \<Rightarrow> string \<Rightarrow> json \<Rightarrow> AuthContext
     \<Rightarrow> ('r, 's, 'i, 'h) MatchMaker \<Rightarrow> (ServerError, SeatReservation) result \<times> ('r, 's, 'i, 'h) MatchMaker" where
  "mm_join env name options auth w = join_inner env name options [] auth w"

definition CORE_FILTER_FIELDS :: "string list" where
  "CORE_FILTER_FIELDS =
     [''name'', ''clients'', ''maxClients'', ''locked'', ''private'', ''createdAt'', ''processId'']"

definition allowed_field :: "string \<Rightarrow> string \<Rightarrow> ('r, 's, 'i, 'h) MatchMaker \<Rightarrow> bool" where
  "allowed_field name field w \<longleftrightarrow>
     (if field = ''roomId'' then False
      else if field \<in> set CORE_FILTER_FIELDS \<or> starts_with field ''metadata.'' then True
      else case get_handler name w of
          Inr h \<Rightarrow> list_ex (\<lambda>f. f = field) (rh_filter_by h)
        | Inl _ \<Rightarrow> False)"

definition unknown_field :: "string \<Rightarrow> string \<Rightarrow> ServerError" where
  "unknown_field what field =
     new_error MATCHMAKE_INVALID_CRITERIA (''unknown '' @ what @ '' field '' @ quote @ field @ quote)"

fun check_fields ::
  "string \<Rightarrow> string list \<Rightarrow> string \<Rightarrow> ('r, 's, 'i, 'h) MatchMaker \<Rightarrow> (ServerError, unit) result" where
  "check_fields name [] what w = Inr ()"
| "check_fields name (field # rest) what w =
     (if \<not> allowed_field name field w then Inl (unknown_field what field)
      else check_fields name rest what w)"

definition join_or_create_with_filter ::
  "('r, 's, 'i, 'h) Surroundings \<Rightarrow> string \<Rightarrow> json \<Rightarrow> (string \<times> Condition) list \<Rightarrow> AuthContext
     \<Rightarrow> ('r, 's, 'i, 'h) MatchMaker \<Rightarrow> (ServerError, SeatReservation) result \<times> ('r, 's, 'i, 'h) MatchMaker" where
  "join_or_create_with_filter env name options flt auth w =
     (case check_fields name (map fst flt) ''filter'' w of
        Inl e \<Rightarrow> (Inl e, w)
      | Inr _ \<Rightarrow> join_or_create_inner env name options flt auth w)"

definition join_with_filter ::
  "('r, 's, 'i, 'h) Surroundings \<Rightarrow> string \<Rightarrow> json \<Rightarrow> (string \<times> Condition) list \<Rightarrow> AuthContext
     \<Rightarrow> ('r, 's, 'i, 'h) MatchMaker \<Rightarrow> (ServerError, SeatReservation) result \<times> ('r, 's, 'i, 'h) MatchMaker" where
  "join_with_filter env name options flt auth w =
     (case check_fields name (map fst flt) ''filter'' w of
        Inl e \<Rightarrow> (Inl e, w)
      | Inr _ \<Rightarrow> join_inner env name options flt auth w)"

definition parse_match_filter ::
  "string \<Rightarrow> json \<Rightarrow> ('r, 's, 'i, 'h) MatchMaker \<Rightarrow> (ServerError, (string \<times> Condition) list) result" where
  "parse_match_filter name flt w =
     (case get_handler name w of
        Inl e \<Rightarrow> Inl e
      | Inr _ \<Rightarrow>
          (case parse_filter flt of
             Inl m \<Rightarrow> Inl (new_error MATCHMAKE_INVALID_CRITERIA m)
           | Inr conditions \<Rightarrow>
               (case check_fields name (map fst conditions) ''filter'' w of
                  Inl e \<Rightarrow> Inl e
                | Inr _ \<Rightarrow> Inr conditions)))"

section \<open>Reconnecting\<close>

definition mm_reconnect ::
  "('r, 's, 'i, 'h) Surroundings \<Rightarrow> string \<Rightarrow> string
     \<Rightarrow> ('r, 's, 'i, 'h) MatchMaker \<Rightarrow> (ServerError, SeatReservation) result \<times> ('r, 's, 'i, 'h) MatchMaker" where
  "mm_reconnect env rid token w =
     (case driver_get rid (mm_driver w) of
        None \<Rightarrow>
          (Inl (new_error MATCHMAKE_INVALID_ROOM_ID
             (''room '' @ quote @ rid @ quote @ '' has been disposed. Did you forget allow_reconnection()?'')), w)
      | Some l \<Rightarrow>
          if map_of (mm_rooms w) rid = None then (Inl (room_not_found rid), w)
          else
            let late = rpc_late env (mm_calls w);
                (answer, w1) = ask rid (CheckReconnection token) w;
                w2 = await env w1
            in case (late, answer) of
                (False, Some (RSession (Some sid))) \<Rightarrow>
                  (Inr \<lparr>sr_room = l, sr_session_id = sid, sr_reconnection_token = Some token,
                        sr_public_address = mm_public_address w2, sr_process_id = mm_process_id w2\<rparr>, w2)
              | _ \<Rightarrow> (Inl (new_error MATCHMAKE_EXPIRED ''reconnection token invalid or expired''), w2))"

section \<open>Queries\<close>

definition query ::
  "(rat \<Rightarrow> string) \<Rightarrow> string option \<Rightarrow> Conditions \<Rightarrow> ('r, 's, 'i, 'h) MatchMaker \<Rightarrow> RoomListing list" where
  "query ff name conditions w =
     driver_query ff (case name of None \<Rightarrow> conditions | Some n \<Rightarrow> map_insert ''name'' (JStr n) conditions)
       None (mm_driver w)"

definition core_field :: "string \<Rightarrow> bool" where
  "core_field field \<longleftrightarrow>
     field \<noteq> ''roomId'' \<and> (field \<in> set CORE_FILTER_FIELDS \<or> starts_with field ''metadata.'')"

fun check_core :: "string list \<Rightarrow> string \<Rightarrow> (ServerError, unit) result" where
  "check_core [] what = Inr ()"
| "check_core (field # rest) what =
     (if \<not> core_field field then Inl (unknown_field what field) else check_core rest what)"

definition query_rooms ::
  "(rat \<Rightarrow> string) \<Rightarrow> string option \<Rightarrow> RoomQuery \<Rightarrow> ('r, 's, 'i, 'h) MatchMaker
     \<Rightarrow> (ServerError, RoomQueryResult) result" where
  "query_rooms ff name q0 w =
     (let q = (case name of Some n \<Rightarrow> q0\<lparr>q_name := Some n\<rparr> | None \<Rightarrow> q0);
          check = (\<lambda>fs what. case q_name q of Some n \<Rightarrow> check_fields n fs what w | None \<Rightarrow> check_core fs what)
      in case check (map fst (q_conditions q)) ''filter'' of
          Inl e \<Rightarrow> Inl e
        | Inr _ \<Rightarrow>
            (case check (map fst (q_sort q)) ''sort'' of
               Inl e \<Rightarrow> Inl e
             | Inr _ \<Rightarrow> Inr (driver_query_rooms ff q (mm_driver w))))"

definition count_listing :: "RoomListing \<Rightarrow> RoomStats \<Rightarrow> RoomStats" where
  "count_listing l st0 =
     (let st = st0\<lparr>st_total := st_total st0 + 1\<rparr>;
          st = (if l_private l then st\<lparr>st_private := st_private st + 1\<rparr> else st);
          st = (if l_locked l then st\<lparr>st_locked := st_locked st + 1\<rparr> else st);
          at_capacity = (case l_max_clients l of None \<Rightarrow> False | Some m \<Rightarrow> m \<le> l_clients l)
      in if l_locked l \<or> at_capacity then st\<lparr>st_full := st_full st + 1\<rparr>
         else let st = st\<lparr>st_open := st_open st + 1\<rparr>
              in if 1 \<le> l_clients l then st\<lparr>st_waiting := st_waiting st + 1\<rparr> else st)"

definition room_stats :: "string option \<Rightarrow> ('r, 's, 'i, 'h) MatchMaker \<Rightarrow> RoomStats" where
  "room_stats name w =
     fold (\<lambda>l st. if (case name of None \<Rightarrow> False | Some n \<Rightarrow> l_name l \<noteq> n) then st else count_listing l st)
       (driver_all (mm_driver w))
       \<lparr>st_total = 0, st_open = 0, st_waiting = 0, st_full = 0, st_locked = 0, st_private = 0\<rparr>"

section \<open>Shutdown\<close>

text \<open>Sleeping: the others run, and at least the given time goes by.\<close>

definition sleep ::
  "('r, 's, 'i, 'h) Surroundings \<Rightarrow> duration \<Rightarrow> ('r, 's, 'i, 'h) MatchMaker \<Rightarrow> ('r, 's, 'i, 'h) MatchMaker" where
  "sleep env d w = (let w1 = await env w in w1\<lparr>mm_now := max (mm_now w1) (mm_now w + d)\<rparr>)"

function wait_empty ::
  "('r, 's, 'i, 'h) Surroundings \<Rightarrow> instant \<Rightarrow> ('r, 's, 'i, 'h) MatchMaker \<Rightarrow> ('r, 's, 'i, 'h) MatchMaker" where
  "wait_empty env deadline w =
     (if mm_rooms w \<noteq> [] \<and> mm_now w < deadline
      then wait_empty env deadline (sleep env (from_millis 20) w) else w)"
  by pat_completeness auto
termination
  by (relation "measure (\<lambda>(env, deadline, w). deadline - mm_now w)")
    (auto simp: sleep_def Let_def from_millis_def)

declare wait_empty.simps [simp del]

text \<open>An event in the mailbox of a room; a room whose mailbox is closed drops it.\<close>

definition post_room ::
  "'h RoomEvent \<Rightarrow> ('r, 's, 'i, 'h) RoomHooks \<times> ('r, 's, 'i, 'h) RoomActor
     \<Rightarrow> ('r, 's, 'i, 'h) RoomHooks \<times> ('r, 's, 'i, 'h) RoomActor" where
  "post_room ev = (\<lambda>(H, a).
     (H, a\<lparr>actor_ctx := (actor_ctx a)\<lparr>sender := map_option (\<lambda>q. q @ [ev]) (sender (actor_ctx a))\<rparr>\<rparr>))"

definition shutdown ::
  "('r, 's, 'i, 'h) Surroundings \<Rightarrow> ('r, 's, 'i, 'h) MatchMaker \<Rightarrow> ('r, 's, 'i, 'h) MatchMaker" where
  "shutdown env w =
     (if mm_shutting_down w then w
      else
        let w1 = w\<lparr>mm_shutting_down := True,
                   mm_rooms := map (\<lambda>(rid, r). (rid, post_room Shutdown r)) (mm_rooms w)\<rparr>;
            w2 = wait_empty env (mm_now w1 + from_secs 5) w1;
            w3 = w2\<lparr>mm_driver := driver_clear (mm_driver w2)\<rparr>
        in w3\<lparr>mm_persistence := map_option (\<lambda>p. p\<lparr>writer := writer_flush (mm_calls w3) (writer p)\<rparr>)
                                 (mm_persistence w3)\<rparr>)"

section \<open>Restoring\<close>

definition restore_room ::
  "('r, 's, 'i, 'h) Surroundings \<Rightarrow> string \<Rightarrow> ('r, 's, 'i, 'h) MatchMaker
     \<Rightarrow> (ServerError, RoomListing option) result \<times> ('r, 's, 'i, 'h) MatchMaker" where
  "restore_room env rid w =
     (case mm_store w of
        None \<Rightarrow> (Inl (new_error APPLICATION_ERROR ''no snapshot store configured''), w)
      | Some st \<Rightarrow>
     (case store_load rid st of
        None \<Rightarrow> (Inl (room_not_found rid), w)
      | Some bs \<Rightarrow>
     (case decode_snapshot (unpack env) (crc env) bs of
        Inl e \<Rightarrow>
          (Inl (new_error APPLICATION_ERROR (''corrupt snapshot for '' @ rid @ '': '' @ e)),
           w\<lparr>mm_store := Some (store_quarantine (quarantine_ok env) (mm_wall w) rid st)\<rparr>)
      | Inr snap \<Rightarrow>
          if map_of (mm_rooms w) (s_room_id snap) \<noteq> None
          then (Inl (new_error APPLICATION_ERROR (''room '' @ s_room_id snap @ '' is already running'')), w)
          else
     (case get_handler (s_room_name snap) w of
        Inl _ \<Rightarrow> (Inl (no_handler (s_room_name snap)), w)
      | Inr h \<Rightarrow>
          if \<not> rh_persistent h
          then (Inr None, w\<lparr>mm_store := Some (snd (store_delete (delete_outcome env) rid st))\<rparr>)
          else
            let ctx = room_context_new (s_room_id snap) (s_room_name snap) (mm_process_id w) (mm_driver w)
                        (mm_presence w) (mm_lobby_tx w) (s_filter_extra snap) (mm_persistence w)
                        (mm_now w) (mm_wall w) (mm_gen w) (mm_gen_next w) (mm_clients w) (mm_next_ref w)
            in case spawn_restored_room (snd (factory h)) (fst (factory h)) ctx snap of
                Inl (e, ctx') \<Rightarrow> (Inl e, await env (reclaim ctx' w))
              | Inr (a, lst) \<Rightarrow>
                  let w1 = await env (reclaim (actor_ctx a) w)
                  in (Inr (Some lst),
                      w1\<lparr>mm_rooms := AList.update (l_room_id lst) (snd (factory h), a) (mm_rooms w1),
                         mm_driver := driver_insert lst (mm_driver w1),
                         mm_lobby_tx := mm_lobby_tx w1 @ [RoomCreated lst]\<rparr>)))))"

fun restore_ids ::
  "('r, 's, 'i, 'h) Surroundings \<Rightarrow> string list \<Rightarrow> ('r, 's, 'i, 'h) MatchMaker
     \<Rightarrow> string list \<times> ('r, 's, 'i, 'h) MatchMaker" where
  "restore_ids env [] w = ([], w)"
| "restore_ids env (rid # ids) w =
     (case restore_room env rid w of
        (res, w1) \<Rightarrow>
          (case restore_ids env ids w1 of
             (restored, w2) \<Rightarrow>
               ((case res of Inr (Some _) \<Rightarrow> rid # restored | _ \<Rightarrow> restored), w2)))"

definition restore_all ::
  "('r, 's, 'i, 'h) Surroundings \<Rightarrow> ('r, 's, 'i, 'h) MatchMaker
     \<Rightarrow> string list \<times> ('r, 's, 'i, 'h) MatchMaker" where
  "restore_all env w =
     (case mm_store w of None \<Rightarrow> ([], w) | Some st \<Rightarrow> restore_ids env (store_list_room_ids st) w)"

end
