(* ===== verification/Matching.thy ===== *)
theory Matching
  imports Matchmaker
begin

text \<open>
  What the matchmaker finds and what it answers: the listing picked for a request, the
  retry loop of the join operations, the whitelist of filter fields, default options,
  statistics.
\<close>

section \<open>The listing picked\<close>

definition satisfies :: "(rat \<Rightarrow> string) \<Rightarrow> (string \<times> Condition) list \<Rightarrow> RoomListing \<Rightarrow> bool" where
  "satisfies ff conditions l \<longleftrightarrow>
     (\<forall>(field, c) \<in> set conditions. matches_condition ff (resolve_path (to_flat_value l) field) c)"

lemma unlimited_items:
  assumes "\<not> q_count q" and "q_limit q = None" and "q_offset q = 0" and "length (listings d) \<le> USIZE_MAX"
  shows "items (driver_query_rooms ff q d) = matched_entries ff q d"
proof -
  have "length (matched_entries ff q d) \<le> length (listings d)"
    by (simp add: matched_entries_def Let_def sort_listings_def)
  then show ?thesis
    using assms by (simp add: driver_query_rooms_def matched_entries_def Let_def take_map [symmetric] cong: if_cong)
qed

lemma set_plain_query:
  assumes "driver_wf d"
  shows "set (matched_entries ff (plain_query cs so) d) = {l. driver_get (l_room_id l) d = Some l \<and> satisfies ff cs l}"
proof -
  have e: "entry_matches ff (plain_query cs so) e \<longleftrightarrow> satisfies ff cs (listing e)"
    if "(rid, e) \<in> set (listings d)" for rid e
  proof -
    have "flat e = to_flat_value (listing e)" using that assms by (auto simp: driver_wf_def)
    then show ?thesis
      by (simp add: entry_matches_def plain_query_def satisfies_def list_all_iff)
  qed
  have "set (matched_entries ff (plain_query cs so) d)
      = listing ` {e \<in> snd ` set (listings d). entry_matches ff (plain_query cs so) e}"
    by (metis (no_types) mset_matched_entries set_mset_mset set_map set_filter)
  also have "\<dots> = {l. driver_get (l_room_id l) d = Some l \<and> satisfies ff cs l}"
  proof (intro equalityI subsetI)
    fix l assume "l \<in> {l. driver_get (l_room_id l) d = Some l \<and> satisfies ff cs l}"
    then obtain en where "map_of (listings d) (l_room_id l) = Some en" "listing en = l" and s: "satisfies ff cs l"
      by (auto simp: driver_get_def)
    then show "l \<in> listing ` {e \<in> snd ` set (listings d). entry_matches ff (plain_query cs so) e}"
      using e [of "l_room_id l" en] map_of_SomeD [of "listings d" "l_room_id l" en] by force
  qed (auto simp: e driver_wf_get [OF assms])
  finally show ?thesis .
qed

definition eligible ::
  "('r, 's, 'i, 'h) Surroundings \<Rightarrow> ('r, 's, 'i, 'h) RegisteredHandler \<Rightarrow> (string \<times> Condition) list \<Rightarrow> json
     \<Rightarrow> ('r, 's, 'i, 'h) MatchMaker \<Rightarrow> RoomListing set" where
  "eligible env h conditions options w =
     {l. driver_get (l_room_id l) (mm_driver w) = Some l \<and> satisfies (float_string env) conditions l
         \<and> (\<forall>p. match_filter h = Some p \<longrightarrow> p l options)}"

lemma hd_sort_by:
  assumes "sort_by c xs = l # ls" and "total_cmp c (set xs)" and "l' \<in> set xs"
  shows "c l l' \<noteq> Greater"
proof -
  have "sorted_wrt (\<lambda>a b. c a b \<noteq> Greater) (l # ls)" "l' \<in> set (l # ls)"
    using sorted_sort_by [OF assms(2)] set_sort_by [of c xs] assms(1,3) by simp_all
  moreover have "l \<in> set xs"
    using set_sort_by [of c xs] assms(1) by (metis list.set_intros(1))
  then have "c l l \<noteq> Greater"
    using total_cmp_rev [OF assms(2), of l l] by (cases "c l l") auto
  ultimately show ?thesis by auto
qed

lemma find_match_set:
  assumes "driver_wf (mm_driver w)" and "length (listings (mm_driver w)) \<le> USIZE_MAX"
  shows "\<exists>ls. set ls = eligible env h (conditions @ flt) options w
    \<and> find_match env h conditions flt options w = (case ls of [] \<Rightarrow> None | l # _ \<Rightarrow> Some l)
    \<and> (\<forall>c. match_sort h = Some c \<longrightarrow> (\<exists>xs. ls = sort_by c xs))"
proof -
  define so where "so = (if match_sort h \<noteq> None then [] else rh_sort_by h)"
  define c0 where "c0 = items (driver_query_rooms (float_string env) (plain_query (conditions @ flt) so) (mm_driver w))"
  define c1 where "c1 = (case match_filter h of Some p \<Rightarrow> filter (\<lambda>l. p l options) c0 | None \<Rightarrow> c0)"
  define c2 where "c2 = (case match_sort h of Some c \<Rightarrow> sort_by c c1 | None \<Rightarrow> c1)"
  have "c0 = matched_entries (float_string env) (plain_query (conditions @ flt) so) (mm_driver w)"
    unfolding c0_def by (rule unlimited_items) (simp_all add: plain_query_def assms(2))
  then have "set c0 = {l. driver_get (l_room_id l) (mm_driver w) = Some l \<and> satisfies (float_string env) (conditions @ flt) l}"
    using set_plain_query [OF assms(1)] by simp
  moreover have "set c2 = set c1" by (simp add: c2_def split: option.split)
  moreover have "set c1 = {l \<in> set c0. \<forall>p. match_filter h = Some p \<longrightarrow> p l options}"
    by (auto simp: c1_def split: option.split)
  ultimately have "set c2 = eligible env h (conditions @ flt) options w"
    by (auto simp: eligible_def)
  moreover have "find_match env h conditions flt options w = (case c2 of [] \<Rightarrow> None | l # _ \<Rightarrow> Some l)"
    unfolding find_match_def Let_def c2_def c1_def c0_def so_def ..
  ultimately show ?thesis by (intro exI [of _ c2]) (auto simp: c2_def)
qed

text \<open>
  The core fields of a flat listing are those of the listing, unless an extra field of the
  same name is flattened over it.
\<close>

lemma map_of_flatten:
  "map_of (fold (\<lambda>(k, v). map_insert k v) xs m) k = (case map_of (rev xs) k of Some v \<Rightarrow> Some v | None \<Rightarrow> map_of m k)"
proof (induction xs arbitrary: m)
  case (Cons x xs)
  obtain k' v' where "x = (k', v')" by (cases x)
  then show ?case using Cons by (auto simp: map_add_def split: option.splits)
qed simp

lemma map_of_extra_None: "k \<notin> fst ` set xs \<Longrightarrow> map_of (rev xs) k = None"
  by (simp add: map_of_eq_None_iff)

lemma resolve_top: "CHR ''.'' \<notin> set k \<Longrightarrow> resolve_path (JObj m) k = map_of m k"
  by (simp add: resolve_path_def)

lemma flat_core:
  "''name'' \<notin> fst ` set (l_extra l) \<Longrightarrow> resolve_path (to_flat_value l) ''name'' = Some (JStr (l_name l))"
  "''locked'' \<notin> fst ` set (l_extra l) \<Longrightarrow> resolve_path (to_flat_value l) ''locked'' = Some (JBool (l_locked l))"
  "''private'' \<notin> fst ` set (l_extra l) \<Longrightarrow> resolve_path (to_flat_value l) ''private'' = Some (JBool (l_private l))"
  by (simp_all add: to_flat_value_def resolve_top map_of_flatten map_of_extra_None split: option.split)

lemma matches_eq [simp]:
  "matches_condition ff (Some (JStr a)) (condition_eq (JStr b)) \<longleftrightarrow> a = b"
  "matches_condition ff (Some (JBool x)) (condition_eq (JBool y)) \<longleftrightarrow> x = y"
  by (simp_all add: matches_condition_def condition_eq_def value_eq_def)

lemma satisfies_match:
  assumes "satisfies ff (match_conditions h options @ flt) l"
    and "fst ` set (l_extra l) \<inter> {''name'', ''locked'', ''private''} = {}"
  shows "l_name l = rh_name h \<and> \<not> l_locked l \<and> \<not> l_private l"
proof -
  have "matches_condition ff (resolve_path (to_flat_value l) f) c"
    if "(f, c) \<in> set (match_conditions h options)" for f c
    using assms(1) that by (auto simp: satisfies_def)
  then have "matches_condition ff (resolve_path (to_flat_value l) ''name'') (condition_eq (JStr (rh_name h)))"
    "matches_condition ff (resolve_path (to_flat_value l) ''locked'') (condition_eq (JBool False))"
    "matches_condition ff (resolve_path (to_flat_value l) ''private'') (condition_eq (JBool False))"
    by (simp_all add: match_conditions_def)
  moreover have "''name'' \<notin> fst ` set (l_extra l)" "''locked'' \<notin> fst ` set (l_extra l)" "''private'' \<notin> fst ` set (l_extra l)"
    using assms(2) by auto
  ultimately show ?thesis by (simp add: flat_core)
qed



end
