(* ===== verification/World.thy ===== *)
theory World
  imports Room_Life Matching
begin

text \<open>
  The process as a whole: the matchmaker with all its rooms. The invariant says that every
  room in the map runs, is well formed with what the process lends it, and is listed in the
  driver, that room ids are unique, and that every registered type obeys the contract of
  room types. Every operation of the matchmaker keeps it, whatever the other tasks do at an
  await as long as they keep it too; the retry loop is treated once, for any search.
\<close>

section \<open>The invariant\<close>

definition hosted ::
  "('r, 's, 'i, 'h) MatchMaker \<Rightarrow> string \<times> ('r, 's, 'i, 'h) RoomHooks \<times> ('r, 's, 'i, 'h) RoomActor \<Rightarrow> bool" where
  "hosted w = (\<lambda>(rid, H, a). room_type H \<and> room_id (actor_ctx a) = rid \<and> \<not> disposing (actor_ctx a)
     \<and> driver_get rid (mm_driver w) \<noteq> None \<and> actor_ok (a\<lparr>actor_ctx := lend w (actor_ctx a)\<rparr>))"

definition world_ok :: "('r, 's, 'i, 'h) MatchMaker \<Rightarrow> bool" where
  "world_ok w \<longleftrightarrow> driver_wf (mm_driver w) \<and> distinct (map fst (mm_rooms w))
     \<and> (\<forall>e \<in> set (mm_rooms w). hosted w e)
     \<and> (\<forall>(name, h) \<in> set (mm_handlers w). room_type (snd (factory h)))"

text \<open>A step of the process: it keeps the invariant, and handles are never taken back.\<close>

definition safe :: "('r, 's, 'i, 'h) MatchMaker \<Rightarrow> ('r, 's, 'i, 'h) MatchMaker \<Rightarrow> bool" where
  "safe w w' \<longleftrightarrow> (world_ok w \<longrightarrow> world_ok w' \<and> mm_next_ref w \<le> mm_next_ref w')"

definition env_ok :: "('r, 's, 'i, 'h) Surroundings \<Rightarrow> bool" where
  "env_ok env \<longleftrightarrow> (\<forall>n w. safe w (meanwhile env n w))"

lemma safe_refl [simp]: "safe w w"
  by (simp add: safe_def)

lemma safe_trans: "safe w w' \<Longrightarrow> safe w' w'' \<Longrightarrow> safe w w''"
  by (auto simp: safe_def)

lemma lend_frame [simp]:
  "room_id (lend w ctx) = room_id ctx" "disposing (lend w ctx) = disposing ctx" "sender (lend w ctx) = sender ctx"
  "driver (lend w ctx) = mm_driver w" "next_ref (lend w ctx) = mm_next_ref w" "clients (lend w ctx) = clients ctx"
  "reconnections (lend w ctx) = reconnections ctx" "reserved_seats (lend w ctx) = reserved_seats ctx"
  "connecting (lend w ctx) = connecting ctx" "mail_refs (lend w ctx) = mail_refs ctx"
  by (simp_all add: lend_def connecting_def mail_refs_def)

lemma actor_ok_lend:
  "actor_ok (a\<lparr>actor_ctx := lend w ctx\<rparr>) \<longleftrightarrow> maps_ok ctx \<and> slot_ok ctx \<and> timers_ok ctx
     \<and> distinct (clients ctx @ connecting ctx)
     \<and> (\<forall>c \<in> set (clients ctx @ connecting ctx @ mail_refs ctx). c < mm_next_ref w)
     \<and> (\<forall>(token, e) \<in> set (reconnections ctx). re_client e < mm_next_ref w) \<and> driver_inv (mm_driver w)"
proof -
  have "maps_ok (lend w ctx) = maps_ok ctx" "slot_ok (lend w ctx) = slot_ok ctx" "timers_ok (lend w ctx) = timers_ok ctx"
    by (simp_all add: maps_ok_def slot_ok_def timers_ok_def lend_def)
  then show ?thesis
    by (auto simp: actor_ok_def ctx_ok_def refs_ok_def)
qed

lemma actor_ok_relend:
  assumes "actor_ok a" and "next_ref (actor_ctx a) \<le> mm_next_ref w" and "driver_inv (mm_driver w)"
  shows "actor_ok (a\<lparr>actor_ctx := lend w (actor_ctx a)\<rparr>)"
  using assms unfolding actor_ok_lend
  by (auto simp: actor_ok_def ctx_ok_def refs_ok_def dest: order.strict_trans2)

lemma hosted_mono:
  assumes "hosted w (rid, H, a)" and "mm_next_ref w \<le> mm_next_ref w'" and "driver_get rid (mm_driver w') \<noteq> None"
    and "driver_inv (mm_driver w')"
  shows "hosted w' (rid, H, a)"
proof -
  have "actor_ok (a\<lparr>actor_ctx := lend w' (actor_ctx a)\<rparr>)"
    using assms(1,2,4) unfolding hosted_def prod.case actor_ok_lend
    by (auto dest: order.strict_trans2)
  then show ?thesis using assms by (simp add: hosted_def)
qed

lemma driver_wf_inv: "driver_wf d \<Longrightarrow> driver_inv d"
  by (simp add: driver_wf_def)

text \<open>The rooms survive any change of the rest that keeps the listings they have.\<close>

lemma world_ok_update:
  assumes "world_ok w" and "driver_wf (mm_driver w')" and "mm_next_ref w \<le> mm_next_ref w'"
    and "mm_handlers w' = mm_handlers w" and "distinct (map fst (mm_rooms w'))"
    and "\<And>rid H a. (rid, H, a) \<in> set (mm_rooms w')
      \<Longrightarrow> hosted w' (rid, H, a) \<or> (rid, H, a) \<in> set (mm_rooms w) \<and> driver_get rid (mm_driver w') \<noteq> None"
  shows "world_ok w'"
proof -
  have "hosted w' e" if "e \<in> set (mm_rooms w')" for e
  proof -
    obtain rid H a where e: "e = (rid, H, a)" by (cases e)
    have "hosted w (rid, H, a)" if "(rid, H, a) \<in> set (mm_rooms w)" using that assms(1) by (simp add: world_ok_def)
    then show ?thesis
      using assms(6) [of rid H a] that hosted_mono [of w rid H a w'] assms(2,3) driver_wf_inv by (auto simp: e)
  qed
  then show ?thesis using assms by (simp add: world_ok_def)
qed

lemma world_ok_rooms:
  "world_ok w \<Longrightarrow> map_of (mm_rooms w) rid = Some (H, a) \<Longrightarrow> hosted w (rid, H, a)"
  by (auto simp: world_ok_def dest: map_of_SomeD)

lemma safe_same [simp]:
  "safe w (w\<lparr>mm_calls := n\<rparr>)" "safe w (w\<lparr>mm_gen_next := m\<rparr>)" "safe w (w\<lparr>mm_create_locks := cl\<rparr>)"
  "safe w (w\<lparr>mm_store := st\<rparr>)" "safe w (w\<lparr>mm_shutting_down := b\<rparr>)" "safe w (w\<lparr>mm_persistence := p\<rparr>)"
  "safe w (w\<lparr>mm_idempotency := ic\<rparr>)" "safe w (w\<lparr>mm_now := t\<rparr>)"
proof -
  have "hosted (w\<lparr>mm_calls := n\<rparr>) e = hosted w e" "hosted (w\<lparr>mm_gen_next := m\<rparr>) e = hosted w e"
    "hosted (w\<lparr>mm_create_locks := cl\<rparr>) e = hosted w e" "hosted (w\<lparr>mm_store := st\<rparr>) e = hosted w e"
    "hosted (w\<lparr>mm_shutting_down := b\<rparr>) e = hosted w e" "hosted (w\<lparr>mm_persistence := p\<rparr>) e = hosted w e"
    "hosted (w\<lparr>mm_idempotency := ic\<rparr>) e = hosted w e" "hosted (w\<lparr>mm_now := t\<rparr>) e = hosted w e" for e
    by (cases e; simp add: hosted_def actor_ok_lend)+
  then show "safe w (w\<lparr>mm_calls := n\<rparr>)" "safe w (w\<lparr>mm_gen_next := m\<rparr>)" "safe w (w\<lparr>mm_create_locks := cl\<rparr>)"
    "safe w (w\<lparr>mm_store := st\<rparr>)" "safe w (w\<lparr>mm_shutting_down := b\<rparr>)" "safe w (w\<lparr>mm_persistence := p\<rparr>)"
    "safe w (w\<lparr>mm_idempotency := ic\<rparr>)" "safe w (w\<lparr>mm_now := t\<rparr>)"
    by (simp_all add: safe_def world_ok_def)
qed

lemma safe_await: "env_ok env \<Longrightarrow> safe w (await env w)"
  unfolding await_def env_ok_def by (blast intro: safe_trans safe_same(1))

text \<open>A stale listing, one whose room is not in the map, may go.\<close>

lemma safe_forget:
  assumes "map_of (mm_rooms w) rid = None"
  shows "safe w (w\<lparr>mm_driver := snd (driver_remove rid (mm_driver w))\<rparr>)"
proof -
  let ?w = "w\<lparr>mm_driver := snd (driver_remove rid (mm_driver w))\<rparr>"
  have "world_ok ?w" if ok: "world_ok w"
  proof (rule world_ok_update [OF ok])
    show "hosted ?w (r, H, a) \<or> (r, H, a) \<in> set (mm_rooms w) \<and> driver_get r (mm_driver ?w) \<noteq> None"
      if "(r, H, a) \<in> set (mm_rooms ?w)" for r H a
    proof -
      have "r \<noteq> rid" using that assms by (auto simp: map_of_eq_None_iff image_iff)
      moreover have "hosted w (r, H, a)" using that ok by (simp add: world_ok_def)
      ultimately show ?thesis using that by (auto simp: hosted_def)
    qed
  qed (use ok in \<open>simp_all add: world_ok_def driver_wf_ops\<close>)
  then show ?thesis by (simp add: safe_def)
qed

section \<open>A room serves its mailbox\<close>

context room_type
begin

text \<open>Serving up to a question: the room stays well formed, and what is left of the driver.\<close>

lemma serve_ok:
  assumes "actor_ok a" and "\<not> disposing (actor_ctx a)" and "serve n H a = (fl, res, a')"
  shows "actor_ok a' \<and> disposing (actor_ctx a') = (fl = Break) \<and> same_room a a'"
  using assms
proof (induction n arbitrary: a)
  case 0
  then show ?case
    using run_turn_ok [of a] by (auto split: option.splits) (simp_all add: same_room_def)
next
  case (Suc n)
  show ?case
  proof (cases "run_turn H a")
    case None
    then show ?thesis using Suc.prems by (auto simp: same_room_def)
  next
    case (Some t)
    obtain fl1 res1 a1 where t: "t = (fl1, res1, a1)" by (cases t)
    note turn = run_turn_ok [OF Suc.prems(1) Some [unfolded t]]
    show ?thesis
    proof (cases fl1)
      case Break
      then show ?thesis using turn Suc.prems(3) Some t by auto
    next
      case Continue
      then have "serve n H a1 = (fl, res, a')" using Suc.prems(3) Some t by simp
      then have "actor_ok a' \<and> disposing (actor_ctx a') = (fl = Break) \<and> same_room a1 a'"
        using Suc.IH [of a1] turn Suc.prems(2) Continue by simp
      then show ?thesis using turn same_room_trans [of a a1 a'] by blast
    qed
  qed
qed

end

text \<open>What a question does to the world when it is served.\<close>

lemma reclaim_fields [simp]:
  "mm_driver (reclaim ctx w) = driver ctx" "mm_next_ref (reclaim ctx w) = next_ref ctx"
  "mm_rooms (reclaim ctx w) = mm_rooms w" "mm_handlers (reclaim ctx w) = mm_handlers w"
  by (simp_all add: reclaim_def)

lemma reclaim_others:
  assumes "world_ok w" and "owned b rid (mm_driver w) (driver ctx)" and "mm_next_ref w \<le> next_ref ctx"
    and "mm_rooms w' = AList.delete rid (mm_rooms w) \<or> mm_rooms w' = AList.update rid (H, a) (mm_rooms w) \<and> hosted w' (rid, H, a)"
    and "mm_driver w' = driver ctx" and "mm_next_ref w' = next_ref ctx" and "mm_handlers w' = mm_handlers w"
  shows "world_ok w'"
proof (rule world_ok_update [OF assms(1)])
  show "driver_wf (mm_driver w')" using assms(1,2,5) by (auto simp: world_ok_def owned_def)
  show "distinct (map fst (mm_rooms w'))"
    using assms(1,4) by (auto simp: world_ok_def distinct_delete distinct_update)
  show "hosted w' (r, H', a') \<or> (r, H', a') \<in> set (mm_rooms w) \<and> driver_get r (mm_driver w') \<noteq> None"
    if "(r, H', a') \<in> set (mm_rooms w')" for r H' a'
  proof (cases "r = rid")
    case True
    have d: "distinct (map fst (AList.update rid (H, a) (mm_rooms w)))"
      using assms(1) by (simp add: world_ok_def distinct_update)
    have "mm_rooms w' \<noteq> AList.delete rid (mm_rooms w)"
      using that True by (auto simp: AList.delete_eq)
    then have "map_of (AList.update rid (H, a) (mm_rooms w)) rid = Some (H', a')" "hosted w' (rid, H, a)"
      using that assms(4) True d by (auto simp: map_of_eq_Some_iff)
    then show ?thesis using True by (simp add: update_conv')
  next
    case False
    then have "(r, H', a') \<in> set (mm_rooms w)"
      using assms(4) that set_delete_subset [of rid "mm_rooms w"] set_update_subset [of rid "(H, a)" "mm_rooms w"] by auto
    moreover from this have "hosted w (r, H', a')" using assms(1) by (simp add: world_ok_def)
    then have "driver_get r (mm_driver w') \<noteq> None"
      using assms(2,5) False by (simp add: hosted_def owned_def)
    ultimately show ?thesis by blast
  qed
qed (use assms in simp_all)

lemma ask_safe:
  assumes "event_ref ev = None"
  shows "safe w (snd (ask rid ev w))"
proof (cases "map_of (mm_rooms w) rid")
  case None
  then show ?thesis by (simp add: ask_def)
next
  case (Some r)
  obtain H a where r: "r = (H, a)" by (cases r)
  define n where "n = (case sender (actor_ctx a) of Some q \<Rightarrow> length q | None \<Rightarrow> 0)"
  define a1 where "a1 = a\<lparr>actor_ctx := (lend w (actor_ctx a))\<lparr>sender := map_option (\<lambda>q. q @ [ev]) (sender (actor_ctx a))\<rparr>\<rparr>"
  obtain fl res a2 where sv: "serve n H a1 = (fl, res, a2)" by (metis surj_pair)
  let ?w = "(reclaim (actor_ctx a2) w)\<lparr>mm_rooms := (if fl = Break then AList.delete rid (mm_rooms w)
      else AList.update rid (H, a2) (mm_rooms w))\<rparr>"
  have e: "snd (ask rid ev w) = ?w"
    by (simp add: ask_def Some r Let_def n_def [symmetric] a1_def [symmetric] sv)
  have "world_ok ?w \<and> mm_next_ref w \<le> mm_next_ref ?w" if ok: "world_ok w"
  proof -
    have h: "room_type H" "room_id (actor_ctx a) = rid" "\<not> disposing (actor_ctx a)"
      "driver_get rid (mm_driver w) \<noteq> None" "actor_ok (a\<lparr>actor_ctx := lend w (actor_ctx a)\<rparr>)"
      using world_ok_rooms [OF ok] Some r by (simp_all add: hosted_def)
    have "a1 = post ev (a\<lparr>actor_ctx := lend w (actor_ctx a)\<rparr>)" by (simp add: a1_def post_def)
    then have "actor_ok a1" using post_ok [OF h(5), of ev] assms by (cases ev) simp_all
    moreover have "\<not> disposing (actor_ctx a1)" using h(3) by (simp add: a1_def)
    ultimately have s2: "actor_ok a2" "disposing (actor_ctx a2) = (fl = Break)" "same_room a1 a2"
      using room_type.serve_ok [OF h(1)] sv by blast+
    then have f: "room_id (actor_ctx a2) = rid" "next_ref (actor_ctx a2) = mm_next_ref w"
      "owned (fl = Break) rid (mm_driver w) (driver (actor_ctx a2))"
      using h(2) by (simp_all add: same_room_def a1_def)
    have "hosted ?w (rid, H, a2)" if "fl \<noteq> Break"
    proof -
      have "driver_inv (driver (actor_ctx a2))" using s2(1) by (simp add: actor_ok_def ctx_ok_def)
      then have "actor_ok (a2\<lparr>actor_ctx := lend ?w (actor_ctx a2)\<rparr>)"
        using actor_ok_relend [OF s2(1), of ?w] by simp
      moreover have "driver_get rid (driver (actor_ctx a2)) \<noteq> None"
        using f(3) h(4) that by (simp add: owned_def)
      ultimately show ?thesis using h(1) f(1) s2(2) that by (simp add: hosted_def)
    qed
    then have "world_ok ?w"
      using reclaim_others [OF ok f(3), of ?w H a2] f(2) by auto
    then show ?thesis using f(2) by simp
  qed
  then show ?thesis by (simp add: safe_def e)
qed

section \<open>New rooms\<close>

text \<open>What spawning leaves of the context it was given, on success and on failure.\<close>

definition spawned_from :: "('s, 'i, 'h) RoomContext \<Rightarrow> ('s, 'i, 'h) RoomContext \<Rightarrow> bool" where
  "spawned_from ctx ctx' \<longleftrightarrow> room_id ctx' = room_id ctx \<and> next_ref ctx \<le> next_ref ctx'
     \<and> disposing ctx' = disposing ctx \<and> owned False (room_id ctx) (driver ctx) (driver ctx')"

lemma spawned_api: "spawned_from ctx ctx1 \<Longrightarrow> api ctx1 ctx2 \<Longrightarrow> spawned_from ctx ctx2"
  using api_frame [of ctx1 ctx2] owned_trans [of False "room_id ctx" "driver ctx" "driver ctx1" "driver ctx2"]
  by (simp add: spawned_from_def)

lemma spawned_updates [simp]:
  "spawned_from ctx (ctx1\<lparr>schema_version := v\<rparr>) \<longleftrightarrow> spawned_from ctx ctx1"
  "spawned_from ctx (set_sender q ctx)" "spawned_from ctx (set_sender q (ctx\<lparr>create_options := opt\<rparr>))"
  by (simp_all add: spawned_from_def set_sender_def)

lemma spawned_fold: "(\<And>x ctx'. spawned_from ctx ctx' \<Longrightarrow> spawned_from ctx (f x ctx'))
    \<Longrightarrow> spawned_from ctx ctx1 \<Longrightarrow> spawned_from ctx (fold f xs ctx1)"
  by (induction xs arbitrary: ctx1) simp_all

lemma spawned_apply_snapshot: "spawned_from ctx ctx1 \<Longrightarrow> spawned_from ctx (apply_snapshot snap ctx1)"
  unfolding apply_snapshot_def
  by (intro spawned_fold)
    (simp_all add: spawned_from_def restore_seat_def restore_reconnection_def generate_id_def Let_def)

definition spawn_outcome ::
  "('s, 'i, 'h) RoomContext
     \<Rightarrow> (ServerError \<times> ('s, 'i, 'h) RoomContext, ('r, 's, 'i, 'h) RoomActor \<times> RoomListing) result \<Rightarrow> bool" where
  "spawn_outcome ctx r \<longleftrightarrow> (\<forall>e ctx'. r = Inl (e, ctx') \<longrightarrow> spawned_from ctx ctx')
     \<and> (\<forall>a l. r = Inr (a, l) \<longrightarrow> spawned_from ctx (actor_ctx a) \<and> l = build_listing (actor_ctx a))"

context room_type
begin

lemma spawn_room_from:
  assumes "ctx_ok ctx" and "connecting ctx = []"
  shows "spawn_outcome ctx (spawn_room H r ctx options)"
proof -
  let ?ctx1 = "set_sender [] (ctx\<lparr>create_options := options\<rparr>)"
  have "ctx_ok ?ctx1"
    using assms spawning_set_sender [of "ctx\<lparr>create_options := options\<rparr>"] by (simp add: spawning_def connecting_def)
  then have "spawned_from ctx (snd (snd (on_create H options (r, ?ctx1))))"
    using create_api [of "(r, ?ctx1)" options] by (auto intro: spawned_api [of ctx ?ctx1])
  moreover obtain res r' ctx2 where h: "on_create H options (r, ?ctx1) = (res, (r', ctx2))" by (metis surj_pair)
  ultimately show ?thesis
    unfolding spawn_room_def Let_def h by (cases res) (simp_all add: finish_spawn_def spawn_outcome_def)
qed

lemma spawn_restored_from:
  assumes "ctx_ok ctx" and "connecting ctx = []"
  shows "spawn_outcome ctx (spawn_restored_room H r ctx snap)"
proof -
  let ?ctx0 = "set_sender [] ctx"
  obtain res r1 ctx1 where h: "on_create H (s_options snap) (r, ?ctx0) = (res, (r1, ctx1))" by (metis surj_pair)
  have ok0: "ctx_ok ?ctx0" using assms spawning_set_sender [of ctx] by (simp add: spawning_def)
  then have api1: "api ?ctx0 ctx1" using create_api [of "(r, ?ctx0)" "s_options snap"] h by simp
  then have f1: "spawned_from ctx ctx1" and ok1: "ctx_ok ctx1"
    using spawned_api [of ctx ?ctx0 ctx1] ctx_ok_api [OF api1 ok0] by simp_all
  have f3: "spawned_from ctx ctx3" if "on_restore H sn (r2, ctx1) = (x, (r3, ctx3))" for sn r2 x r3 ctx3
    using spawned_api [OF f1, of ctx3] restore_api [of "(r2, ctx1)" sn] that ok1 by simp
  have last: "spawn_outcome ctx (case on_restore H sn (r2, ctx1) of
        (Inl e, (r3, ctx3)) \<Rightarrow> Inl (e, ctx3)
      | (Inr _, (r3, ctx3)) \<Rightarrow> Inr (finish_spawn (r3, (apply_snapshot sn ctx3)\<lparr>schema_version := v\<rparr>)))"
    for sn r2 v
  proof -
    obtain x r3 ctx3 where o: "on_restore H sn (r2, ctx1) = (x, (r3, ctx3))" by (metis surj_pair)
    show ?thesis
      using f3 [OF o] spawned_apply_snapshot [OF f3 [OF o]] by (cases x) (simp_all add: o spawn_outcome_def finish_spawn_def)
  qed
  show ?thesis
  proof (cases res)
    case (Inl e)
    then show ?thesis using f1 by (simp add: spawn_restored_room_def h spawn_outcome_def)
  next
    case (Inr u)
    have "spawn_outcome ctx (case M of Inl e \<Rightarrow> Inl (e, ctx1) | Inr (r2, sn) \<Rightarrow>
        (case on_restore H sn (r2, ctx1) of
           (Inl e, (r3, ctx3)) \<Rightarrow> Inl (e, ctx3)
         | (Inr _, (r3, ctx3)) \<Rightarrow> Inr (finish_spawn (r3, (apply_snapshot sn ctx3)\<lparr>schema_version := v\<rparr>))))" for M v
    proof (cases M)
      case (Inl e)
      then show ?thesis using f1 by (simp add: spawn_outcome_def)
    next
      case (Inr m)
      then show ?thesis using last by (cases m) simp
    qed
    then show ?thesis
      unfolding spawn_restored_room_def h Let_def Inr by (simp only: prod.case sum.case)
  qed
qed

end

text \<open>The room and its listing are put into the maps after the wait.\<close>

lemma reclaim_spawned:
  assumes "spawned_from ctx0 ctx" and "driver ctx0 = mm_driver w" and "next_ref ctx0 = mm_next_ref w"
  shows "safe w (reclaim ctx w)"
proof -
  have "world_ok (reclaim ctx w)" if ok: "world_ok w"
  proof (rule world_ok_update [OF ok])
    have o: "owned False (room_id ctx0) (mm_driver w) (driver ctx)"
      using assms by (simp add: spawned_from_def)
    then show "driver_wf (mm_driver (reclaim ctx w))" using ok by (simp add: owned_def world_ok_def)
    show "hosted (reclaim ctx w) (r, H, a) \<or> (r, H, a) \<in> set (mm_rooms w) \<and> driver_get r (mm_driver (reclaim ctx w)) \<noteq> None"
      if "(r, H, a) \<in> set (mm_rooms (reclaim ctx w))" for r H a
    proof -
      have "hosted w (r, H, a)" using that ok by (simp add: world_ok_def)
      then have "driver_get r (mm_driver w) \<noteq> None" by (simp add: hosted_def)
      then have "driver_get r (driver ctx) \<noteq> None"
        using o by (cases "r = room_id ctx0") (simp_all add: owned_def)
      then show ?thesis using that by simp
    qed
  qed (use assms ok in \<open>simp_all add: spawned_from_def world_ok_def\<close>)
  then show ?thesis using assms by (simp add: safe_def spawned_from_def)
qed

lemma world_ok_insert:
  assumes "world_ok w" and "room_type H" and "actor_ok a" and "\<not> disposing (actor_ctx a)"
    and "next_ref (actor_ctx a) \<le> mm_next_ref w" and "l_room_id l = room_id (actor_ctx a)"
  shows "world_ok (w\<lparr>mm_rooms := AList.update (room_id (actor_ctx a)) (H, a) (mm_rooms w),
      mm_driver := driver_insert l (mm_driver w), mm_lobby_tx := es\<rparr>)"
proof -
  let ?w = "w\<lparr>mm_rooms := AList.update (room_id (actor_ctx a)) (H, a) (mm_rooms w),
      mm_driver := driver_insert l (mm_driver w), mm_lobby_tx := es\<rparr>"
  have wf: "driver_wf (mm_driver ?w)" using assms(1) by (simp add: world_ok_def driver_wf_ops)
  have h: "hosted ?w (room_id (actor_ctx a), H, a)"
    using actor_ok_relend [OF assms(3), of ?w] driver_wf_inv [OF wf] assms by (simp add: hosted_def)
  show ?thesis
  proof (rule world_ok_update [OF assms(1) wf])
    show "hosted ?w (r, H', a') \<or> (r, H', a') \<in> set (mm_rooms w) \<and> driver_get r (mm_driver ?w) \<noteq> None"
      if "(r, H', a') \<in> set (mm_rooms ?w)" for r H' a'
    proof (cases "(r, H', a') = (room_id (actor_ctx a), H, a)")
      case False
      then have m: "(r, H', a') \<in> set (mm_rooms w)"
        using that set_update_subset [of "room_id (actor_ctx a)" "(H, a)" "mm_rooms w"] by auto
      then have "hosted w (r, H', a')" using assms(1) by (simp add: world_ok_def)
      then show ?thesis using m by (auto simp: hosted_def)
    qed (use h in simp)
  qed (use assms(1) in \<open>simp_all add: world_ok_def distinct_update\<close>)
qed

section \<open>The operations of the matchmaker\<close>

text \<open>A spawned room waits for the others and is then hosted.\<close>

lemma spawned_safe:
  assumes "env_ok env" and "spawned_from ctx0 (actor_ctx a)" and "driver ctx0 = mm_driver w"
    and "next_ref ctx0 = mm_next_ref w" and "\<not> disposing ctx0" and "room_type H" and "driver_wf (mm_driver w) \<Longrightarrow> actor_ok a"
    and "l = build_listing (actor_ctx a)" and "w1 = await env (reclaim (actor_ctx a) w)"
  shows "safe w (w1\<lparr>mm_rooms := AList.update (room_id ctx0) (H, a) (mm_rooms w1),
      mm_driver := driver_insert l (mm_driver w1), mm_lobby_tx := es\<rparr>)"
proof -
  have s0: "safe w (reclaim (actor_ctx a) w)" by (rule reclaim_spawned [OF assms(2-4)])
  have s1: "safe w w1" using safe_trans [OF s0 safe_await [OF assms(1)]] assms(9) by simp
  have n: "next_ref (actor_ctx a) \<le> mm_next_ref w1" if "world_ok w"
    using that s0 safe_await [OF assms(1), of "reclaim (actor_ctx a) w"] assms(9) by (simp add: safe_def)
  show ?thesis
    using s1 n world_ok_insert [of w1 H a l] assms(2,5-8)
    by (auto simp: safe_def spawned_from_def build_listing_def world_ok_def [of w])
qed

lemma new_context [simp]:
  "room_id (room_context_new rid rname pid d ps lb ex per t w g gn st nr) = rid"
  "driver (room_context_new rid rname pid d ps lb ex per t w g gn st nr) = d"
  "next_ref (room_context_new rid rname pid d ps lb ex per t w g gn st nr) = nr"
  "\<not> disposing (room_context_new rid rname pid d ps lb ex per t w g gn st nr)"
  by (simp_all add: room_context_new_def)

lemma spawn_new_room_safe:
  fixes w :: "('r, 's, 'i, 'h) MatchMaker"
  assumes "env_ok env" and "room_type (snd (factory h))"
  shows "safe w (snd (spawn_new_room env name h options w))"
proof -
  let ?rid = "mm_gen w (mm_gen_next w)"
  let ?w = "w\<lparr>mm_gen_next := Suc (mm_gen_next w)\<rparr>"
  define ctx :: "('s, 'i, 'h) RoomContext" where "ctx = room_context_new ?rid name (mm_process_id w) (mm_driver w) (mm_presence w) (mm_lobby_tx w)
      (handler_filter_extra h options) (if rh_persistent h then mm_persistence w else None)
      (mm_now w) (mm_wall w) (mm_gen w) (Suc (mm_gen_next w)) (mm_clients w) (mm_next_ref w)"
  have c: "room_id ctx = ?rid" "driver ctx = mm_driver w" "next_ref ctx = mm_next_ref w" "\<not> disposing ctx"
    by (simp_all add: ctx_def)
  have ok: "ctx_ok ctx" "connecting ctx = []" if "driver_wf (mm_driver w)"
    using that driver_wf_inv by (simp_all add: ctx_def ctx_ok_new)
  let ?sp = "spawn_room (snd (factory h)) (fst (factory h)) ctx options"
  have e: "spawn_new_room env name h options w = (case ?sp of
          Inl (e, ctx') \<Rightarrow>
            (Inl (new_error (if err_code e = 0 then MATCHMAKE_UNHANDLED else err_code e) (err_message e)),
             await env (reclaim ctx' ?w))
        | Inr (a, l) \<Rightarrow>
            let w1 = await env (reclaim (actor_ctx a) ?w)
            in (Inr l, w1\<lparr>mm_rooms := AList.update ?rid (snd (factory h), a) (mm_rooms w1),
                          mm_driver := driver_insert l (mm_driver w1),
                          mm_lobby_tx := mm_lobby_tx w1 @ [RoomCreated l]\<rparr>))"
    by (simp add: spawn_new_room_def mm_generate_id_def Let_def ctx_def)
  have "safe w (snd (spawn_new_room env name h options w))" if wf: "driver_wf (mm_driver w)"
  proof (cases ?sp)
    case (Inl r)
    obtain e ctx' where r: "r = (e, ctx')" by (cases r)
    have "spawned_from ctx ctx'"
      using room_type.spawn_room_from [OF assms(2) ok [OF wf]] Inl r by (auto simp: spawn_outcome_def)
    then have "safe ?w (await env (reclaim ctx' ?w))"
      using safe_trans [OF reclaim_spawned safe_await [OF assms(1)]] c by simp
    then show ?thesis unfolding e Inl r by (auto intro: safe_trans [OF safe_same(2)])
  next
    case (Inr r)
    obtain a l where r: "r = (a, l)" by (cases r)
    have f: "spawned_from ctx (actor_ctx a)" "l = build_listing (actor_ctx a)"
      using room_type.spawn_room_from [OF assms(2) ok [OF wf]] Inr r by (auto simp: spawn_outcome_def)
    have "actor_ok a" using room_type.spawn_room_ok [OF assms(2) _ ok [OF wf]] Inr r by simp
    then have "safe ?w (w1\<lparr>mm_rooms := AList.update (room_id ctx) (snd (factory h), a) (mm_rooms w1),
        mm_driver := driver_insert l (mm_driver w1), mm_lobby_tx := es\<rparr>)"
      if "w1 = await env (reclaim (actor_ctx a) ?w)" for w1 es
      using spawned_safe [OF assms(1) f(1) _ _ c(4) assms(2) _ f(2) that] c by simp
    then show ?thesis unfolding e Inr r by (auto simp: Let_def c intro: safe_trans [OF safe_same(2)])
  qed
  then show ?thesis by (auto simp: safe_def world_ok_def [of w])
qed

lemma snd_reserve_seat:
  assumes "map_of (mm_rooms w) (l_room_id l) \<noteq> None"
  shows "snd (reserve_seat env l options auth w)
    = await env (snd (ask (l_room_id l) (ReserveSeat (mm_gen w (mm_gen_next w)) options auth)
        (w\<lparr>mm_gen_next := Suc (mm_gen_next w)\<rparr>)))"
  unfolding reserve_seat_def Let_def if_not_P [OF assms]
  by (simp add: mm_generate_id_def split_def split: option.split Response.split sum.split)

lemma reserve_seat_safe:
  assumes "env_ok env"
  shows "safe w (snd (reserve_seat env l options auth w))"
proof (cases "map_of (mm_rooms w) (l_room_id l) = None")
  case True
  then show ?thesis using safe_forget [OF True] by (simp add: reserve_seat_def Let_def)
next
  case False
  show ?thesis
    unfolding snd_reserve_seat [OF False]
    by (rule safe_trans [OF safe_trans [OF safe_same(2) ask_safe] safe_await [OF assms]]) simp
qed

lemma mm_reconnect_safe:
  assumes "env_ok env"
  shows "safe w (snd (mm_reconnect env rid token w))"
proof -
  have "safe w (await env (snd (ask rid (CheckReconnection token) w)))"
    by (rule safe_trans [OF ask_safe safe_await [OF assms]]) simp
  then show ?thesis
    by (simp add: mm_reconnect_def Let_def split_def split: option.split Response.split bool.split)
qed

lemma first_live_safe: "safe w (snd (first_live ls w))"
proof (induction ls arbitrary: w)
  case (Cons l ls)
  then show ?case
    using safe_trans [OF safe_forget Cons] by (cases "map_of (mm_rooms w) (l_room_id l) = None") auto
qed simp

lemma lock_safe [simp]: "safe w (create_lock key w)" "safe w (release_create_lock key w)" "safe w (drop_lock key w)"
  by (simp_all add: create_lock_def release_create_lock_def drop_lock_def split: option.split)

lemma handler_room_type:
  "world_ok w \<Longrightarrow> get_handler name w = Inr h \<Longrightarrow> room_type (snd (factory h))"
  by (auto simp: get_handler_def world_ok_def split: option.splits dest!: map_of_SomeD)

lemma create_room_inner_safe:
  assumes "env_ok env"
  shows "safe w (snd (create_room_inner env name options w))"
proof (cases "get_handler name w")
  case (Inl e)
  then show ?thesis by (simp add: create_room_inner_def)
next
  case (Inr h)
  have "safe w (snd (create_room_inner env name options w))" if "world_ok w"
  proof -
    note sp = spawn_new_room_safe [OF assms handler_room_type [OF that Inr]]
    let ?kc = "unique_conditions h options"
    let ?key = "name @ '':unique:'' @ conditions_key (value_string env) ?kc"
    let ?w1 = "await env (create_lock ?key w)"
    have s1: "safe w ?w1" by (rule safe_trans [OF lock_safe(1) safe_await [OF assms]])
    have s2: "safe w (snd (find_live env ?kc ?w1))"
      unfolding find_live_def by (rule safe_trans [OF s1 first_live_safe])
    have s3: "safe w (drop_lock ?key (release_create_lock ?key w3))" if "safe w w3" for w3
      by (rule safe_trans [OF that safe_trans [OF lock_safe(2) lock_safe(3)]])
    show ?thesis
      using s2 s3 safe_trans [OF s2 sp] sp
      by (simp add: create_room_inner_def Inr Let_def split_def split: option.split sum.split)
  qed
  then show ?thesis by (auto simp: safe_def)
qed

lemma find_or_create_safe:
  assumes "env_ok env"
  shows "safe w (snd (find_or_create env name h flt options w))"
proof -
  let ?key = "name @ '':'' @ conditions_key (value_string env) (match_conditions h options)"
  let ?w1 = "await env (create_lock ?key w)"
  have s1: "safe w ?w1" by (rule safe_trans [OF lock_safe(1) safe_await [OF assms]])
  have s2: "safe w (snd (create_room_inner env name o1 ?w1))" for o1
    by (rule safe_trans [OF s1 create_room_inner_safe [OF assms]])
  have s3: "safe w (drop_lock ?key (release_create_lock ?key w3))" "safe w (drop_lock ?key w3)" if "safe w w3" for w3
    by (rule safe_trans [OF that safe_trans [OF lock_safe(2) lock_safe(3)]]) (rule safe_trans [OF that lock_safe(3)])
  show ?thesis
    using s1 s2 s3 by (simp add: find_or_create_def Let_def split_def split: option.split sum.split)
qed

section \<open>The retry loop, for any search\<close>

text \<open>
  What a search must promise: it is a step of the process. The loop is then one, and a
  reservation it returns was made by \<open>reserve_seat\<close> in a good state.
\<close>

locale room_search =
  fixes env :: "('r, 's, 'i, 'h) Surroundings"
    and look :: "('r, 's, 'i, 'h) MatchMaker \<Rightarrow> (ServerError, RoomListing) result \<times> ('r, 's, 'i, 'h) MatchMaker"
  assumes look_safe: "env_ok env \<Longrightarrow> safe w (snd (look w))"
begin

lemma seat_loop_safe: "env_ok env \<Longrightarrow> safe w (snd (seat_loop env look options auth n e w))"
proof (induction n arbitrary: e w)
  case (Suc n)
  obtain x w1 where l: "look w = (x, w1)" by (cases "look w")
  then have s1: "safe w w1" using look_safe [OF Suc.prems, of w] by simp
  show ?case
  proof (cases x)
    case (Inl e')
    then show ?thesis using l s1 by simp
  next
    case (Inr lst)
    obtain y w2 where r: "reserve_seat env lst options auth w1 = (y, w2)" by (metis surj_pair)
    then have s2: "safe w w2"
      using safe_trans [OF s1 reserve_seat_safe [OF Suc.prems, of w1 lst options auth]] by simp
    show ?thesis
      using l Inr r s2 safe_trans [OF s2 Suc.IH [OF Suc.prems]] by (simp split: sum.split)
  qed
qed simp

lemma seat_loop_reserved:
  assumes "env_ok env" and "world_ok w" and "seat_loop env look options auth n e w = (Inr r, w')"
  shows "\<exists>l w2. world_ok w2 \<and> reserve_seat env l options auth w2 = (Inr r, w')"
  using assms(2,3)
proof (induction n arbitrary: e w)
  case (Suc n)
  obtain x w1 where l: "look w = (x, w1)" by (cases "look w")
  then have ok1: "world_ok w1" using look_safe [OF assms(1), of w] Suc.prems(1) by (simp add: safe_def)
  obtain lst where x: "x = Inr lst" using Suc.prems(2) l by (cases x) auto
  obtain y w2 where r: "reserve_seat env lst options auth w1 = (y, w2)" by (metis surj_pair)
  then have ok2: "world_ok w2"
    using reserve_seat_safe [OF assms(1), of w1 lst options auth] ok1 by (simp add: safe_def)
  show ?case
  proof (cases y)
    case (Inl e')
    then have "seat_loop env look options auth n e' w2 = (Inr r, w')"
      using Suc.prems(2) l x r by (simp split: if_splits)
    then show ?thesis using Suc.IH [OF ok2] by blast
  next
    case (Inr r')
    then show ?thesis using Suc.prems(2) l x r ok1 by auto
  qed
qed simp

end

interpretation by_criteria: room_search env "join_find env h flt options" for env h flt options
  by unfold_locales (simp add: join_find_def split: option.split)

interpretation by_room_id: room_search env "by_id_find rid" for env rid
  by unfold_locales (simp add: by_id_find_def split: option.split)

interpretation or_creating: room_search env "find_or_create env name h flt options" for env name h flt options
  by unfold_locales (rule find_or_create_safe)

section \<open>Restoring\<close>

lemma restore_spawn_safe:
  fixes w :: "('r, 's, 'i, 'h) MatchMaker"
  assumes "env_ok env" and "room_type H" and "room_id ctx = rid" and "driver ctx = mm_driver w"
    and "next_ref ctx = mm_next_ref w" and "\<not> disposing ctx"
    and "driver_wf (mm_driver w) \<Longrightarrow> ctx_ok (ctx :: ('s, 'i, 'h) RoomContext)" and "connecting ctx = []"
  shows "safe w (snd (case spawn_restored_room H r ctx snap of
      Inl (e, ctx') \<Rightarrow> (Inl e, await env (reclaim ctx' w))
    | Inr (a, lst) \<Rightarrow>
        let w1 = await env (reclaim (actor_ctx a) w)
        in (Inr (Some lst), w1\<lparr>mm_rooms := AList.update (l_room_id lst) (H, a) (mm_rooms w1),
              mm_driver := driver_insert lst (mm_driver w1), mm_lobby_tx := mm_lobby_tx w1 @ [RoomCreated lst]\<rparr>)))"
    (is "safe w (snd ?res)")
proof -
  have "safe w (snd ?res)" if wf: "driver_wf (mm_driver w)"
  proof (cases "spawn_restored_room H r ctx snap")
    case (Inl x)
    obtain e ctx' where x: "x = (e, ctx')" by (cases x)
    have "spawned_from ctx ctx'"
      using room_type.spawn_restored_from [OF assms(2) assms(7) [OF wf] assms(8)] Inl x by (auto simp: spawn_outcome_def)
    then show ?thesis
      using safe_trans [OF reclaim_spawned safe_await [OF assms(1)]] assms(4,5) by (simp add: Inl x)
  next
    case (Inr x)
    obtain a l where x: "x = (a, l)" by (cases x)
    have f: "spawned_from ctx (actor_ctx a)" "l = build_listing (actor_ctx a)"
      using room_type.spawn_restored_from [OF assms(2) assms(7) [OF wf] assms(8)] Inr x by (auto simp: spawn_outcome_def)
    have "actor_ok a"
      using room_type.spawn_restored_room_ok [OF assms(2) _ assms(7) [OF wf] assms(8)] Inr x by simp
    moreover have "l_room_id l = room_id ctx" using f by (simp add: build_listing_def spawned_from_def)
    ultimately show ?thesis
      using spawned_safe [OF assms(1) f(1) assms(4-6,2) _ f(2) refl] by (simp add: Inr x Let_def)
  qed
  then show ?thesis by (auto simp: safe_def world_ok_def [of w])
qed

lemma restore_room_safe:
  assumes "env_ok env"
  shows "safe w (snd (restore_room env rid w))"
proof -
  have "safe w (snd (restore_room env rid w))" if "world_ok w"
    using restore_spawn_safe [OF assms handler_room_type [OF that]] driver_wf_inv
    by (simp add: restore_room_def Let_def ctx_ok_new split: option.split sum.split)
  then show ?thesis by (auto simp: safe_def)
qed

lemma restore_ids_safe: "env_ok env \<Longrightarrow> safe w (snd (restore_ids env ids w))"
proof (induction ids arbitrary: w)
  case (Cons rid ids)
  then show ?case
    using safe_trans [OF restore_room_safe [OF Cons.prems] Cons.IH [OF Cons.prems]] by (simp add: split_def)
qed simp

section \<open>The invariant of the process\<close>

lemma join_inner_safe: "env_ok env \<Longrightarrow> safe w (snd (join_inner env name options flt auth w))"
  and join_by_id_safe: "env_ok env \<Longrightarrow> safe w (snd (join_by_id env rid options auth w))"
  and join_or_create_inner_safe: "env_ok env \<Longrightarrow> safe w (snd (join_or_create_inner env name options flt auth w))"
  by (simp_all add: join_inner_def join_by_id_def join_or_create_inner_def by_criteria.seat_loop_safe
      by_room_id.seat_loop_safe or_creating.seat_loop_safe del: seat_loop.simps split: sum.split)

lemma mm_create_safe:
  assumes "env_ok env"
  shows "safe w (snd (mm_create env name options auth w))"
  using create_room_inner_safe [OF assms, of w name] safe_trans [OF create_room_inner_safe [OF assms] reserve_seat_safe [OF assms]]
  by (simp add: mm_create_def split_def split: sum.split)


definition sample_world :: "(unit, json, unit, nat) MatchMaker" where
  "sample_world = register (handler_unique_by [''slot''] (handler_new ''game'' ((), default_hooks))) sample_mm"

lemma sample_world_ok: "world_ok sample_world"
  using default_room.room_type_axioms
  by (simp add: world_ok_def sample_world_def register_def sample_mm_def matchmaker_new_def handler_new_def
      handler_unique_by_def driver_wf_def driver_new_def driver_inv_def)

lemma sample_env_ok: "env_ok sample_env"
  by (simp add: env_ok_def sample_env_def)


end
