(* ===== verification/Requests.thy ===== *)
theory Requests
  imports World
begin

text \<open>
  What a request gets: the number of attempts and the errors of the retry loop, and the
  promise behind a reservation, that the room it names runs, is listed and holds the seat.
\<close>

section \<open>The attempts of a request\<close>

text \<open>Failed attempts one after the other: each found a listing and was refused the seat.\<close>

inductive attempts ::
  "('r, 's, 'i, 'h) Surroundings
     \<Rightarrow> (('r, 's, 'i, 'h) MatchMaker \<Rightarrow> (ServerError, RoomListing) result \<times> ('r, 's, 'i, 'h) MatchMaker)
     \<Rightarrow> json \<Rightarrow> AuthContext \<Rightarrow> nat \<Rightarrow> ('r, 's, 'i, 'h) MatchMaker \<Rightarrow> ServerError option
     \<Rightarrow> ('r, 's, 'i, 'h) MatchMaker \<Rightarrow> bool"
  for env look options auth where
  start: "attempts env look options auth 0 w None w"
| again: "attempts env look options auth n w e w1 \<Longrightarrow> look w1 = (Inr l, w2)
    \<Longrightarrow> reserve_seat env l options auth w2 = (Inl e', w3) \<Longrightarrow> is_seat_reservation_failure e'
    \<Longrightarrow> attempts env look options auth (Suc n) w (Some e') w3"

lemma attempts_first:
  assumes "attempts env look options auth n w2 e w'" and "look w = (Inr l, w1)"
    and "reserve_seat env l options auth w1 = (Inl e', w2)" and "is_seat_reservation_failure e'"
  shows "attempts env look options auth (Suc n) w (Some (case e of None \<Rightarrow> e' | Some e'' \<Rightarrow> e'')) w'"
  using assms
proof (induction rule: attempts.induct)
  case (start w2)
  then show ?case using attempts.again [OF attempts.start] by fastforce
next
  case (again n w2 e w1' l' w2' e'' w3)
  then show ?case using attempts.again by fastforce
qed

text \<open>
  The answer of a request of at most \<open>k\<close> attempts: some retryable refusals, then the
  search fails, or the seat is granted or refused for good, or the attempts are used up
  and the answer is the last refusal.
\<close>

definition answered ::
  "('r, 's, 'i, 'h) Surroundings
     \<Rightarrow> (('r, 's, 'i, 'h) MatchMaker \<Rightarrow> (ServerError, RoomListing) result \<times> ('r, 's, 'i, 'h) MatchMaker)
     \<Rightarrow> json \<Rightarrow> AuthContext \<Rightarrow> nat \<Rightarrow> ServerError \<Rightarrow> ('r, 's, 'i, 'h) MatchMaker
     \<Rightarrow> (ServerError, SeatReservation) result \<times> ('r, 's, 'i, 'h) MatchMaker \<Rightarrow> bool" where
  "answered env look options auth k none_yet w out \<longleftrightarrow>
     (\<exists>n e w1. attempts env look options auth n w e w1 \<and>
        (n < k \<and> (\<exists>e' w2. look w1 = (Inl e', w2) \<and> out = (Inl e', w2))
       \<or> n < k \<and> (\<exists>l w2. look w1 = (Inr l, w2) \<and> reserve_seat env l options auth w2 = out
            \<and> (\<forall>e'. fst out = Inl e' \<longrightarrow> \<not> is_seat_reservation_failure e'))
       \<or> n = k \<and> out = (Inl (case e of None \<Rightarrow> none_yet | Some e' \<Rightarrow> e'), w1)))"

lemma answeredI:
  "attempts env look options auth n w e w1 \<Longrightarrow> n < k \<and> (\<exists>e' w2. look w1 = (Inl e', w2) \<and> out = (Inl e', w2))
       \<or> n < k \<and> (\<exists>l w2. look w1 = (Inr l, w2) \<and> reserve_seat env l options auth w2 = out
            \<and> (\<forall>e'. fst out = Inl e' \<longrightarrow> \<not> is_seat_reservation_failure e'))
       \<or> n = k \<and> out = (Inl (case e of None \<Rightarrow> none_yet | Some e' \<Rightarrow> e'), w1)
     \<Longrightarrow> answered env look options auth k none_yet w out"
  unfolding answered_def by blast

lemma answered_again:
  assumes "answered env look options auth k e' w2 out" and "look w = (Inr l, w1)"
    and "reserve_seat env l options auth w1 = (Inl e', w2)" and "is_seat_reservation_failure e'"
  shows "answered env look options auth (Suc k) e0 w out"
proof -
  obtain n e w3 where a: "attempts env look options auth n w2 e w3"
    and o: "n < k \<and> (\<exists>e' w2. look w3 = (Inl e', w2) \<and> out = (Inl e', w2))
       \<or> n < k \<and> (\<exists>l w2. look w3 = (Inr l, w2) \<and> reserve_seat env l options auth w2 = out
            \<and> (\<forall>e'. fst out = Inl e' \<longrightarrow> \<not> is_seat_reservation_failure e'))
       \<or> n = k \<and> out = (Inl (case e of None \<Rightarrow> e' | Some e'' \<Rightarrow> e''), w3)"
    using assms(1) by (auto simp: answered_def)
  show ?thesis
    using o by (intro answeredI [OF attempts_first [OF a assms(2-4)]]) (auto split: option.splits)
qed

lemma seat_loop_answered: "answered env look options auth k e w (seat_loop env look options auth k e w)"
proof (induction k arbitrary: e w)
  case 0
  show ?case by (rule answeredI [OF attempts.start]) simp
next
  case (Suc k)
  obtain x w1 where l: "look w = (x, w1)" by (cases "look w")
  show ?case
  proof (cases x)
    case (Inl e')
    then show ?thesis using l by (intro answeredI [OF attempts.start]) simp
  next
    case (Inr lst)
    obtain y w2 where r: "reserve_seat env lst options auth w1 = (y, w2)" by (metis surj_pair)
    show ?thesis
    proof (cases "\<exists>e'. y = Inl e' \<and> is_seat_reservation_failure e'")
      case True
      then obtain e' where y: "y = Inl e'" "is_seat_reservation_failure e'" by blast
      then have "seat_loop env look options auth (Suc k) e w = seat_loop env look options auth k e' w2"
        using l Inr r by simp
      then show ?thesis
        using answered_again [OF Suc.IH [of e' w2], of w lst w1 e] l Inr r y by simp
    next
      case False
      then have "seat_loop env look options auth (Suc k) e w = reserve_seat env lst options auth w1"
        using l Inr r by (auto split: sum.split)
      then show ?thesis
        using l Inr r False by (intro answeredI [OF attempts.start]) auto
    qed
  qed
qed

text \<open>
  C12. Every request ends: for a registered room type, find-or-create, join and join by id
  answer after at most three attempts, each a search and a seat request. Earlier attempts
  all ended in a retryable refusal; the answer is the error of the search, the seat, a
  refusal that is not retryable, or after the third attempt the last refusal.
\<close>

theorem requests_end:
  assumes "get_handler name w = Inr h"
  shows "answered env (find_or_create env name h flt options) options auth 3
      (new_error MATCHMAKE_UNHANDLED ''join_or_create failed'') w (join_or_create_inner env name options flt auth w)
    \<and> answered env (join_find env h flt options) options auth 3 seat_expired w (join_inner env name options flt auth w)
    \<and> answered env (by_id_find rid) options auth 3 seat_expired w (join_by_id env rid options auth w)"
proof -
  have "JOIN_OR_CREATE_RETRIES = 3" "Suc JOIN_RETRIES = 3" by (simp_all add: JOIN_OR_CREATE_RETRIES_def JOIN_RETRIES_def)
  then show ?thesis
    unfolding join_or_create_inner_def join_inner_def join_by_id_def assms sum.case
    by (simp only: seat_loop_answered simp_thms)
qed

theorem requests_end_witness:
  "answered sample_env (by_id_find ''r9'') JNull \<lparr>auth_token = None, auth_headers = [], auth_ip = None\<rparr> 3 seat_expired
     sample_world (join_by_id sample_env ''r9'' JNull \<lparr>auth_token = None, auth_headers = [], auth_ip = None\<rparr> sample_world)"
proof -
  have "get_handler ''game'' sample_world
      = Inr (handler_unique_by [''slot''] (handler_new ''game'' ((), default_hooks)))"
    by (simp add: get_handler_def sample_world_def register_def handler_new_def handler_unique_by_def
        sample_mm_def matchmaker_new_def)
  from requests_end [OF this] show ?thesis by blast
qed

section \<open>The promise of a reservation\<close>

context room_type
begin

lemma turn_queue:
  assumes "actor_ok a" and "run_turn H a = Some (Continue, res, a')" and "sender (actor_ctx a) = Some (ev # rest)"
  shows "\<exists>cs. sender (actor_ctx a') = Some (rest @ map Command cs)"
proof -
  obtain a1 where h: "handle_event H ev ((sync_intervals a)\<lparr>actor_ctx := (actor_ctx a)\<lparr>sender := Some rest\<rparr>\<rparr>)
      = ((Continue, res), a1)" and b: "after_branch H a1 = (Continue, a')"
    using assms(2,3) by (auto simp: run_turn_def Let_def split: prod.splits Flow.splits)
  have "sender (actor_ctx a1) = sender (actor_ctx a')"
    using b by (auto simp: after_branch_def split: option.splits if_splits)
  then show ?thesis
    using event_ok [OF assms(1,3) h] queued_Some [of rest "sender (actor_ctx a1)"] by simp
qed

text \<open>The turn that answers the question: what is at its place in the mailbox is what is asked.\<close>

lemma serve_last:
  assumes "actor_ok a" and "\<not> disposing (actor_ctx a)" and "sender (actor_ctx a) = Some q" and "n < length q"
    and "serve n H a = (fl, Some res, a')"
  shows "\<exists>b rest. actor_ok b \<and> \<not> disposing (actor_ctx b) \<and> same_room a b
    \<and> sender (actor_ctx b) = Some (q ! n # rest) \<and> run_turn H b = Some (fl, res, a')"
  using assms
proof (induction n arbitrary: a q)
  case 0
  then obtain rest where "q = q ! 0 # rest" by (cases q) auto
  then show ?case
    using 0 by (intro exI [of _ a] exI [of _ rest]) (auto simp: same_room_def split: option.splits)
next
  case (Suc n)
  then obtain a1 res1 where t: "run_turn H a = Some (Continue, res1, a1)" "serve n H a1 = (fl, Some res, a')"
    by (auto split: option.splits Flow.splits)
  obtain ev rest where q: "q = ev # rest" using Suc.prems(4) by (cases q) auto
  obtain cs where s1: "sender (actor_ctx a1) = Some (rest @ map Command cs)"
    using turn_queue [OF Suc.prems(1) t(1)] Suc.prems(3) q by blast
  note ok1 = run_turn_ok [OF Suc.prems(1) t(1)]
  have "(rest @ map Command cs) ! n = q ! Suc n" using Suc.prems(4) by (simp add: q nth_append)
  moreover have "n < length (rest @ map Command cs)" using Suc.prems(4) by (simp add: q)
  ultimately obtain b rest' where b: "actor_ok b" "\<not> disposing (actor_ctx b)" "same_room a1 b"
    "sender (actor_ctx b) = Some (q ! Suc n # rest')" "run_turn H b = Some (fl, res, a')"
    using Suc.IH [OF _ _ s1 _ t(2)] ok1 Suc.prems(2) by auto
  then show ?case using same_room_trans [of a a1 b] ok1 by blast
qed

lemma reserve_grants:
  assumes "on_reserve_seat H sid options auth rm = (Inr (), rm')"
  shows "\<exists>seat. map_of (reserved_seats (snd rm')) sid = Some seat \<and> seat_options seat = options \<and> seat_pending seat"
  using assms
  by (auto simp: on_reserve_seat_def Let_def update_conv' seat_pending_def split: if_splits sum.splits prod.splits)

lemma reserve_turn:
  assumes "actor_ok b" and "\<not> disposing (actor_ctx b)" and "sender (actor_ctx b) = Some (ReserveSeat sid options auth # rest)"
    and "run_turn H b = Some (fl, RUnit (Inr u), a')"
  shows "if fl = Break then driver_get (room_id (actor_ctx b)) (driver (actor_ctx a')) = None
    else \<exists>seat. map_of (reserved_seats (actor_ctx a')) sid = Some seat \<and> seat_options seat = options \<and> seat_pending seat"
proof (cases fl)
  case Break
  then show ?thesis using break_gone_ok [OF assms(1,2)] assms(4) by (simp add: gone_def)
next
  case Continue
  let ?a = "(sync_intervals b)\<lparr>actor_ctx := (actor_ctx b)\<lparr>sender := Some rest\<rparr>\<rparr>"
  obtain res rm' where r: "on_reserve_seat H sid options auth (actor_room ?a, actor_ctx ?a) = (res, rm')"
    by (metis surj_pair)
  have h: "handle_event H (ReserveSeat sid options auth) ?a = ((Continue, RUnit res), ?a\<lparr>actor_room := fst rm', actor_ctx := snd rm'\<rparr>)"
    using r by (simp add: handle_event_def run_room_def split_def)
  have "res = Inr ()" "actor_ctx a' = snd rm'"
    using assms(3,4) Continue h
    by (auto simp: run_turn_def Let_def after_branch_def split: prod.splits option.splits if_splits)
  then show ?thesis using reserve_grants [OF r [unfolded \<open>res = Inr ()\<close>]] Continue by simp
qed

end

lemma reserve_seat_granted:
  assumes "reserve_seat env l options auth w = (Inr r, w')"
  shows "\<exists>u w2. map_of (mm_rooms w) (l_room_id l) \<noteq> None \<and> sr_session_id r = mm_gen w (mm_gen_next w)
    \<and> ask (l_room_id l) (ReserveSeat (mm_gen w (mm_gen_next w)) options auth)
        (w\<lparr>mm_gen_next := Suc (mm_gen_next w)\<rparr>) = (Some (RUnit (Inr u)), w2)
    \<and> w' = await env w2 \<and> driver_get (l_room_id l) (mm_driver w') = Some (sr_room r)"
proof (cases "map_of (mm_rooms w) (l_room_id l) = None")
  case True
  then show ?thesis using assms by (simp add: reserve_seat_def Let_def)
next
  case False
  obtain ans w2 where a: "ask (l_room_id l) (ReserveSeat (mm_gen w (mm_gen_next w)) options auth)
      (w\<lparr>mm_gen_next := Suc (mm_gen_next w)\<rparr>) = (ans, w2)" by (metis surj_pair)
  show ?thesis
    using assms False a unfolding reserve_seat_def Let_def if_not_P [OF False]
    by (auto simp: mm_generate_id_def split: if_splits option.splits Response.splits sum.splits)
qed

definition holds_seat :: "string \<Rightarrow> json \<Rightarrow> SeatReservation \<Rightarrow> ('r, 's, 'i, 'h) MatchMaker \<Rightarrow> bool" where
  "holds_seat rid options r w \<longleftrightarrow>
     (\<exists>H a seat. map_of (mm_rooms w) rid = Some (H, a) \<and> driver_get rid (mm_driver w) = Some (sr_room r)
        \<and> map_of (reserved_seats (actor_ctx a)) (sr_session_id r) = Some seat
        \<and> seat_options seat = options \<and> seat_pending seat)"

lemma reserve_seat_holds:
  fixes w :: "('r, 's, 'i, 'h) MatchMaker"
  assumes "world_ok w" and "meanwhile env = (\<lambda>_ w. w)" and "reserve_seat env l options auth w = (Inr r, w')"
  shows "holds_seat (l_room_id l) options r w'"
proof -
  let ?rid = "l_room_id l" and ?sid = "mm_gen w (mm_gen_next w)" and ?w1 = "w\<lparr>mm_gen_next := Suc (mm_gen_next w)\<rparr>"
  define ev :: "'h RoomEvent" where "ev = ReserveSeat ?sid options auth"
  obtain u w2 where g: "map_of (mm_rooms w) ?rid \<noteq> None" "sr_session_id r = ?sid"
    "ask ?rid ev ?w1 = (Some (RUnit (Inr u)), w2)" "w' = await env w2" "driver_get ?rid (mm_driver w') = Some (sr_room r)"
    using reserve_seat_granted [OF assms(3)] unfolding ev_def by blast
  obtain H a where m: "map_of (mm_rooms w) ?rid = Some (H, a)" using g(1) by auto
  define n where "n = (case sender (actor_ctx a) of Some q \<Rightarrow> length q | None \<Rightarrow> 0)"
  define a1 where "a1 = a\<lparr>actor_ctx := (lend ?w1 (actor_ctx a))\<lparr>sender := map_option (\<lambda>q. q @ [ev]) (sender (actor_ctx a))\<rparr>\<rparr>"
  obtain fl res a2 where sv: "serve n H a1 = (fl, res, a2)" by (metis surj_pair)
  have w2: "res = Some (RUnit (Inr u))" "mm_driver w2 = driver (actor_ctx a2)"
      "mm_rooms w2 = (if fl = Break then AList.delete ?rid (mm_rooms w) else AList.update ?rid (H, a2) (mm_rooms w))"
    using g(3) by (auto simp: ask_def m Let_def n_def [symmetric] a1_def [symmetric] sv)
  have w': "mm_driver w' = driver (actor_ctx a2)" "mm_rooms w' = mm_rooms w2"
    using g(4) assms(2) w2(2) by (simp_all add: await_def)
  have h: "room_type H" "room_id (actor_ctx a) = ?rid" "\<not> disposing (actor_ctx a)"
      "actor_ok (a\<lparr>actor_ctx := lend w (actor_ctx a)\<rparr>)"
    using world_ok_rooms [OF assms(1) m] by (simp_all add: hosted_def)
  have "a1 = post ev (a\<lparr>actor_ctx := lend ?w1 (actor_ctx a)\<rparr>)" by (simp add: a1_def post_def)
  moreover have "actor_ok (a\<lparr>actor_ctx := lend ?w1 (actor_ctx a)\<rparr>)" using h(4) by (simp add: actor_ok_lend)
  ultimately have ok1: "actor_ok a1"
    using post_ok [of "a\<lparr>actor_ctx := lend ?w1 (actor_ctx a)\<rparr>" ev] by (simp add: ev_def)
  show ?thesis
  proof (cases "sender (actor_ctx a)")
    case None
    then have "sender (actor_ctx a1) = None" "n = 0" by (simp_all add: a1_def n_def)
    then show ?thesis
      using sv w2(1) by (auto simp: run_turn_def Let_def split: option.splits prod.splits)
  next
    case (Some q)
    then have q: "sender (actor_ctx a1) = Some (q @ [ev])" "n = length q" by (simp_all add: a1_def n_def)
    have "\<not> disposing (actor_ctx a1)" using h(3) by (simp add: a1_def)
    then obtain b rest where b: "actor_ok b" "\<not> disposing (actor_ctx b)" "same_room a1 b"
        "sender (actor_ctx b) = Some (ev # rest)" "run_turn H b = Some (fl, RUnit (Inr u), a2)"
      using room_type.serve_last [OF h(1) ok1 _ q(1), of n fl "RUnit (Inr u)" a2] sv w2(1) q(2) by auto
    have "room_id (actor_ctx b) = ?rid" using b(3) h(2) by (simp add: same_room_def a1_def)
    note turn = room_type.reserve_turn [OF h(1) b(1,2) b(4) [unfolded ev_def] b(5), unfolded this]
    then have "fl \<noteq> Break" using g(5) w'(1) by auto
    then have "map_of (mm_rooms w') ?rid = Some (H, a2)" using w2(3) w'(2) by (simp add: update_conv')
    then show ?thesis using turn \<open>fl \<noteq> Break\<close> g(2,5) by (simp add: holds_seat_def)
  qed
qed

lemma pending_seat_kept:
  "map_of m sid = Some seat \<Longrightarrow> seat_pending seat \<Longrightarrow> list_ex (\<lambda>(_, s). \<not> consumed s \<and> \<not> waiting_reconnection s) m"
  by (auto simp: list_ex_iff seat_pending_def dest!: map_of_SomeD)

lemma default_reserve_turn:
  assumes "sender (actor_ctx b) = Some [ReserveSeat sid options auth]" and "\<not> disposing (actor_ctx b)"
    and "\<not> locked (actor_ctx b)" and "max_clients (actor_ctx b) = None" and "request_dispose (actor_ctx b) = None"
    and "driver_get (room_id (actor_ctx b)) (driver (actor_ctx b)) \<noteq> None"
  shows "\<exists>a'. run_turn default_hooks b = Some (Continue, RUnit (Inr ()), a')
    \<and> driver_get (room_id (actor_ctx b)) (driver (actor_ctx a')) \<noteq> None"
proof -
  define b1 where "b1 = (sync_intervals b)\<lparr>actor_ctx := (actor_ctx b)\<lparr>sender := Some []\<rparr>\<rparr>"
  define out where "out = on_reserve_seat default_hooks sid options auth (actor_room b1, actor_ctx b1)"
  have r: "fst out = Inr ()" "request_dispose (snd (snd out)) = None"
      "driver_get (room_id (actor_ctx b)) (driver (snd (snd out))) \<noteq> None"
    using assms by (simp_all add: out_def on_reserve_seat_def Let_def b1_def default_hooks_def has_reached_max_clients_def)
  have "out = (Inr (), snd out)" using r(1) by (metis prod.collapse)
  then have "list_ex (\<lambda>(_, s). \<not> consumed s \<and> \<not> waiting_reconnection s) (reserved_seats (snd (snd out)))"
    using room_type.reserve_grants [OF default_room.room_type_axioms, of sid options auth "(actor_room b1, actor_ctx b1)" "snd out"]
      pending_seat_kept unfolding out_def by metis
  moreover have "handle_event default_hooks (ReserveSeat sid options auth) b1
      = ((Continue, RUnit (Inr ())), b1\<lparr>actor_room := fst (snd out), actor_ctx := snd (snd out)\<rparr>)"
    using r(1) by (simp add: handle_event_def run_room_def out_def split_def)
  ultimately show ?thesis
    using assms(1) r by (simp add: run_turn_def Let_def b1_def [symmetric] after_branch_def should_auto_dispose_def)
qed

text \<open>A process that hosts one room of the default hooks.\<close>

definition hosting :: "(unit, json, unit, nat) MatchMaker" where
  "hosting = sample_mm\<lparr>mm_rooms := [(''r'', default_hooks, sample_actor)],
     mm_driver := driver_insert (sample_listing\<lparr>l_room_id := ''r''\<rparr>) driver_new, mm_next_ref := 1\<rparr>"

lemma hosting_ok: "world_ok hosting"
proof -
  have wf: "driver_wf (mm_driver hosting)"
    using driver_wf_ops(1) [of driver_new "sample_listing\<lparr>l_room_id := ''r''\<rparr>"]
    by (simp add: hosting_def) (simp add: driver_wf_def driver_new_def driver_inv_def)
  have "actor_ok sample_actor" by (rule default_room.reach_actor_ok [OF sample_actor_reach])
  then have "actor_ok (sample_actor\<lparr>actor_ctx := lend hosting (actor_ctx sample_actor)\<rparr>)"
    by (rule actor_ok_relend)
      (simp_all add: driver_wf_inv [OF wf], simp add: hosting_def sample_actor_def finish_spawn_def set_sender_def sample_ctx_def room_context_new_def)
  moreover have "room_id (actor_ctx sample_actor) = ''r''" "\<not> disposing (actor_ctx sample_actor)"
    by (simp_all add: sample_actor_def finish_spawn_def set_sender_def sample_ctx_def)
  ultimately have "hosted hosting (''r'', default_hooks, sample_actor)"
    using default_room.room_type_axioms by (simp add: hosted_def) (simp add: hosting_def)
  then show ?thesis using wf by (simp add: world_ok_def) (simp add: hosting_def sample_mm_def matchmaker_new_def)
qed

lemma hosting_join: "\<exists>r w'. join_by_id sample_env ''r'' JNull auth hosting = (Inr r, w')"
proof -
  let ?sid = "mm_gen hosting (mm_gen_next hosting)"
  let ?w = "hosting\<lparr>mm_gen_next := Suc (mm_gen_next hosting)\<rparr>"
  let ?l = "sample_listing\<lparr>l_room_id := ''r''\<rparr>"
  define a1 where "a1 = sample_actor\<lparr>actor_ctx := (lend ?w (actor_ctx sample_actor))\<lparr>sender := Some [ReserveSeat ?sid JNull auth]\<rparr>\<rparr>"
  have f: "sender (actor_ctx sample_actor) = Some []" "room_id (actor_ctx sample_actor) = ''r''" "\<not> disposing (actor_ctx sample_actor)"
    "\<not> locked (actor_ctx sample_actor)" "max_clients (actor_ctx sample_actor) = None" "request_dispose (actor_ctx sample_actor) = None"
    by (simp_all add: sample_actor_def finish_spawn_def set_sender_def sample_ctx_def room_context_new_def)
  have d: "driver_get ''r'' (mm_driver hosting) = Some ?l" "map_of (mm_rooms hosting) ''r'' = Some (default_hooks, sample_actor)"
    by (simp_all add: hosting_def)
  obtain a' where t: "run_turn default_hooks a1 = Some (Continue, RUnit (Inr ()), a')" "driver_get ''r'' (driver (actor_ctx a')) \<noteq> None"
    using default_reserve_turn [of a1 ?sid JNull auth] f d by (auto simp: a1_def) (auto simp: lend_def)
  then obtain w2 where "ask ''r'' (ReserveSeat ?sid JNull auth) ?w = (Some (RUnit (Inr ())), w2)" "mm_driver w2 = driver (actor_ctx a')"
    by (simp add: ask_def d f Let_def a1_def [symmetric])
  then have "\<exists>r w'. reserve_seat sample_env ?l JNull auth hosting = (Inr r, w')"
    using t(2) d by (auto simp: reserve_seat_def Let_def mm_generate_id_def sample_env_def await_def)
  then show ?thesis
    using d by (auto simp: join_by_id_def JOIN_RETRIES_def numeral_2_eq_2 by_id_find_def sample_listing_def)
qed


end

