(* ===== verification/Replay.thy ===== *)
theory Replay
  imports Matchmaker
begin

text \<open>
  The cache of reservations by \<^verbatim>\<open>Idempotency-Key\<close>
  (\<^verbatim>\<open>idempotency_get\<close> and \<^verbatim>\<open>idempotency_put\<close> of
  \<^verbatim>\<open>crates/colyseus/src/matchmaker.rs\<close>): it stays within its bound, and a
  duplicate request within 30 seconds is answered with the reservation of the first one
  unless 1024 newer ones have come in between.
\<close>

section \<open>The operations\<close>

type_synonym 'v cached = "instant \<times> 'v"

definition cache_age :: "instant \<Rightarrow> string \<times> 'v cached \<Rightarrow> duration" where
  "cache_age t e = t - fst (snd e)"

definition idempotency_get ::
  "string \<Rightarrow> ('r, 's, 'i, 'h) MatchMaker \<Rightarrow> SeatReservation option \<times> ('r, 's, 'i, 'h) MatchMaker" where
  "idempotency_get key w =
     (case map_of (mm_idempotency w) key of
        None \<Rightarrow> (None, w)
      | Some (stored, r) \<Rightarrow>
          if mm_now w - stored > IDEMPOTENCY_TTL
          then (None, w\<lparr>mm_idempotency := AList.delete key (mm_idempotency w)\<rparr>)
          else (Some r, w))"

text \<open>The entry of the greatest age, the last one of several.\<close>

fun oldest :: "instant \<Rightarrow> (string \<times> 'v cached) list \<Rightarrow> (string \<times> 'v cached) option" where
  "oldest t [] = None"
| "oldest t (e # es) =
     (case oldest t es of
        None \<Rightarrow> Some e
      | Some e' \<Rightarrow> if cache_age t e' < cache_age t e then Some e else Some e')"

lemma oldest_in: "oldest t es = Some e \<Longrightarrow> e \<in> set es"
  by (induction es arbitrary: e) (auto split: option.splits if_splits)

lemma oldest_None [simp]: "oldest t es = None \<longleftrightarrow> es = []"
  by (cases es) (auto split: option.split)

lemma oldest_max: "oldest t es = Some e \<Longrightarrow> e' \<in> set es \<Longrightarrow> cache_age t e' \<le> cache_age t e"
  by (induction es arbitrary: e) (fastforce split: option.splits if_splits)+

lemma length_delete_less: "(k, v) \<in> set es \<Longrightarrow> length (AList.delete k es) < length es"
  unfolding AList.delete_eq by (rule length_filter_less [of "(k, v)"]) auto

function make_space :: "nat \<Rightarrow> instant \<Rightarrow> (string \<times> 'v cached) list \<Rightarrow> (string \<times> 'v cached) list" where
  "make_space cap t es =
     (if cap \<le> length es
      then (case oldest t es of Some e \<Rightarrow> make_space cap t (AList.delete (fst e) es) | None \<Rightarrow> es)
      else es)"
  by pat_completeness auto
termination
  by (relation "measure (\<lambda>(cap, t, es). length es)") (auto dest!: oldest_in intro: length_delete_less)

declare make_space.simps [simp del]

definition idempotency_put ::
  "string \<Rightarrow> SeatReservation \<Rightarrow> ('r, 's, 'i, 'h) MatchMaker \<Rightarrow> ('r, 's, 'i, 'h) MatchMaker" where
  "idempotency_put key r w =
     (let kept = filter (\<lambda>e. cache_age (mm_now w) e \<le> IDEMPOTENCY_TTL) (mm_idempotency w)
      in w\<lparr>mm_idempotency := AList.update key (mm_now w, r) (make_space IDEMPOTENCY_CAP (mm_now w) kept)\<rparr>)"

section \<open>The bound\<close>

definition cache_ok :: "(string \<times> 'v cached) list \<Rightarrow> bool" where
  "cache_ok es \<longleftrightarrow> distinct (map fst es) \<and> length es \<le> IDEMPOTENCY_CAP"

lemma make_space_sub: "set (make_space cap t es) \<subseteq> set es"
proof (induction cap t es rule: make_space.induct)
  case (1 cap t es)
  then show ?case
    by (subst make_space.simps) (auto simp: AList.delete_eq split: option.splits if_splits)
qed

lemma make_space_distinct: "distinct (map fst es) \<Longrightarrow> distinct (map fst (make_space cap t es))"
proof (induction cap t es rule: make_space.induct)
  case (1 cap t es)
  then show ?case
    by (subst make_space.simps) (auto split: option.splits simp: distinct_delete)
qed

lemma make_space_bound: "0 < cap \<Longrightarrow> length (make_space cap t es) < cap"
proof (induction cap t es rule: make_space.induct)
  case (1 cap t es)
  then show ?case
    by (subst make_space.simps) (auto split: option.splits)
qed

lemma length_update_le: "length (AList.update k v es) \<le> Suc (length es)"
  by (induction es) auto

text \<open>What every cache of this kind does when an entry is stored.\<close>

lemma cache_stored:
  assumes "distinct (map fst es)" and "0 < cap"
    and "es' = AList.update key (t, v) (make_space cap t (filter (\<lambda>e. cache_age t e \<le> ttl) es))"
  shows "distinct (map fst es') \<and> length es' \<le> cap \<and> (\<forall>e \<in> set es'. cache_age t e \<le> ttl) \<and> map_of es' key = Some (t, v)"
proof -
  define kept where "kept = filter (\<lambda>e. cache_age t e \<le> ttl) es"
  have es': "es' = AList.update key (t, v) (make_space cap t kept)" by (simp add: assms(3) kept_def)
  have "distinct (map fst kept)" using assms(1) by (simp add: kept_def distinct_map_filter)
  then have "distinct (map fst es') \<and> length es' \<le> cap"
    using make_space_bound [OF assms(2), of t kept] length_update_le [of key "(t, v)" "make_space cap t kept"]
    by (simp add: es' distinct_update make_space_distinct)
  moreover have "cache_age t e \<le> ttl" if "e \<in> set es'" for e
  proof (cases "e = (key, t, v)")
    case False
    then have "e \<in> set kept"
      using that set_update_subset [of key "(t, v)" "make_space cap t kept"] make_space_sub [of cap t kept]
      by (auto simp: es')
    then show ?thesis by (simp add: kept_def)
  qed (simp add: cache_age_def)
  ultimately show ?thesis by (simp add: es' update_conv')
qed

lemma put_bounds:
  assumes "distinct (map fst (mm_idempotency w))"
  shows "cache_ok (mm_idempotency (idempotency_put key r w))
    \<and> (\<forall>e \<in> set (mm_idempotency (idempotency_put key r w)). cache_age (mm_now w) e \<le> IDEMPOTENCY_TTL)
    \<and> map_of (mm_idempotency (idempotency_put key r w)) key = Some (mm_now w, r)"
proof -
  have "0 < IDEMPOTENCY_CAP" by (simp add: IDEMPOTENCY_CAP_def)
  moreover have "mm_idempotency (idempotency_put key r w) = AList.update key (mm_now w, r)
      (make_space IDEMPOTENCY_CAP (mm_now w) (filter (\<lambda>e. cache_age (mm_now w) e \<le> IDEMPOTENCY_TTL) (mm_idempotency w)))"
    by (simp add: idempotency_put_def Let_def)
  ultimately show ?thesis
    unfolding cache_ok_def conj_assoc by (rule cache_stored [OF assms])
qed

text \<open>
  C30. The cache is bounded: whatever is in it, after a reservation is stored it holds at
  most 1024 entries, none older than 30 seconds, each key once, and the new reservation is
  the one of its key.
\<close>

theorem idempotency_bounded:
  assumes "distinct (map fst (mm_idempotency w))"
  shows "cache_ok (mm_idempotency (idempotency_put key r w))
    \<and> (\<forall>e \<in> set (mm_idempotency (idempotency_put key r w)). cache_age (mm_now w) e \<le> IDEMPOTENCY_TTL)
    \<and> map_of (mm_idempotency (idempotency_put key r w)) key = Some (mm_now w, r)"
  using assms by (rule put_bounds)

theorem idempotency_bounded_witness:
  "cache_ok (mm_idempotency (idempotency_put ''a'' sample_reservation sample_mm))"
  by (rule idempotency_bounded [THEN conjunct1]) (simp add: sample_mm_def matchmaker_new_def)

section \<open>Replays\<close>

text \<open>A run of the cache: reservations stored at given instants.\<close>

fun puts :: "(instant \<times> string \<times> SeatReservation) list \<Rightarrow> ('r, 's, 'i, 'h) MatchMaker \<Rightarrow> ('r, 's, 'i, 'h) MatchMaker" where
  "puts [] w = w"
| "puts ((t, k, r) # ps) w = puts ps (idempotency_put k r (w\<lparr>mm_now := t\<rparr>))"

text \<open>The entries other than \<open>k\<close> that are as young as it.\<close>

definition rivals :: "instant \<Rightarrow> string \<Rightarrow> (string \<times> 'v cached) list \<Rightarrow> (string \<times> 'v cached) list" where
  "rivals t0 k es = filter (\<lambda>e. fst e \<noteq> k \<and> t0 \<le> fst (snd e)) es"

lemma rivals_all:
  assumes "distinct (map fst es)" and "map_of es k = Some (t0, r)"
    and "\<And>e. e \<in> set es \<Longrightarrow> t0 \<le> fst (snd e)"
  shows "length es = Suc (length (rivals t0 k es))"
  using assms
proof (induction es)
  case (Cons e es)
  show ?case
  proof (cases "fst e = k")
    case True
    then have "rivals t0 k es = es"
      using Cons.prems by (auto simp: rivals_def image_iff intro!: filter_True)
    then show ?thesis using True by (simp add: rivals_def)
  next
    case False
    then have "map_of es k = Some (t0, r)" using Cons.prems(2) by (cases e) auto
    then have "length es = Suc (length (rivals t0 k es))" using Cons by auto
    then show ?thesis using False Cons.prems(3) [of e] by (simp add: rivals_def)
  qed
qed simp

lemma rivals_delete: "length (rivals t0 k (AList.delete k' es)) \<le> length (rivals t0 k es)"
  unfolding rivals_def AList.delete_eq filter_filter
  by (induction es) auto

lemma rivals_filter: "length (rivals t0 k (filter P es)) \<le> length (rivals t0 k es)"
  unfolding rivals_def filter_filter by (induction es) auto

lemma rivals_update: "length (rivals t0 k (AList.update k' v es)) \<le> Suc (length (rivals t0 k es))"
  unfolding rivals_def by (induction es) auto

lemma oldest_not_younger:
  assumes "distinct (map fst es)" and "map_of es k = Some (t0, r)" and "t0 \<le> t"
    and "Suc (length (rivals t0 k es)) < length es" and "oldest t es = Some e"
  shows "fst e \<noteq> k"
proof
  assume "fst e = k"
  then have e: "e = (k, t0, r)"
    using oldest_in [OF assms(5)] assms(1,2) by (cases e) (auto simp: map_of_eq_Some_iff)
  have "t0 \<le> fst (snd e')" if "e' \<in> set es" for e'
    using oldest_max [OF assms(5) that] assms(3) by (simp add: e cache_age_def)
  then show False using rivals_all [OF assms(1,2)] assms(4) by simp
qed

lemma make_space_keeps:
  assumes "distinct (map fst es)" and "map_of es k = Some (t0, r)" and "t0 \<le> t"
    and "Suc (length (rivals t0 k es)) < cap"
  shows "map_of (make_space cap t es) k = Some (t0, r) \<and> length (rivals t0 k (make_space cap t es)) \<le> length (rivals t0 k es)"
  using assms
proof (induction cap t es rule: make_space.induct)
  case (1 cap t es)
  show ?case
  proof (cases "cap \<le> length es")
    case True
    then have "es \<noteq> []" using 1(5) by auto
    then obtain e where e: "oldest t es = Some e" by (metis not_None_eq oldest_None)
    have "fst e \<noteq> k" using oldest_not_younger [OF 1(2-4) _ e] 1(5) True by simp
    then have "map_of (AList.delete (fst e) es) k = Some (t0, r)" using 1(3) by (simp add: delete_conv')
    moreover note rivals_delete [of t0 k "fst e" es]
    ultimately show ?thesis
      using 1(1) [OF True e] 1(2,4,5) True e
      by (subst (1 2) make_space.simps) (auto simp: distinct_delete)
  next
    case False
    then show ?thesis using 1(3) by (subst (1 2) make_space.simps) simp
  qed
qed

lemma put_keeps:
  assumes "distinct (map fst (mm_idempotency w))" and "map_of (mm_idempotency w) k = Some (t0, r)"
    and "t0 \<le> t" and "t \<le> t0 + IDEMPOTENCY_TTL" and "k' \<noteq> k"
    and "Suc (length (rivals t0 k (mm_idempotency w))) < IDEMPOTENCY_CAP"
  shows "distinct (map fst (mm_idempotency (idempotency_put k' r' (w\<lparr>mm_now := t\<rparr>))))
    \<and> map_of (mm_idempotency (idempotency_put k' r' (w\<lparr>mm_now := t\<rparr>))) k = Some (t0, r)
    \<and> length (rivals t0 k (mm_idempotency (idempotency_put k' r' (w\<lparr>mm_now := t\<rparr>))))
        \<le> Suc (length (rivals t0 k (mm_idempotency w)))"
proof -
  define kept where "kept = filter (\<lambda>e. cache_age t e \<le> IDEMPOTENCY_TTL) (mm_idempotency w)"
  have put: "mm_idempotency (idempotency_put k' r' (w\<lparr>mm_now := t\<rparr>))
      = AList.update k' (t, r') (make_space IDEMPOTENCY_CAP t kept)"
    by (simp add: idempotency_put_def kept_def Let_def)
  have d: "distinct (map fst kept)" using assms(1) by (simp add: kept_def distinct_map_filter)
  have "(k, t0, r) \<in> set kept"
    using map_of_SomeD [OF assms(2)] assms(3,4) by (simp add: kept_def cache_age_def)
  then have m: "map_of kept k = Some (t0, r)" using d by (simp add: map_of_eq_Some_iff)
  have n: "length (rivals t0 k kept) \<le> length (rivals t0 k (mm_idempotency w))"
    unfolding kept_def by (rule rivals_filter)
  then have "Suc (length (rivals t0 k kept)) < IDEMPOTENCY_CAP" using assms(6) by simp
  from make_space_keeps [OF d m assms(3) this]
  show ?thesis
    using rivals_update [of t0 k k' "(t, r')" "make_space IDEMPOTENCY_CAP t kept"] n assms(5) d
    by (auto simp: put distinct_update make_space_distinct update_conv')
qed

lemma puts_keep:
  assumes "distinct (map fst (mm_idempotency w))" and "map_of (mm_idempotency w) k = Some (t0, r)"
    and "\<forall>(t, k', r') \<in> set ps. t0 \<le> t \<and> t \<le> t0 + IDEMPOTENCY_TTL \<and> k' \<noteq> k"
    and "length (rivals t0 k (mm_idempotency w)) + length ps < IDEMPOTENCY_CAP"
  shows "map_of (mm_idempotency (puts ps w)) k = Some (t0, r)"
  using assms
proof (induction ps arbitrary: w)
  case (Cons p ps)
  obtain t k' r' where p: "p = (t, k', r')" by (cases p)
  have "Suc (length (rivals t0 k (mm_idempotency w))) < IDEMPOTENCY_CAP \<or> ps = []"
    using Cons.prems(4) by (cases ps) auto
  show ?case
    using put_keeps [OF Cons.prems(1,2), of t k' r'] Cons.prems(3,4) Cons.IH [of "idempotency_put k' r' (w\<lparr>mm_now := t\<rparr>)"]
    by (simp add: p)
qed simp

text \<open>
  A duplicate request within 30 seconds of the first is answered with the same
  reservation, if fewer than 1024 other reservations have been stored since, and one after
  30 seconds is not. The entries from before the first request are older than it.
\<close>

lemma duplicate_replayed:
  assumes "distinct (map fst (mm_idempotency w))"
    and "\<forall>e \<in> set (mm_idempotency w). fst (snd e) < t0"
    and "\<forall>(t, k', r') \<in> set ps. t0 \<le> t \<and> t \<le> t0 + IDEMPOTENCY_TTL \<and> k' \<noteq> k"
    and "length ps < IDEMPOTENCY_CAP" and "t0 \<le> t"
  shows "fst (idempotency_get k ((puts ps (idempotency_put k r (w\<lparr>mm_now := t0\<rparr>)))\<lparr>mm_now := t\<rparr>))
    = (if t \<le> t0 + IDEMPOTENCY_TTL then Some r else None)"
proof -
  let ?w = "idempotency_put k r (w\<lparr>mm_now := t0\<rparr>)"
  have b: "distinct (map fst (mm_idempotency ?w))" "map_of (mm_idempotency ?w) k = Some (t0, r)"
    using put_bounds [of "w\<lparr>mm_now := t0\<rparr>" k r] assms(1) by (simp_all add: cache_ok_def)
  have "\<not> (fst e \<noteq> k \<and> t0 \<le> fst (snd e))" if "e \<in> set (mm_idempotency ?w)" for e
    using that assms(2) make_space_sub set_update_subset
    by (fastforce simp: idempotency_put_def Let_def)
  then have "rivals t0 k (mm_idempotency ?w) = []" by (simp add: rivals_def filter_empty_conv)
  then have "map_of (mm_idempotency (puts ps ?w)) k = Some (t0, r)"
    using puts_keep [OF b assms(3)] assms(4) by simp
  then show ?thesis
    using assms(5) by (auto simp: idempotency_get_def)
qed

end
