(* ===== verification/Server.thy ===== *)
theory Server
  imports Requests Replay
begin

text \<open>
  The server, \<^verbatim>\<open>crates/colyseus/src/server.rs\<close>: the HTTP handlers of the
  matchmaking and listing endpoints and the task of a WebSocket connection. The router, the
  extractors and the transport are the crate \<^verbatim>\<open>axum\<close>: a handler gets the path
  parameters, the headers, the decoded body or query, and yields a response; a connection is
  the sequence of frames its stream delivers. The body of a response is the value that is
  serialized.
\<close>

section \<open>Building a server\<close>

text \<open>
  The configuration. Additional routes of the embedding application are \<open>extra_router\<close>, a
  registered admin RPC is its name (with the label of its handler for a room RPC).
\<close>

record ('r, 's, 'i, 'h, 'x) Server =
  srv_handlers :: "(string \<times> ('r, 's, 'i, 'h) RegisteredHandler) list"
  srv_presence :: "LocalPresence option"
  srv_driver :: "LocalDriver option"
  srv_public_address :: "string option"
  extra_router :: "'x list"
  cors :: bool
  greet :: bool
  ws_read_buffer_size :: "nat option"
  ws_write_buffer_size :: "nat option"
  admin_panel_enabled :: bool
  admin_token :: "string option"
  admin_rpcs :: "string list"
  room_rpcs :: "(string \<times> 'h) list"
  srv_persistence :: "(PersistenceHandle \<times> FileSnapshotStore) option"

definition server_new :: "('r, 's, 'i, 'h, 'x) Server" where
  "server_new =
     \<lparr>srv_handlers = [], srv_presence = None, srv_driver = None, srv_public_address = None,
      extra_router = [], cors = True, greet = True, ws_read_buffer_size = None, ws_write_buffer_size = None,
      admin_panel_enabled = False, admin_token = None, admin_rpcs = [], room_rpcs = [], srv_persistence = None\<rparr>"

definition with_presence :: "LocalPresence \<Rightarrow> ('r, 's, 'i, 'h, 'x) Server \<Rightarrow> ('r, 's, 'i, 'h, 'x) Server" where
  "with_presence p s = s\<lparr>srv_presence := Some p\<rparr>"

definition with_driver :: "LocalDriver \<Rightarrow> ('r, 's, 'i, 'h, 'x) Server \<Rightarrow> ('r, 's, 'i, 'h, 'x) Server" where
  "with_driver d s = s\<lparr>srv_driver := Some d\<rparr>"

definition with_public_address :: "string \<Rightarrow> ('r, 's, 'i, 'h, 'x) Server \<Rightarrow> ('r, 's, 'i, 'h, 'x) Server" where
  "with_public_address a s = s\<lparr>srv_public_address := Some a\<rparr>"

definition disable_cors :: "('r, 's, 'i, 'h, 'x) Server \<Rightarrow> ('r, 's, 'i, 'h, 'x) Server" where
  "disable_cors s = s\<lparr>cors := False\<rparr>"

definition disable_greet :: "('r, 's, 'i, 'h, 'x) Server \<Rightarrow> ('r, 's, 'i, 'h, 'x) Server" where
  "disable_greet s = s\<lparr>greet := False\<rparr>"

definition with_admin_panel :: "string option \<Rightarrow> ('r, 's, 'i, 'h, 'x) Server \<Rightarrow> ('r, 's, 'i, 'h, 'x) Server" where
  "with_admin_panel token s = s\<lparr>admin_panel_enabled := True, admin_token := token\<rparr>"

definition with_admin_token :: "string option \<Rightarrow> ('r, 's, 'i, 'h, 'x) Server \<Rightarrow> ('r, 's, 'i, 'h, 'x) Server" where
  "with_admin_token token s = s\<lparr>admin_token := token\<rparr>"

definition add_admin_rpc :: "string \<Rightarrow> ('r, 's, 'i, 'h, 'x) Server \<Rightarrow> ('r, 's, 'i, 'h, 'x) Server" where
  "add_admin_rpc name s = s\<lparr>admin_rpcs := admin_rpcs s @ [name]\<rparr>"

definition add_room_rpc :: "string \<Rightarrow> 'h \<Rightarrow> ('r, 's, 'i, 'h, 'x) Server \<Rightarrow> ('r, 's, 'i, 'h, 'x) Server" where
  "add_room_rpc name h s = s\<lparr>room_rpcs := room_rpcs s @ [(name, h)]\<rparr>"

definition with_persistence ::
  "PersistenceHandle \<times> FileSnapshotStore \<Rightarrow> ('r, 's, 'i, 'h, 'x) Server \<Rightarrow> ('r, 's, 'i, 'h, 'x) Server" where
  "with_persistence p s = s\<lparr>srv_persistence := Some p\<rparr>"

definition ws_buffer_sizes :: "nat \<Rightarrow> nat \<Rightarrow> ('r, 's, 'i, 'h, 'x) Server \<Rightarrow> ('r, 's, 'i, 'h, 'x) Server" where
  "ws_buffer_sizes read write s = s\<lparr>ws_read_buffer_size := Some read, ws_write_buffer_size := Some write\<rparr>"

definition add_routes :: "'x list \<Rightarrow> ('r, 's, 'i, 'h, 'x) Server \<Rightarrow> ('r, 's, 'i, 'h, 'x) Server" where
  "add_routes router s = s\<lparr>extra_router := extra_router s @ router\<rparr>"

text \<open>\<open>knobs\<close> is the further configuration that the caller chains to the returned handler.\<close>

definition server_define ::
  "string \<Rightarrow> 'r \<times> ('r, 's, 'i, 'h) RoomHooks
     \<Rightarrow> (('r, 's, 'i, 'h) RegisteredHandler \<Rightarrow> ('r, 's, 'i, 'h) RegisteredHandler)
     \<Rightarrow> ('r, 's, 'i, 'h, 'x) Server \<Rightarrow> ('r, 's, 'i, 'h, 'x) Server" where
  "server_define name f knobs s =
     s\<lparr>srv_handlers := AList.update name (knobs (handler_new name f)) (srv_handlers s)\<rparr>"

definition server_remove_room_type :: "string \<Rightarrow> ('r, 's, 'i, 'h, 'x) Server \<Rightarrow> ('r, 's, 'i, 'h, 'x) Server" where
  "server_remove_room_type name s = s\<lparr>srv_handlers := AList.delete name (srv_handlers s)\<rparr>"

text \<open>The routes of the router, the admin ones as a whole.\<close>

datatype 'x Route = Matchmake | Rooms | RoomsByName | Ws | CorsLayer | Extra 'x
  | Admin "string option" bool "string list"

definition admin_routes :: "('r, 's, 'i, 'h, 'x) Server \<Rightarrow> 'x Route list" where
  "admin_routes s =
     (if admin_panel_enabled s \<or> admin_token s \<noteq> None \<or> admin_rpcs s \<noteq> [] \<or> room_rpcs s \<noteq> []
      then [Admin (admin_token s) (admin_panel_enabled s) (admin_rpcs s @ map fst (room_rpcs s))] else [])"

definition build ::
  "instant \<Rightarrow> millis \<Rightarrow> (nat \<Rightarrow> string) \<Rightarrow> (cref \<Rightarrow> client) \<Rightarrow> ('r, 's, 'i, 'h, 'x) Server
     \<Rightarrow> 'x Route list \<times> ('r, 's, 'i, 'h) MatchMaker" where
  "build t wl g st s =
     ([Matchmake, Rooms, RoomsByName, Ws] @ (if cors s then [CorsLayer] else [])
        @ map Extra (extra_router s) @ admin_routes s,
      fold (\<lambda>(_, h). register h) (srv_handlers s)
        (matchmaker_new (srv_presence s) (srv_driver s) (srv_public_address s) (srv_persistence s) t wl g st))"

text \<open>
  \<^verbatim>\<open>listen\<close> up to the first connection: the rooms of the snapshots are back before
  the bootstrap closure runs, and an error of that closure ends it.
\<close>

definition listen_start ::
  "('r, 's, 'i, 'h) Surroundings
     \<Rightarrow> (('r, 's, 'i, 'h) MatchMaker \<Rightarrow> (ServerError, unit) result \<times> ('r, 's, 'i, 'h) MatchMaker) option
     \<Rightarrow> instant \<Rightarrow> millis \<Rightarrow> (nat \<Rightarrow> string) \<Rightarrow> (cref \<Rightarrow> client) \<Rightarrow> ('r, 's, 'i, 'h, 'x) Server
     \<Rightarrow> (ServerError, 'x Route list) result \<times> ('r, 's, 'i, 'h) MatchMaker" where
  "listen_start env on_start t wl g st s =
     (let (app, w) = build t wl g st s;
          (restored, w1) = restore_all env w
      in case on_start of
          None \<Rightarrow> (Inr app, w1)
        | Some f \<Rightarrow> (case f w1 of (Inl e, w2) \<Rightarrow> (Inl e, w2) | (Inr _, w2) \<Rightarrow> (Inr app, w2)))"

section \<open>Responses\<close>

datatype Body = NoBody | ReservationBody SeatReservation | RoomsBody RoomQueryResult | ErrorBody nat string

record HttpResponse =
  http_status :: nat
  http_body :: Body

definition json_response :: "Body \<Rightarrow> HttpResponse" where
  "json_response b = \<lparr>http_status = 200, http_body = b\<rparr>"

text \<open>\<^verbatim>\<open>StatusCode::from_u16\<close> accepts the codes of three digits.\<close>

definition error_response :: "ServerError \<Rightarrow> HttpResponse" where
  "error_response e =
     \<lparr>http_status = (if 100 \<le> err_code e \<and> err_code e < 1000 then err_code e else 500),
      http_body = ErrorBody (err_code e) (err_message e)\<rparr>"

definition bad_request :: "string \<Rightarrow> HttpResponse" where
  "bad_request message = \<lparr>http_status = 400, http_body = ErrorBody 400 message\<rparr>"

section \<open>Headers\<close>

text \<open>
  Names in lower case, with the value if it is a string of visible characters
  (\<^verbatim>\<open>to_str\<close>).
\<close>

type_synonym header_map = "(string \<times> string option) list"

definition header :: "header_map \<Rightarrow> string \<Rightarrow> string option" where
  "header hs name = map_option (\<lambda>s. str_trim (hd (split_on (CHR '','') s))) (Option.bind (map_of hs name) id)"

definition bearer_token :: "header_map \<Rightarrow> string option" where
  "bearer_token hs = Option.bind (Option.bind (map_of hs ''authorization'') id) (strip_prefix ''Bearer '')"

definition auth_context :: "header_map \<Rightarrow> AuthContext" where
  "auth_context hs =
     \<lparr>auth_token = bearer_token hs,
      auth_headers = fold (\<lambda>(k, v) m. case v of Some s \<Rightarrow> AList.update k s m | None \<Rightarrow> m) hs [],
      auth_ip = (case header hs ''x-forwarded-for'' of Some ip \<Rightarrow> Some ip | None \<Rightarrow> header hs ''x-real-ip'')\<rparr>"

definition idempotency_key :: "string \<Rightarrow> string \<Rightarrow> header_map \<Rightarrow> string option" where
  "idempotency_key method name hs =
     (case header hs ''idempotency-key'' of
        Some k \<Rightarrow> if k \<noteq> [] then Some (method @ '':'' @ name @ '':'' @ k) else None
      | None \<Rightarrow> None)"

section \<open>Matchmaking requests\<close>

definition split_matchmake_body :: "json \<Rightarrow> json \<times> json option" where
  "split_matchmake_body body =
     (case body of
        JObj m \<Rightarrow>
          if map_of m ''options'' \<noteq> None \<or> map_of m ''filter'' \<noteq> None
          then ((case map_of m ''options'' of Some v \<Rightarrow> v | None \<Rightarrow> JNull), map_of m ''filter'')
          else (body, None)
      | _ \<Rightarrow> (body, None))"

text \<open>Internal room types can't be created through the public API.\<close>

definition creates_internal :: "string \<Rightarrow> string \<Rightarrow> ('r, 's, 'i, 'h) MatchMaker \<Rightarrow> bool" where
  "creates_internal method name w \<longleftrightarrow>
     method \<in> {''joinOrCreate'', ''create''}
     \<and> (case get_handler name w of Inr h \<Rightarrow> rh_internal h | Inl _ \<Rightarrow> False)"

text \<open>The filter applies to \<^verbatim>\<open>joinOrCreate\<close> and \<^verbatim>\<open>join\<close>; no filter is the empty one.\<close>

definition request_filter ::
  "string \<Rightarrow> string \<Rightarrow> json option \<Rightarrow> ('r, 's, 'i, 'h) MatchMaker
     \<Rightarrow> (ServerError, (string \<times> Condition) list) result" where
  "request_filter method name flt w =
     (case flt of
        Some f \<Rightarrow> if method \<in> {''joinOrCreate'', ''join''} then parse_match_filter name f w else Inr []
      | None \<Rightarrow> Inr [])"

definition token_required :: ServerError where
  "token_required =
     new_error MATCHMAKE_UNHANDLED
       (CHR 0x27 # ''reconnectionToken'' @ [CHR 0x27] @ '' must be provided for reconnection'')"

definition dispatch_method ::
  "('r, 's, 'i, 'h) Surroundings \<Rightarrow> string \<Rightarrow> string \<Rightarrow> json \<Rightarrow> (string \<times> Condition) list \<Rightarrow> AuthContext
     \<Rightarrow> ('r, 's, 'i, 'h) MatchMaker \<Rightarrow> (ServerError, SeatReservation) result \<times> ('r, 's, 'i, 'h) MatchMaker" where
  "dispatch_method env method name options flt auth w =
     (if method = ''joinOrCreate'' then join_or_create_with_filter env name options flt auth w
      else if method = ''create'' then mm_create env name options auth w
      else if method = ''join'' then join_with_filter env name options flt auth w
      else if method = ''joinById'' then join_by_id env name options auth w
      else if method = ''reconnect'' then
        (case Option.bind (json_get options ''reconnectionToken'') as_str of
           Some token \<Rightarrow>
             if token = [] then
               (Inl token_required, w)
             else mm_reconnect env name token w
         | None \<Rightarrow>
             (Inl token_required, w))
      else (Inl (new_error MATCHMAKE_NO_HANDLER
              (''invalid matchmaking method '' @ quote @ method @ quote)), w))"

definition matchmake_handler ::
  "('r, 's, 'i, 'h) Surroundings \<Rightarrow> string \<Rightarrow> string \<Rightarrow> header_map \<Rightarrow> json option
     \<Rightarrow> ('r, 's, 'i, 'h) MatchMaker \<Rightarrow> HttpResponse \<times> ('r, 's, 'i, 'h) MatchMaker" where
  "matchmake_handler env method name hs body w =
     (if mm_shutting_down w then (\<lparr>http_status = 503, http_body = NoBody\<rparr>, w)
      else
        let (options, flt0) = split_matchmake_body (case body of Some v \<Rightarrow> v | None \<Rightarrow> JNull);
            auth = auth_context hs;
            key = idempotency_key method name hs
        in if creates_internal method name w
           then (error_response (new_error MATCHMAKE_NO_HANDLER
                   (''room type '' @ quote @ name @ quote @ '' is internal'')), w)
           else
     (case request_filter method name flt0 w of
        Inl e \<Rightarrow> (error_response e, w)
      | Inr flt \<Rightarrow>
     (case (case key of Some k \<Rightarrow> idempotency_get k w | None \<Rightarrow> (None, w)) of
        (Some r, w1) \<Rightarrow> (json_response (ReservationBody r), w1)
      | (None, w1) \<Rightarrow>
          (case dispatch_method env method name options flt auth w1 of
             (Inr r, w2) \<Rightarrow>
               (json_response (ReservationBody r),
                case key of Some k \<Rightarrow> idempotency_put k r w2 | None \<Rightarrow> w2)
           | (Inl e, w2) \<Rightarrow> (error_response e, w2)))))"

section \<open>Listings\<close>

definition cap_limit :: "nat \<Rightarrow> RoomQuery \<Rightarrow> RoomQuery" where
  "cap_limit mx q = q\<lparr>q_limit := Some (min (case q_limit q of Some n \<Rightarrow> n | None \<Rightarrow> mx) mx)\<rparr>"

definition list_rooms_of ::
  "(rat \<Rightarrow> string) \<Rightarrow> string option \<Rightarrow> (string \<times> string) list \<Rightarrow> ('r, 's, 'i, 'h) MatchMaker \<Rightarrow> HttpResponse" where
  "list_rooms_of ff name params w =
     (case from_params params of
        Inr q \<Rightarrow>
          (case query_rooms ff name (cap_limit 200 q) w of
             Inr res \<Rightarrow> json_response (RoomsBody res)
           | Inl e \<Rightarrow> error_response e)
      | Inl message \<Rightarrow> bad_request message)"

definition list_rooms ::
  "(rat \<Rightarrow> string) \<Rightarrow> (string \<times> string) list \<Rightarrow> ('r, 's, 'i, 'h) MatchMaker \<Rightarrow> HttpResponse" where
  "list_rooms ff params w = list_rooms_of ff None params w"

definition list_rooms_by_name ::
  "(rat \<Rightarrow> string) \<Rightarrow> string \<Rightarrow> (string \<times> string) list \<Rightarrow> ('r, 's, 'i, 'h) MatchMaker \<Rightarrow> HttpResponse" where
  "list_rooms_by_name ff name params w = list_rooms_of ff (Some name) params w"

section \<open>Connections\<close>

text \<open>What the stream of a socket delivers, and what the writer task puts on it.\<close>

datatype WsFrame = WsBinary bytes | WsClose "nat option" | WsOther | WsFailed

datatype WsOut = OutBinary frame | OutClose nat string

text \<open>
  The writer task over the messages queued for it; \<open>up n\<close> tells whether the \<open>n\<close>-th send on
  the socket succeeds. The flag tells whether the task has ended. With the queue empty it
  waits: the connection's own handle keeps the channel open.
\<close>

fun writer_task :: "(nat \<Rightarrow> bool) \<Rightarrow> nat \<Rightarrow> Outbound list \<Rightarrow> WsOut list \<times> bool" where
  "writer_task up n [] = ([], False)"
| "writer_task up n (Bytes f # q) =
     (if up n then (case writer_task up (Suc n) q of (out, ended) \<Rightarrow> (OutBinary f # out, ended))
      else ([], True))"
| "writer_task up n (Close code reason # q) = (if up n then [OutClose code reason] else [], True)"

definition mm_on_client ::
  "cref \<Rightarrow> (client \<Rightarrow> client) \<Rightarrow> ('r, 's, 'i, 'h) MatchMaker \<Rightarrow> ('r, 's, 'i, 'h) MatchMaker" where
  "mm_on_client c f w = w\<lparr>mm_clients := (mm_clients w)(c := f (mm_clients w c))\<rparr>"

text \<open>\<^verbatim>\<open>room.tx.send\<close>: the mailbox of the room grows, if the room still runs.\<close>

definition post_to ::
  "string \<Rightarrow> 'h RoomEvent \<Rightarrow> ('r, 's, 'i, 'h) MatchMaker \<Rightarrow> ('r, 's, 'i, 'h) MatchMaker" where
  "post_to rid ev w = w\<lparr>mm_rooms := AList.map_entry rid (post_room ev) (mm_rooms w)\<rparr>"

text \<open>
  The reader loop, from the code to report if the stream ends. \<open>fv\<close> and \<open>ft\<close> are the two
  readings of MessagePack.
\<close>

fun read_loop ::
  "('r, 's, 'i, 'h) Surroundings \<Rightarrow> (bytes \<Rightarrow> json option) \<Rightarrow> (bytes \<Rightarrow> (8 word \<times> json \<times> bytes) option)
     \<Rightarrow> string \<Rightarrow> cref \<Rightarrow> WsFrame list \<Rightarrow> ('r, 's, 'i, 'h) MatchMaker \<Rightarrow> nat \<times> ('r, 's, 'i, 'h) MatchMaker" where
  "read_loop env fv ft rid c [] w = (ABNORMAL_CLOSURE, await env w)"
| "read_loop env fv ft rid c (f # fs) w =
     (let w1 = await env w
      in case f of
          WsBinary bs \<Rightarrow>
            (case decode_client_message fv ft bs of
               Some msg \<Rightarrow>
                 let w2 = post_to rid (Message c msg) w1
                 in if msg = Leave then (CONSENTED, w2) else read_loop env fv ft rid c fs w2
             | None \<Rightarrow>
                 read_loop env fv ft rid c fs
                   (mm_on_client c (client_error INVALID_PAYLOAD ''could not decode message'') w1))
        | WsClose code \<Rightarrow> ((case code of Some n \<Rightarrow> n | None \<Rightarrow> NORMAL_CLOSURE), w1)
        | WsOther \<Rightarrow> read_loop env fv ft rid c fs w1
        | WsFailed \<Rightarrow> (ABNORMAL_CLOSURE, w1))"

text \<open>
  Where the task of a connection ends: at once, waiting for its writer after the room
  rejected the client or did not answer within ten seconds, or after the stream.
\<close>

datatype SocketEnd = RoomGone | Rejected cref | JoinTimedOut cref | Served cref

text \<open>
  The handle of the room is its id: what is posted to a room that has ended is dropped. The
  new client gets the next address.
\<close>

definition handle_socket ::
  "('r, 's, 'i, 'h) Surroundings \<Rightarrow> (bytes \<Rightarrow> json option) \<Rightarrow> (bytes \<Rightarrow> (8 word \<times> json \<times> bytes) option)
     \<Rightarrow> string \<Rightarrow> string \<Rightarrow> string option \<Rightarrow> WsFrame list \<Rightarrow> ('r, 's, 'i, 'h) MatchMaker
     \<Rightarrow> SocketEnd \<times> ('r, 's, 'i, 'h) MatchMaker" where
  "handle_socket env fv ft rid sid token fs w =
     (let (conn, w1) = mm_generate_id w;
          c = mm_next_ref w1;
          w2 = w1\<lparr>mm_next_ref := Suc c, mm_clients := (mm_clients w1)(c := client_new (mm_now w1) conn sid)\<rparr>
      in if map_of (mm_rooms w2) rid = None then (RoomGone, w2)
         else
           let late = rpc_late env (mm_calls w2);
               (answer, w3) = ask rid (Connect c token) w2;
               w4 = await env w3
           in case (late, answer) of
               (False, Some (RUnit (Inr _))) \<Rightarrow>
                 (case read_loop env fv ft rid c fs w4 of
                    (code, w5) \<Rightarrow> (Served c, post_to rid (Disconnected c code) w5))
             | (False, Some (RUnit (Inl e))) \<Rightarrow> (Rejected c, w4)
             | _ \<Rightarrow>
                 (JoinTimedOut c,
                  mm_on_client c (\<lambda>cl. client_leave (Some WITH_ERROR) (Some ''join timed out'')
                    (client_error MATCHMAKE_UNHANDLED ''join timed out'' cl)) w4))"

text \<open>Whether the task returns: after a served stream the writer gets two more seconds.\<close>

fun socket_returns :: "(nat \<Rightarrow> bool) \<Rightarrow> SocketEnd \<Rightarrow> ('r, 's, 'i, 'h) MatchMaker \<Rightarrow> bool" where
  "socket_returns up RoomGone w = True"
| "socket_returns up (Rejected c) w = snd (writer_task up 0 (tx (mm_clients w c)))"
| "socket_returns up (JoinTimedOut c) w = snd (writer_task up 0 (tx (mm_clients w c)))"
| "socket_returns up (Served c) w = True"

text \<open>\<open>None\<close>: the connection is upgraded and \<open>handle_socket\<close> runs.\<close>

definition ws_handler :: "string \<Rightarrow> ('r, 's, 'i, 'h) MatchMaker \<Rightarrow> HttpResponse option" where
  "ws_handler rid w =
     (if map_of (mm_rooms w) rid = None then Some (error_response (room_not_found rid)) else None)"

section \<open>Bounded listings\<close>

lemma query_rooms_answer:
  assumes "query_rooms ff name q w = Inr res"
  shows "\<exists>q'. res = driver_query_rooms ff q' (mm_driver w) \<and> q_limit q' = q_limit q \<and> q_count q' = q_count q"
  using assms
  by (cases name) (auto simp: query_rooms_def Let_def split: sum.splits option.splits)

text \<open>
  One public listing request never returns more than 200 rooms, whatever limit the
  client asks for, nor more than it asks for; what it leaves out is reported as a next
  offset.
\<close>

theorem public_listing_bounded:
  assumes "http_body (list_rooms_of ff name params w) = RoomsBody res" and "from_params params = Inr q"
  shows "length (items res) \<le> 200
    \<and> (case q_limit q of Some n \<Rightarrow> length (items res) \<le> n | None \<Rightarrow> True)
    \<and> (q_count q \<or> r_offset res + length (items res) = total res \<or> next_offset res = Some (r_offset res + length (items res)))"
proof -
  obtain q' where res: "res = driver_query_rooms ff q' (mm_driver w)"
    and q': "q_limit q' = q_limit (cap_limit 200 q)" "q_count q' = q_count q"
    using assms query_rooms_answer [of ff name "cap_limit 200 q" w res]
    by (auto simp: list_rooms_of_def json_response_def error_response_def bad_request_def split: sum.splits)
       (auto simp: cap_limit_def)
  define lim where "lim = (case q_limit q of Some n \<Rightarrow> min n 200 | None \<Rightarrow> 200)"
  have lim: "q_limit q' = Some lim" "lim \<le> 200" "q_limit q = Some n \<Longrightarrow> lim \<le> n" for n
    using q' by (auto simp: lim_def cap_limit_def split: option.splits)
  show ?thesis
  proof (cases "q_count q")
    case True
    then show ?thesis by (simp add: res driver_query_rooms_def Let_def q'(2) split: option.split)
  next
    case False
    have "length (items res) \<le> lim"
      by (simp add: res driver_query_rooms_def Let_def lim(1))
    moreover have "next_offset res = (if r_offset res + length (items res) < total res
        then Some (r_offset res + length (items res)) else None)" "r_offset res + length (items res) \<le> total res"
      using False by (simp_all add: res driver_query_rooms_def Let_def q'(2)) 
    ultimately show ?thesis using lim(2,3) by (auto split: option.split)
  qed
qed

theorem public_listing_bounded_witness:
  "\<exists>res. http_body (list_rooms (\<lambda>_. []) [] sample_mm) = RoomsBody res \<and> length (items res) \<le> 200"
proof -
  have q: "from_params [] = Inr default_query" by (simp add: from_params_def)
  moreover obtain res where r: "http_body (list_rooms_of (\<lambda>_. []) None [] sample_mm) = RoomsBody res"
    by (simp add: list_rooms_of_def q query_rooms_def json_response_def cap_limit_def default_query_def)
  ultimately show ?thesis
    using public_listing_bounded [OF r q] by (auto simp: list_rooms_def)
qed

section \<open>Retries\<close>

text \<open>A request whose key is in the cache takes no seat.\<close>

lemma cached_answer:
  assumes "idempotency_key method name hs = Some k" and "idempotency_get k w = (Some r, w)"
    and "\<not> mm_shutting_down w" and "\<not> creates_internal method name w"
    and "request_filter method name (snd (split_matchmake_body (case body of Some v \<Rightarrow> v | None \<Rightarrow> JNull))) w = Inr flt"
  shows "matchmake_handler env method name hs body w = (json_response (ReservationBody r), w)"
  using assms by (simp add: matchmake_handler_def split_def Let_def)

lemma handlers_only:
  assumes "mm_handlers w = mm_handlers w'"
  shows "creates_internal method name w = creates_internal method name w'"
    and "request_filter method name f w = request_filter method name f w'"
proof -
  have g: "get_handler n w = get_handler n w'" for n using assms by (simp add: get_handler_def)
  have "check_fields n fs what w = check_fields n fs what w'" for n fs what
    by (induction fs) (simp_all add: allowed_field_def g)
  then show "creates_internal method name w = creates_internal method name w'"
    "request_filter method name f w = request_filter method name f w'"
    by (simp_all add: creates_internal_def request_filter_def parse_match_filter_def g split: option.split sum.split)
qed

text \<open>What the first, successful request leaves behind.\<close>

lemma granted_cached:
  assumes "matchmake_handler env method name hs body w = (resp, w1)" and "http_body resp = ReservationBody r"
    and "idempotency_key method name hs = Some k" and "fst (idempotency_get k w) = None"
  shows "map_of (mm_idempotency w1) k = Some (mm_now w1, r)" and "\<not> creates_internal method name w"
    and "\<exists>flt. request_filter method name (snd (split_matchmake_body (case body of Some v \<Rightarrow> v | None \<Rightarrow> JNull))) w = Inr flt"
  using assms
  by (auto simp: matchmake_handler_def split_def Let_def json_response_def error_response_def update_conv'
      idempotency_put_def split: if_splits sum.splits option.splits prod.splits)

lemma cached_later:
  assumes "map_of (mm_idempotency w1) k = Some (mm_now w1, r)" and "distinct (map fst (mm_idempotency w1))"
    and "length (rivals (mm_now w1) k (mm_idempotency w1)) + length ps < IDEMPOTENCY_CAP"
    and "\<forall>(t, k', r') \<in> set ps. mm_now w1 \<le> t \<and> t \<le> mm_now w1 + IDEMPOTENCY_TTL \<and> k' \<noteq> k"
    and "mm_idempotency w2 = mm_idempotency (puts ps w1)" and "mm_now w2 \<le> mm_now w1 + IDEMPOTENCY_TTL"
  shows "idempotency_get k w2 = (Some r, w2)"
proof -
  have "map_of (mm_idempotency w2) k = Some (mm_now w1, r)"
    using puts_keep [OF assms(2,1,4,3)] assms(5) by simp
  then show ?thesis using assms(6) by (simp add: idempotency_get_def)
qed

text \<open>
  C11. A retry takes no second seat. After a matchmaking request with an idempotency key was
  granted, the same request within 30 seconds is answered with the same reservation and
  changes nothing, whatever the rooms, the driver and the environment have become, if fewer
  than 1024 other reservations were stored since and the registry is the same.
\<close>

theorem retry_replayed:
  assumes "matchmake_handler env method name hs body w = (resp, w1)" and "http_body resp = ReservationBody r"
    and "idempotency_key method name hs = Some k" and "fst (idempotency_get k w) = None"
    and "distinct (map fst (mm_idempotency w1))"
    and "length (rivals (mm_now w1) k (mm_idempotency w1)) + length ps < IDEMPOTENCY_CAP"
    and "\<forall>(t, k', r') \<in> set ps. mm_now w1 \<le> t \<and> t \<le> mm_now w1 + IDEMPOTENCY_TTL \<and> k' \<noteq> k"
    and "mm_idempotency w2 = mm_idempotency (puts ps w1)" and "mm_now w2 \<le> mm_now w1 + IDEMPOTENCY_TTL"
    and "\<not> mm_shutting_down w2" and "mm_handlers w2 = mm_handlers w"
  shows "matchmake_handler env' method name hs body w2 = (json_response (ReservationBody r), w2)"
proof -
  note g = granted_cached [OF assms(1-4)]
  obtain flt where "request_filter method name (snd (split_matchmake_body (case body of Some v \<Rightarrow> v | None \<Rightarrow> JNull))) w2 = Inr flt"
    using g(3) handlers_only(2) [OF assms(11)] by metis
  then show ?thesis
    using cached_answer [OF assms(3) cached_later [OF g(1) assms(5-9)] assms(10)] g(2) handlers_only(1) [OF assms(11)]
    by blast
qed

text \<open>A granted request with a key, and the state after it.\<close>

abbreviation sample_headers :: header_map where
  "sample_headers \<equiv> [(''idempotency-key'', Some ''a,1'')]"

lemma key_part: "str_trim ''a'' = ''a''"
  by code_simp

text \<open>Between awaits a seat request leaves the clock, the cache and the registry alone.\<close>

definition same_setup :: "('r, 's, 'i, 'h) MatchMaker \<Rightarrow> ('r, 's, 'i, 'h) MatchMaker \<Rightarrow> bool" where
  "same_setup w w' \<longleftrightarrow> mm_now w' = mm_now w \<and> mm_idempotency w' = mm_idempotency w
     \<and> mm_shutting_down w' = mm_shutting_down w \<and> mm_handlers w' = mm_handlers w"

lemma same_setup_refl [simp]: "same_setup w w"
  by (simp add: same_setup_def)

lemma ask_setup: "same_setup w (snd (ask rid ev w))"
  by (simp add: ask_def same_setup_def reclaim_def Let_def split: option.split prod.split)

lemma reserve_seat_setup:
  assumes "meanwhile env = (\<lambda>_ w. w)"
  shows "same_setup w (snd (reserve_seat env l options auth w))"
proof -
  have "same_setup w (snd (ask rid ev (w\<lparr>mm_gen_next := n\<rparr>)))" for rid ev n
    using ask_setup [of "w\<lparr>mm_gen_next := n\<rparr>" rid ev] by (simp add: same_setup_def)
  then show ?thesis
    by (auto simp: reserve_seat_def mm_generate_id_def await_def assms Let_def same_setup_def
        split: prod.split option.split Response.split sum.split)
       (metis snd_conv)+
qed

lemma seat_loop_setup:
  assumes "meanwhile env = (\<lambda>_ w. w)" and "\<And>w. same_setup w (snd (look w))"
  shows "same_setup w (snd (seat_loop env look options auth n e w))"
proof (induction n arbitrary: e w)
  case (Suc n)
  obtain x w1 where l: "look w = (x, w1)" by (cases "look w")
  then have 1: "same_setup w w1" using assms(2) [of w] by simp
  show ?case
  proof (cases x)
    case (Inr lst)
    obtain y w2 where r: "reserve_seat env lst options auth w1 = (y, w2)" by (cases "reserve_seat env lst options auth w1")
    then have 2: "same_setup w1 w2" using reserve_seat_setup [OF assms(1), of w1 lst options auth] by simp
    have "same_setup w1 (snd (seat_loop env look options auth n e' w2))" for e'
      using Suc.IH [where w = w2 and e = e'] 2 by (simp add: same_setup_def)
    then show ?thesis using 1 2 by (cases y) (simp_all add: l Inr r same_setup_def)
  qed (simp add: l 1)
qed simp

lemma hosting_granted:
  "\<exists>r w'. matchmake_handler sample_env ''joinById'' ''r'' sample_headers None hosting
      = (json_response (ReservationBody r), idempotency_put ''joinById:r:a'' r w')
    \<and> mm_idempotency w' = [] \<and> \<not> mm_shutting_down w' \<and> mm_handlers w' = mm_handlers hosting"
proof -
  obtain r w' where j: "join_by_id sample_env ''r'' JNull (auth_context sample_headers) hosting = (Inr r, w')"
    using hosting_join by blast
  have f: "mm_idempotency hosting = []" "\<not> mm_shutting_down hosting"
    by (simp_all add: hosting_def sample_mm_def matchmaker_new_def)
  have "same_setup w (snd (by_id_find rid w))" for rid and w :: "(unit, json, unit, nat) MatchMaker"
    by (simp add: by_id_find_def split: option.split)
  then have "same_setup hosting (snd (join_by_id sample_env ''r'' JNull (auth_context sample_headers) hosting))"
    unfolding join_by_id_def by (intro seat_loop_setup) (simp_all add: sample_env_def)
  then have "same_setup hosting w'" using j by simp
  then have "mm_idempotency w' = [] \<and> \<not> mm_shutting_down w' \<and> mm_handlers w' = mm_handlers hosting"
    using f by (simp add: same_setup_def)
  moreover have "matchmake_handler sample_env ''joinById'' ''r'' sample_headers None hosting
      = (json_response (ReservationBody r), idempotency_put ''joinById:r:a'' r w')"
    using j f
    by (simp add: matchmake_handler_def split_matchmake_body_def creates_internal_def request_filter_def
        idempotency_key_def header_def key_part idempotency_get_def dispatch_method_def)
  ultimately show ?thesis by blast
qed

theorem retry_replayed_witness:
  "\<exists>r w1. matchmake_handler sample_env ''joinById'' ''r'' sample_headers None hosting = (json_response (ReservationBody r), w1)
    \<and> matchmake_handler sample_env ''joinById'' ''r'' sample_headers None w1 = (json_response (ReservationBody r), w1)"
proof -
  obtain r w' where g: "matchmake_handler sample_env ''joinById'' ''r'' sample_headers None hosting
      = (json_response (ReservationBody r), idempotency_put ''joinById:r:a'' r w')"
    "mm_idempotency w' = []" "\<not> mm_shutting_down w'" "mm_handlers w' = mm_handlers hosting"
    using hosting_granted by blast
  let ?w1 = "idempotency_put ''joinById:r:a'' r w'"
  have f: "mm_idempotency ?w1 = [(''joinById:r:a'', mm_now w', r)]" "mm_now ?w1 = mm_now w'"
    "mm_shutting_down ?w1 = mm_shutting_down w'" "mm_handlers ?w1 = mm_handlers w'"
    by (simp_all add: idempotency_put_def g(2) make_space.simps IDEMPOTENCY_CAP_def)
  have h: "fst (idempotency_get k hosting) = None" for k
    by (simp add: idempotency_get_def) (simp add: hosting_def sample_mm_def matchmaker_new_def)
  have k: "idempotency_key ''joinById'' ''r'' sample_headers = Some ''joinById:r:a''"
    by (simp add: idempotency_key_def header_def key_part)
  have "matchmake_handler sample_env ''joinById'' ''r'' sample_headers None ?w1 = (json_response (ReservationBody r), ?w1)"
    by (rule retry_replayed [OF g(1) _ k h, where ps = "[]"])
      (simp_all add: f g json_response_def rivals_def IDEMPOTENCY_CAP_def)
  then show ?thesis using g(1) by blast
qed

text \<open>
  The key is cut at its first comma (the rule for \<^verbatim>\<open>X-Forwarded-For\<close> is applied to
  every header): two requests with different keys that agree up to a comma are taken for
  one, and the second client is handed the reservation of the first, session id included.
\<close>

theorem keys_collide_at_comma:
  assumes "map_of hs1 ''idempotency-key'' = Some (Some (a @ '','' @ b1))"
    and "map_of hs2 ''idempotency-key'' = Some (Some (a @ '','' @ b2))"
    and "CHR '','' \<notin> set a" and "str_trim a \<noteq> []"
    and "matchmake_handler env method name hs1 body w = (resp, w1)" and "http_body resp = ReservationBody r"
    and "mm_idempotency w = []" and "\<not> mm_shutting_down w1" and "mm_handlers w1 = mm_handlers w"
  shows "matchmake_handler env' method name hs2 body w1 = (json_response (ReservationBody r), w1)"
proof -
  let ?k = "method @ '':'' @ name @ '':'' @ str_trim a"
  have k: "idempotency_key method name hs1 = Some ?k" "idempotency_key method name hs2 = Some ?k"
    using assms(1-4) split_on_append [OF assms(3)] by (simp_all add: idempotency_key_def header_def)
  have "fst (idempotency_get ?k w) = None" using assms(7) by (simp add: idempotency_get_def)
  note g = granted_cached [OF assms(5,6) k(1) this]
  obtain flt where "request_filter method name (snd (split_matchmake_body (case body of Some v \<Rightarrow> v | None \<Rightarrow> JNull))) w1 = Inr flt"
    using g(3) handlers_only(2) [OF assms(9)] by metis
  moreover have "idempotency_get ?k w1 = (Some r, w1)" using g(1) by (simp add: idempotency_get_def)
  ultimately show ?thesis
    using cached_answer [OF k(2) _ assms(8)] g(2) handlers_only(1) [OF assms(9)] by blast
qed

theorem keys_collide_at_comma_witness:
  "\<exists>r w1. matchmake_handler sample_env ''joinById'' ''r'' sample_headers None hosting = (json_response (ReservationBody r), w1)
    \<and> matchmake_handler sample_env ''joinById'' ''r'' [(''idempotency-key'', Some ''a,2'')] None w1
        = (json_response (ReservationBody r), w1)"
proof -
  obtain r w' where g: "matchmake_handler sample_env ''joinById'' ''r'' sample_headers None hosting
      = (json_response (ReservationBody r), idempotency_put ''joinById:r:a'' r w')"
    "\<not> mm_shutting_down w'" "mm_handlers w' = mm_handlers hosting"
    using hosting_granted by blast
  let ?w1 = "idempotency_put ''joinById:r:a'' r w'"
  have h: "map_of sample_headers ''idempotency-key'' = Some (Some (''a'' @ '','' @ ''1''))"
    "map_of [(''idempotency-key'', Some ''a,2'')] ''idempotency-key'' = Some (Some (''a'' @ '','' @ ''2''))"
    "CHR '','' \<notin> set ''a''" "str_trim ''a'' \<noteq> []"
    by (simp_all add: key_part)
  have "mm_idempotency hosting = []" by (simp add: hosting_def sample_mm_def matchmaker_new_def)
  then have "matchmake_handler sample_env ''joinById'' ''r'' [(''idempotency-key'', Some ''a,2'')] None ?w1
      = (json_response (ReservationBody r), ?w1)"
    by (intro keys_collide_at_comma [OF h g(1)]) (simp_all add: json_response_def idempotency_put_def g)
  then show ?thesis using g(1) by blast
qed

section \<open>Frames of a connection\<close>

text \<open>The messages a stream carries and the code it closes with.\<close>

fun stream_spec :: "(bytes \<Rightarrow> ClientMessage option) \<Rightarrow> WsFrame list \<Rightarrow> ClientMessage list \<times> nat" where
  "stream_spec dec [] = ([], ABNORMAL_CLOSURE)"
| "stream_spec dec (WsBinary bs # fs) =
     (case dec bs of
        None \<Rightarrow> stream_spec dec fs
      | Some m \<Rightarrow> if m = Leave then ([Leave], CONSENTED)
                  else (case stream_spec dec fs of (ms, code) \<Rightarrow> (m # ms, code)))"
| "stream_spec dec (WsClose code # fs) = ([], (case code of Some n \<Rightarrow> n | None \<Rightarrow> NORMAL_CLOSURE))"
| "stream_spec dec (WsOther # fs) = stream_spec dec fs"
| "stream_spec dec (WsFailed # fs) = ([], ABNORMAL_CLOSURE)"

text \<open>The mailbox of a room.\<close>

definition mailbox :: "string \<Rightarrow> ('r, 's, 'i, 'h) MatchMaker \<Rightarrow> 'h RoomEvent list option" where
  "mailbox rid w = Option.bind (map_of (mm_rooms w) rid) (\<lambda>(H, a). sender (actor_ctx a))"

lemma mailbox_post_to [simp]:
  "mailbox rid (post_to r ev w) = map_option (\<lambda>q. if rid = r then q @ [ev] else q) (mailbox rid w)"
  by (cases "map_of (mm_rooms w) rid")
     (auto simp: mailbox_def post_to_def map_of_map_entry post_room_def option.map_ident split: prod.split)

lemma mailbox_others [simp]: "mailbox rid (mm_on_client c f w) = mailbox rid w" "mailbox rid (w\<lparr>mm_calls := n\<rparr>) = mailbox rid w"
  by (simp_all add: mailbox_def mm_on_client_def)

lemma read_loop_mailbox:
  assumes "meanwhile env = (\<lambda>_ w. w)"
  shows "fst (read_loop env fv ft rid c fs w) = snd (stream_spec (decode_client_message fv ft) fs)
    \<and> mailbox rid (snd (read_loop env fv ft rid c fs w))
        = map_option (\<lambda>q. q @ map (Message c) (fst (stream_spec (decode_client_message fv ft) fs))) (mailbox rid w)
    \<and> (r \<noteq> rid \<longrightarrow> mailbox r (snd (read_loop env fv ft rid c fs w)) = mailbox r w)"
proof (induction fs arbitrary: w)
  case Nil
  show ?case by (simp add: await_def assms option.map_ident)
next
  case (Cons f fs)
  then show ?case
    by (cases f)
      (auto simp: await_def assms Let_def option.map_comp comp_def option.map_ident
        split: option.split prod.split if_splits intro!: option.map_cong)
qed

lemma leave_is_last: "fst (stream_spec dec fs) = ms1 @ Leave # ms2 \<Longrightarrow> ms2 = [] \<and> snd (stream_spec dec fs) = CONSENTED"
proof (induction fs arbitrary: ms1)
  case (Cons f fs)
  then show ?case
    by (cases f) (auto split: option.splits prod.splits if_splits simp: Cons_eq_append_conv)
qed simp

text \<open>
  C14. A served connection hands its room exactly what the client sent. While the other tasks
  rest, the messages that decode arrive in the mailbox once each and in order, nothing after
  an explicit leave, then exactly one disconnection with the code of the stream (the
  consented one after a leave, the client's own after a close frame, the abnormal one if the
  stream fails or ends); no other room receives anything.
\<close>

theorem connection_delivers:
  assumes "meanwhile env = (\<lambda>_ w. w)"
    and "read_loop env fv ft rid c fs w = (code, w')" and "stream_spec (decode_client_message fv ft) fs = (msgs, code')"
  shows "code = code'
    \<and> mailbox rid (post_to rid (Disconnected c code) w')
        = map_option (\<lambda>q. q @ map (Message c) msgs @ [Disconnected c code]) (mailbox rid w)
    \<and> (\<forall>r. r \<noteq> rid \<longrightarrow> mailbox r (post_to rid (Disconnected c code) w') = mailbox r w)
    \<and> (\<forall>ms1 ms2. msgs = ms1 @ Leave # ms2 \<longrightarrow> ms2 = [] \<and> code = CONSENTED)"
proof -
  have m: "code = code'" "mailbox rid w' = map_option (\<lambda>q. q @ map (Message c) msgs) (mailbox rid w)"
    "r \<noteq> rid \<Longrightarrow> mailbox r w' = mailbox r w" for r
    using read_loop_mailbox [OF assms(1), of fv ft rid c fs w r] unfolding assms(2,3) by simp_all
  show ?thesis
    using leave_is_last [of "decode_client_message fv ft" fs] assms(3) m
    by (auto simp: option.map_comp comp_def option.map_ident)
qed

theorem connection_delivers_witness:
  "\<exists>code w'. read_loop sample_env (\<lambda>_. None) (\<lambda>_. None) ''r'' 7 [WsBinary [18], WsOther, WsClose (Some 1001)] hosting = (code, w')
    \<and> mailbox ''r'' (post_to ''r'' (Disconnected 7 code) w') = Some [Message 7 Ping, Disconnected 7 1001]"
proof -
  obtain code w' where l: "read_loop sample_env (\<lambda>_. None) (\<lambda>_. None) ''r'' 7 [WsBinary [18], WsOther, WsClose (Some 1001)] hosting
      = (code, w')" by (metis surj_pair)
  have "decode_client_message (\<lambda>_. None) (\<lambda>_. None) [18] = Some Ping"
    by (simp add: decode_client_message_def PING_def)
  then have s: "stream_spec (decode_client_message (\<lambda>_. None) (\<lambda>_. None)) [WsBinary [18], WsOther, WsClose (Some 1001)] = ([Ping], 1001)"
    by simp
  have "mailbox ''r'' hosting = Some []"
    by (simp add: mailbox_def hosting_def sample_actor_def finish_spawn_def set_sender_def)
  moreover have "meanwhile sample_env = (\<lambda>_ w. w)" by (simp add: sample_env_def)
  ultimately show ?thesis using connection_delivers [OF _ l s] l by simp
qed

section \<open>Rejected connections\<close>

text \<open>
  The room turns a connection away before its \<^verbatim>\<open>on_join\<close> runs: no seat, a seat that
  is already consumed, or a reconnection token that is not its own.
\<close>

definition turns_away :: "('s, 'i, 'h) RoomContext \<Rightarrow> string \<Rightarrow> string option \<Rightarrow> bool" where
  "turns_away ctx sid token \<longleftrightarrow>
     (case token of
        None \<Rightarrow> (case map_of (reserved_seats ctx) sid of None \<Rightarrow> True | Some s \<Rightarrow> consumed s)
      | Some t \<Rightarrow> (case map_of (reconnections ctx) t of None \<Rightarrow> True | Some e \<Rightarrow> re_session_id e \<noteq> sid))"

lemma turns_away_frame:
  "reserved_seats ctx' = reserved_seats ctx \<Longrightarrow> reconnections ctx' = reconnections ctx \<Longrightarrow> turns_away ctx' = turns_away ctx"
  by (intro ext) (simp add: turns_away_def split: option.split)

lemma connect_turned_away:
  assumes "turns_away (snd rm) (session_id (store (snd rm) c)) token"
  shows "\<exists>e. on_connect H c token rm = (Inl e, on_ctx (on_client c (\<lambda>cl. attach_tap (attach_after_patch cl))) rm)"
  using assms
  by (auto simp: on_connect_def turns_away_def join_def reconnect_def on_ctx_def on_client_def Let_def
      attach_tap_def attach_after_patch_def split: option.splits)

lemma turned_away_turn:
  assumes "sender (actor_ctx b) = Some [Connect c token]"
    and "turns_away (actor_ctx b) (session_id (store (actor_ctx b) c)) token"
    and "request_dispose (actor_ctx b) = None"
    and "auto_dispose (actor_ctx b)
      \<longrightarrow> (\<exists>c' \<in> set (clients (actor_ctx b)). c' \<noteq> c \<and> client_state (store (actor_ctx b) c') \<noteq> Closed)"
  shows "\<exists>e a'. run_turn H b = Some (Continue, RUnit (Inl e), a')
    \<and> tx (store (actor_ctx a') c) = tx (store (actor_ctx b) c)"
proof -
  define b1 where "b1 = (sync_intervals b)\<lparr>actor_ctx := (actor_ctx b)\<lparr>sender := Some []\<rparr>\<rparr>"
  define rm where "rm = (actor_room b1, actor_ctx b1)"
  have "turns_away (snd rm) (session_id (store (snd rm) c)) token"
    using assms(2) turns_away_frame [of "actor_ctx b1" "actor_ctx b"] by (simp add: rm_def b1_def)
  then obtain e where e: "on_connect H c token rm = (Inl e, on_ctx (on_client c (\<lambda>cl. attach_tap (attach_after_patch cl))) rm)"
    using connect_turned_away by blast
  define a1 where "a1 = b1\<lparr>actor_ctx := on_client c (\<lambda>cl. attach_tap (attach_after_patch cl)) (actor_ctx b1)\<rparr>"
  have h: "handle_event H (Connect c token) b1 = ((Continue, RUnit (Inl e)), a1)"
    using e by (simp add: handle_event_def run_room_def rm_def [symmetric]) (simp add: rm_def a1_def on_ctx_def)
  have "after_branch H a1 = (Continue, a1)"
    using assms(3,4)
    by (auto simp: after_branch_def should_auto_dispose_def a1_def b1_def on_client_def list_ex_iff Let_def)
  then have "run_turn H b = Some (Continue, RUnit (Inl e), a1)"
    using assms(1) h by (simp add: run_turn_def Let_def b1_def [symmetric])
  then show ?thesis
    by (auto simp: a1_def b1_def on_client_def attach_tap_def attach_after_patch_def)
qed

text \<open>A process with one room of the default hooks that stays open.\<close>

definition hosting_open :: "(unit, json, unit, nat) MatchMaker" where
  "hosting_open = hosting\<lparr>mm_rooms := [(''r'', default_hooks,
     sample_actor\<lparr>actor_ctx := (actor_ctx sample_actor)\<lparr>auto_dispose := False\<rparr>\<rparr>)]\<rparr>"

text \<open>
  C32. A connection that the room turns away is never closed. The answer is an error, but
  neither an error frame nor a close is queued for the client: the task of the connection
  waits for a writer that waits for a message, and does not return, however the socket
  behaves and whatever the client does (its stream is not read). The room is idle, stays
  open, and answers in time; nobody else has the handle of the new client.
\<close>

theorem rejected_connection_hangs:
  assumes "map_of (mm_rooms w) rid = Some (H, a)" and "sender (actor_ctx a) = Some []"
    and "turns_away (actor_ctx a) sid token" and "request_dispose (actor_ctx a) = None"
    and "auto_dispose (actor_ctx a)
      \<longrightarrow> (\<exists>c' \<in> set (clients (actor_ctx a)). c' < mm_next_ref w \<and> client_state (mm_clients w c') \<noteq> Closed)"
    and "\<not> rpc_late env (mm_calls w)"
    and "\<forall>n v. mm_clients (meanwhile env n v) (mm_next_ref w) = mm_clients v (mm_next_ref w)"
  shows "\<exists>w'. handle_socket env fv ft rid sid token fs w = (Rejected (mm_next_ref w), w')
    \<and> (\<forall>up. writer_task up 0 (tx (mm_clients w' (mm_next_ref w))) = ([], False))
    \<and> (\<forall>up. \<not> socket_returns up (Rejected (mm_next_ref w)) w')"
proof -
  define c where "c = mm_next_ref w"
  define w2 where "w2 = w\<lparr>mm_gen_next := Suc (mm_gen_next w), mm_next_ref := Suc c,
      mm_clients := (mm_clients w)(c := client_new (mm_now w) (mm_gen w (mm_gen_next w)) sid)\<rparr>"
  define b where "b = a\<lparr>actor_ctx := (lend w2 (actor_ctx a))\<lparr>sender := Some [Connect c token]\<rparr>\<rparr>"
  have s: "store (actor_ctx b) = mm_clients w2" "session_id (mm_clients w2 c) = sid" "tx (mm_clients w2 c) = []"
    by (simp_all add: b_def lend_def w2_def client_new_def)
  have l: "turns_away (actor_ctx b) sid token" "request_dispose (actor_ctx b) = None"
      "auto_dispose (actor_ctx b) = auto_dispose (actor_ctx a)" "clients (actor_ctx b) = clients (actor_ctx a)"
    using assms(3,4) turns_away_frame [of "actor_ctx b" "actor_ctx a"]
    by (simp_all add: b_def) (simp_all add: lend_def)
  have "auto_dispose (actor_ctx b)
      \<longrightarrow> (\<exists>c' \<in> set (clients (actor_ctx b)). c' \<noteq> c \<and> client_state (store (actor_ctx b) c') \<noteq> Closed)"
    using assms(5) unfolding s l(3,4) by (force simp: w2_def c_def)
  then obtain e a' where t: "run_turn H b = Some (Continue, RUnit (Inl e), a')"
      "tx (store (actor_ctx a') c) = []"
    using turned_away_turn [of b c token H] l s by (auto simp: b_def)
  then obtain w3 where w3: "ask rid (Connect c token) w2 = (Some (RUnit (Inl e)), w3)" "mm_clients w3 = store (actor_ctx a')"
    using assms(1,2) by (simp add: ask_def Let_def b_def) (simp add: w2_def reclaim_def)
  have "tx (mm_clients (await env w3) c) = []"
    using assms(7) t(2) w3(2) by (simp add: await_def c_def)
  moreover have "handle_socket env fv ft rid sid token fs w = (Rejected c, await env w3)"
    using assms(1,6) w3(1)
    by (simp add: handle_socket_def mm_generate_id_def Let_def c_def [symmetric] w2_def [symmetric])
      (simp add: w2_def c_def)
  ultimately show ?thesis by (simp add: c_def)
qed

theorem rejected_connection_hangs_witness:
  "\<exists>w'. handle_socket sample_env (\<lambda>_. None) (\<lambda>_. None) ''r'' ''x'' None [] hosting_open = (Rejected (mm_next_ref hosting_open), w')
    \<and> (\<forall>up. writer_task up 0 (tx (mm_clients w' (mm_next_ref hosting_open))) = ([], False))
    \<and> (\<forall>up. \<not> socket_returns up (Rejected (mm_next_ref hosting_open)) w')"
proof -
  let ?a = "sample_actor\<lparr>actor_ctx := (actor_ctx sample_actor)\<lparr>auto_dispose := False\<rparr>\<rparr>"
  have f: "sender (actor_ctx ?a) = Some []" "request_dispose (actor_ctx ?a) = None" "reserved_seats (actor_ctx ?a) = []"
    by (simp_all add: sample_actor_def finish_spawn_def set_sender_def sample_ctx_def room_context_new_def)
  show ?thesis
    by (rule rejected_connection_hangs [where a = ?a and H = default_hooks])
      (use f in \<open>simp_all add: turns_away_def sample_env_def hosting_open_def\<close>)
qed

end
