(* ===== verification/Admin_Rpc.thy ===== *)
theory Admin_Rpc
  imports Server
begin

text \<open>
  Admin RPCs, \<^verbatim>\<open>crates/colyseus/src/admin_rpc.rs\<close>: what a trusted backend may do
  with the process (\<^verbatim>\<open>AdminContext\<close>), and the handlers that are registered for it.
  The context is the matchmaker itself. A handler that waits for a room lets the others run,
  as every request does; deserializing the parameters and serializing the answer are
  arguments. A room RPC runs in the room under a label that stands for the closure; a room of
  another type answers with its own error there.
\<close>

section \<open>Telling and asking a room\<close>

text \<open>\<^verbatim>\<open>handle.tx.send(..).is_ok()\<close>: false when the room is unknown or its mailbox is closed.\<close>

definition tell ::
  "string \<Rightarrow> 'h RoomEvent \<Rightarrow> ('r, 's, 'i, 'h) MatchMaker \<Rightarrow> bool \<times> ('r, 's, 'i, 'h) MatchMaker" where
  "tell rid ev w = (mailbox rid w \<noteq> None, post_to rid ev w)"

text \<open>
  An event with a channel for the answer, and the wait for it: whether it came too late, and
  the answer, if the room gave one.
\<close>

datatype Asked = TooLate | Dropped | Answered Response

definition ask_within ::
  "('r, 's, 'i, 'h) Surroundings \<Rightarrow> string \<Rightarrow> 'h RoomEvent \<Rightarrow> ('r, 's, 'i, 'h) MatchMaker
     \<Rightarrow> Asked \<times> ('r, 's, 'i, 'h) MatchMaker" where
  "ask_within env rid ev w =
     (let late = rpc_late env (mm_calls w);
          (answer, w1) = ask rid ev w;
          w2 = await env w1
      in (if late then TooLate else (case answer of None \<Rightarrow> Dropped | Some r \<Rightarrow> Answered r), w2))"

section \<open>The context\<close>

definition admin_process_id :: "('r, 's, 'i, 'h) MatchMaker \<Rightarrow> string" where
  "admin_process_id w = mm_process_id w"

definition admin_list_rooms ::
  "(rat \<Rightarrow> string) \<Rightarrow> string option \<Rightarrow> ('r, 's, 'i, 'h) MatchMaker \<Rightarrow> RoomListing list" where
  "admin_list_rooms ff name w = query ff name [] w"

definition admin_query_rooms ::
  "(rat \<Rightarrow> string) \<Rightarrow> RoomQuery \<Rightarrow> ('r, 's, 'i, 'h) MatchMaker \<Rightarrow> (ServerError, RoomQueryResult) result" where
  "admin_query_rooms ff q w = query_rooms ff None q w"

definition admin_room_stats :: "string option \<Rightarrow> ('r, 's, 'i, 'h) MatchMaker \<Rightarrow> RoomStats" where
  "admin_room_stats name w = room_stats name w"

definition admin_room :: "string \<Rightarrow> ('r, 's, 'i, 'h) MatchMaker \<Rightarrow> RoomListing option" where
  "admin_room rid w = driver_get rid (mm_driver w)"

definition admin_create_room ::
  "('r, 's, 'i, 'h) Surroundings \<Rightarrow> string \<Rightarrow> json \<Rightarrow> ('r, 's, 'i, 'h) MatchMaker
     \<Rightarrow> (ServerError, CreateRoomOutcome) result \<times> ('r, 's, 'i, 'h) MatchMaker" where
  "admin_create_room env name options w = create_room env name options w"

definition did_not_respond :: string where
  "did_not_respond = ''room did not respond''"

definition admin_inspect_room ::
  "('r, 's, 'i, 'h) Surroundings \<Rightarrow> string \<Rightarrow> ('r, 's, 'i, 'h) MatchMaker
     \<Rightarrow> (ServerError, RoomInspection) result \<times> ('r, 's, 'i, 'h) MatchMaker" where
  "admin_inspect_room env rid w =
     (if mailbox rid w = None then (Inl (room_not_found rid), w)
      else (case ask_within env rid Inspect w of
              (TooLate, w1) \<Rightarrow> (Inl (new_error APPLICATION_ERROR did_not_respond), w1)
            | (Answered (RInspect i), w1) \<Rightarrow> (Inr i, w1)
            | (_, w1) \<Rightarrow> (Inl (room_not_found rid), w1)))"

definition admin_dispose_room ::
  "string \<Rightarrow> ('r, 's, 'i, 'h) MatchMaker \<Rightarrow> bool \<times> ('r, 's, 'i, 'h) MatchMaker" where
  "admin_dispose_room rid w = tell rid (Dispose CONSENTED) w"

definition admin_set_locked ::
  "string \<Rightarrow> bool \<Rightarrow> ('r, 's, 'i, 'h) MatchMaker \<Rightarrow> bool \<times> ('r, 's, 'i, 'h) MatchMaker" where
  "admin_set_locked rid l w = tell rid (SetLocked l) w"

definition admin_lock_room ::
  "string \<Rightarrow> ('r, 's, 'i, 'h) MatchMaker \<Rightarrow> bool \<times> ('r, 's, 'i, 'h) MatchMaker" where
  "admin_lock_room rid w = admin_set_locked rid True w"

definition admin_unlock_room ::
  "string \<Rightarrow> ('r, 's, 'i, 'h) MatchMaker \<Rightarrow> bool \<times> ('r, 's, 'i, 'h) MatchMaker" where
  "admin_unlock_room rid w = admin_set_locked rid False w"

definition admin_kick ::
  "string \<Rightarrow> string \<Rightarrow> ('r, 's, 'i, 'h) MatchMaker \<Rightarrow> bool \<times> ('r, 's, 'i, 'h) MatchMaker" where
  "admin_kick rid sid w = tell rid (Kick sid) w"

definition admin_send_message ::
  "string \<Rightarrow> string option \<Rightarrow> MessageType \<Rightarrow> json \<Rightarrow> ('r, 's, 'i, 'h) MatchMaker
     \<Rightarrow> bool \<times> ('r, 's, 'i, 'h) MatchMaker" where
  "admin_send_message rid sid t payload w = tell rid (AdminMessage sid t payload) w"

definition admin_edit_state ::
  "('r, 's, 'i, 'h) Surroundings \<Rightarrow> string \<Rightarrow> string list \<Rightarrow> StateEdit \<Rightarrow> ('r, 's, 'i, 'h) MatchMaker
     \<Rightarrow> (string, unit) result \<times> ('r, 's, 'i, 'h) MatchMaker" where
  "admin_edit_state env rid path edit w =
     (if mailbox rid w = None then (Inl ''room not found'', w)
      else (case ask_within env rid (EditState path edit) w of
              (TooLate, w1) \<Rightarrow> (Inl did_not_respond, w1)
            | (Answered (REdit r), w1) \<Rightarrow> (r, w1)
            | (_, w1) \<Rightarrow> (Inl ''room not found'', w1)))"

definition admin_set_state_path ::
  "('r, 's, 'i, 'h) Surroundings \<Rightarrow> string \<Rightarrow> string list \<Rightarrow> json \<Rightarrow> ('r, 's, 'i, 'h) MatchMaker
     \<Rightarrow> (string, unit) result \<times> ('r, 's, 'i, 'h) MatchMaker" where
  "admin_set_state_path env rid path v w = admin_edit_state env rid path (Set v) w"

definition admin_remove_state_path ::
  "('r, 's, 'i, 'h) Surroundings \<Rightarrow> string \<Rightarrow> string list \<Rightarrow> ('r, 's, 'i, 'h) MatchMaker
     \<Rightarrow> (string, unit) result \<times> ('r, 's, 'i, 'h) MatchMaker" where
  "admin_remove_state_path env rid path w = admin_edit_state env rid path Remove w"

definition admin_command_room ::
  "string \<Rightarrow> 'h \<Rightarrow> ('r, 's, 'i, 'h) MatchMaker \<Rightarrow> bool \<times> ('r, 's, 'i, 'h) MatchMaker" where
  "admin_command_room rid h w = tell rid (Command h) w"

definition admin_presence :: "('r, 's, 'i, 'h) MatchMaker \<Rightarrow> LocalPresence" where
  "admin_presence w = mm_presence w"

text \<open>A receiver of lobby events sees what is sent after the position it starts at.\<close>

definition admin_subscribe :: "('r, 's, 'i, 'h) MatchMaker \<Rightarrow> nat" where
  "admin_subscribe w = length (mm_lobby_tx w)"

section \<open>Room RPCs\<close>

definition dispatch_room_rpc ::
  "('r, 's, 'i, 'h) Surroundings \<Rightarrow> string \<Rightarrow> 'h \<Rightarrow> ('r, 's, 'i, 'h) MatchMaker
     \<Rightarrow> (ServerError, json) result \<times> ('r, 's, 'i, 'h) MatchMaker" where
  "dispatch_room_rpc env rid h w =
     (if mailbox rid w = None then (Inl (room_not_found rid), w)
      else (case ask_within env rid (CallRoomRpc h) w of
              (TooLate, w1) \<Rightarrow> (Inl (new_error APPLICATION_ERROR did_not_respond), w1)
            | (Answered (RRpc r), w1) \<Rightarrow> (r, w1)
            | (_, w1) \<Rightarrow> (Inl (room_not_found rid), w1)))"

definition room_rpc_fn ::
  "(json \<Rightarrow> (string, 'h) result) \<Rightarrow> ('r, 's, 'i, 'h) Surroundings \<Rightarrow> string \<Rightarrow> json
     \<Rightarrow> ('r, 's, 'i, 'h) MatchMaker \<Rightarrow> (ServerError, json) result \<times> ('r, 's, 'i, 'h) MatchMaker" where
  "room_rpc_fn decode env rid params w =
     (case decode params of
        Inl e \<Rightarrow> (Inl (new_error INVALID_PAYLOAD e), w)
      | Inr h \<Rightarrow> dispatch_room_rpc env rid h w)"

definition admin_call_room ::
  "(json \<Rightarrow> (string, 'v) result) \<Rightarrow> ('r, 's, 'i, 'h) Surroundings \<Rightarrow> string \<Rightarrow> 'h
     \<Rightarrow> ('r, 's, 'i, 'h) MatchMaker \<Rightarrow> (ServerError, 'v) result \<times> ('r, 's, 'i, 'h) MatchMaker" where
  "admin_call_room from_value env rid h w =
     (if map_of (mm_rooms w) rid = None then (Inl (room_not_found rid), w)
      else (case dispatch_room_rpc env rid h w of
              (Inl e, w1) \<Rightarrow> (Inl e, w1)
            | (Inr v, w1) \<Rightarrow> (map_sum (new_error APPLICATION_ERROR) id (from_value v), w1)))"

section \<open>Admin RPCs\<close>

type_synonym ('r, 's, 'i, 'h) rpc =
  "('r, 's, 'i, 'h) Surroundings \<Rightarrow> json \<Rightarrow> ('r, 's, 'i, 'h) MatchMaker
     \<Rightarrow> (ServerError, json) result \<times> ('r, 's, 'i, 'h) MatchMaker"

record ('r, 's, 'i, 'h) AdminRpcRegistration =
  rpc_name :: string
  rpc_handler :: "('r, 's, 'i, 'h) rpc"
  params_type :: string
  response_type :: string

definition rpc_fn ::
  "(json \<Rightarrow> (string, 'p) result)
     \<Rightarrow> (('r, 's, 'i, 'h) Surroundings \<Rightarrow> 'p \<Rightarrow> ('r, 's, 'i, 'h) MatchMaker
           \<Rightarrow> (ServerError, 'v) result \<times> ('r, 's, 'i, 'h) MatchMaker)
     \<Rightarrow> ('v \<Rightarrow> (string, json) result) \<Rightarrow> ('r, 's, 'i, 'h) rpc" where
  "rpc_fn from_value call ser_value env params w =
     (case from_value params of
        Inl e \<Rightarrow> (Inl (new_error INVALID_PAYLOAD e), w)
      | Inr p \<Rightarrow>
          (case call env p w of
             (Inl e, w1) \<Rightarrow> (Inl e, w1)
           | (Inr v, w1) \<Rightarrow> (map_sum (new_error APPLICATION_ERROR) id (ser_value v), w1)))"

section \<open>Steps of the process\<close>

text \<open>A change of one room that keeps it hosted is a step of the process.\<close>

lemma map_room_safe:
  assumes "\<And>H a. world_ok w \<Longrightarrow> hosted w (rid, H, a) \<Longrightarrow> hosted w (rid, g (H, a))"
  shows "safe w (w\<lparr>mm_rooms := AList.map_entry rid g (mm_rooms w)\<rparr>)"
proof -
  let ?w = "w\<lparr>mm_rooms := AList.map_entry rid g (mm_rooms w)\<rparr>"
  have h: "hosted ?w e = hosted w e" for e by (cases e) (simp add: hosted_def actor_ok_lend)
  have "world_ok ?w" if ok: "world_ok w"
  proof -
    have d: "distinct (map fst (mm_rooms ?w))" using ok by (simp add: world_ok_def distinct_map_entry)
    have "hosted w e" if e: "e \<in> set (mm_rooms ?w)" for e
    proof -
      obtain r x where x: "e = (r, x)" by (cases e)
      then have m: "map_of (mm_rooms ?w) r = Some x" using d e by (simp add: map_of_eq_Some_iff)
      show ?thesis
      proof (cases "r = rid")
        case True
        then obtain H a where "map_of (mm_rooms w) rid = Some (H, a)" "x = g (H, a)"
          using m by (auto simp: map_of_map_entry split: option.splits)
        then show ?thesis using assms [OF ok world_ok_rooms [OF ok]] by (simp add: x True)
      next
        case False
        then have "map_of (mm_rooms w) r = Some x" using m by (simp add: map_of_map_entry)
        then show ?thesis using ok by (auto simp: x world_ok_def dest: map_of_SomeD)
      qed
    qed
    then show ?thesis using ok d h by (simp add: world_ok_def)
  qed
  then show ?thesis by (simp add: safe_def)
qed

lemma post_to_safe:
  assumes "event_ref ev = None"
  shows "safe w (post_to rid ev w)"
  unfolding post_to_def
proof (rule map_room_safe)
  fix H a assume h: "hosted w (rid, H, a)"
  have "post ev (a\<lparr>actor_ctx := lend w (actor_ctx a)\<rparr>)
      = (post ev a)\<lparr>actor_ctx := lend w (actor_ctx (post ev a))\<rparr>"
    by (simp add: post_def lend_def)
  moreover have "connect_ref ev = None" using assms by (cases ev) simp_all
  ultimately have "actor_ok ((post ev a)\<lparr>actor_ctx := lend w (actor_ctx (post ev a))\<rparr>)"
    using h post_ok [of "a\<lparr>actor_ctx := lend w (actor_ctx a)\<rparr>" ev] assms by (simp add: hosted_def)
  then show "hosted w (rid, post_room ev (H, a))"
    using h by (simp add: hosted_def post_room_def post_def)
qed

lemma tell_safe: "event_ref ev = None \<Longrightarrow> safe w (snd (tell rid ev w))"
  by (simp add: tell_def post_to_safe)

lemma ask_within_safe:
  assumes "env_ok env" and "event_ref ev = None"
  shows "safe w (snd (ask_within env rid ev w))"
  using safe_trans [OF ask_safe [OF assms(2), of w rid] safe_await [OF assms(1)]]
  by (simp add: ask_within_def Let_def split_def)

text \<open>Every operation of the context is a step of the process.\<close>

lemma admin_tells_safe [simp]:
  "safe w (snd (admin_dispose_room rid w))" "safe w (snd (admin_lock_room rid w))"
  "safe w (snd (admin_unlock_room rid w))" "safe w (snd (admin_kick rid sid w))"
  "safe w (snd (admin_send_message rid sid_opt t payload w))" "safe w (snd (admin_command_room rid h w))"
  by (simp_all add: admin_dispose_room_def admin_lock_room_def admin_unlock_room_def admin_set_locked_def
      admin_kick_def admin_send_message_def admin_command_room_def tell_safe)

lemma admin_asks_safe:
  assumes "env_ok env"
  shows "safe w (snd (admin_inspect_room env rid w))" "safe w (snd (admin_edit_state env rid path edit w))"
    "safe w (snd (dispatch_room_rpc env rid h w))" "safe w (snd (room_rpc_fn decode env rid params w))"
    "safe w (snd (admin_call_room from_value env rid h w))" "safe w (snd (admin_create_room env name options w))"
proof -
  note s = ask_within_safe [OF assms, of _ w rid]
  show "safe w (snd (admin_inspect_room env rid w))"
    using s [of Inspect] by (simp add: admin_inspect_room_def split_def split: Asked.split Response.split)
  show "safe w (snd (admin_edit_state env rid path edit w))"
    using s [of "EditState path edit"] by (simp add: admin_edit_state_def split_def split: Asked.split Response.split)
  show d: "safe w (snd (dispatch_room_rpc env rid h w))" for h
    using s [of "CallRoomRpc h"] by (simp add: dispatch_room_rpc_def split_def split: Asked.split Response.split)
  show "safe w (snd (room_rpc_fn decode env rid params w))"
    using d by (simp add: room_rpc_fn_def split: sum.split)
  show "safe w (snd (admin_call_room from_value env rid h w))"
    using d [of h] by (simp add: admin_call_room_def split_def split: sum.split)
  show "safe w (snd (admin_create_room env name options w))"
    unfolding admin_create_room_def create_room_def by (rule create_room_inner_safe [OF assms])
qed

section \<open>The contract of RPC handlers\<close>

text \<open>
  A handler may do with the process what its operations allow: every call of it is a step
  that keeps the invariant. The handlers that wrap a typed RPC obey this when the RPC does.
\<close>

locale rpc_contract =
  fixes handler :: "('r, 's, 'i, 'h) rpc"
  assumes keeps: "env_ok env \<Longrightarrow> safe w (snd (handler env params w))"
begin

lemma keeps_world:
  assumes "env_ok env" and "world_ok w" and "handler env params w = (r, w')"
  shows "world_ok w'" and "mm_next_ref w \<le> mm_next_ref w'"
  using keeps [OF assms(1), of w params] assms(2,3) by (simp_all add: safe_def)

end

lemma rpc_fn_contract:
  assumes "\<And>env p w. env_ok env \<Longrightarrow> safe w (snd (call env p w))"
  shows "rpc_contract (rpc_fn from_value call ser_value)"
proof (unfold_locales)
  fix env :: "('a, 'b, 'c, 'd) Surroundings" and w :: "('a, 'b, 'c, 'd) MatchMaker" and params
  assume "env_ok env"
  then show "safe w (snd (rpc_fn from_value call ser_value env params w))"
    using assms by (simp add: rpc_fn_def split_def split: sum.split)
qed

interpretation room_rpc: rpc_contract "\<lambda>env. room_rpc_fn decode env rid" for decode rid
  by unfold_locales (rule admin_asks_safe(4))

text \<open>The typed RPC of the documentation, which disposes of the room it is given.\<close>

interpretation disposing_rpc: rpc_contract "rpc_fn from_value (\<lambda>env rid w. (Inr (), snd (admin_dispose_room rid w))) ser_value"
  for from_value ser_value
  by (rule rpc_fn_contract) simp

section \<open>What a room receives\<close>

text \<open>
  A command that reports success is in the mailbox of its room, after what was there, and no
  other room gets it; one that reports failure changes nothing.
\<close>

lemma tell_delivers:
  assumes "tell rid ev w = (ok, w')"
  shows "(ok \<longleftrightarrow> mailbox rid w \<noteq> None) \<and> (ok \<longrightarrow> mailbox rid w' = Some (the (mailbox rid w) @ [ev]))
    \<and> (r \<noteq> rid \<or> \<not> ok \<longrightarrow> mailbox r w' = mailbox r w)"
  using assms by (cases "mailbox rid w"; cases "r = rid") (auto simp: tell_def option.map_ident)

end
