(* ===== verification/Admin.thy ===== *)
theory Admin
  imports Admin_Rpc "HOL-Library.Option_ord"
begin

text \<open>
  The admin panel and its JSON interface, \<^verbatim>\<open>crates/colyseus/src/admin/mod.rs\<close>: one
  definition per route over the state of the router and the process, the requests as a
  datatype, and \<open>admin_router\<close>, which dispatches them. The body of a request is the decoded
  one (\<^verbatim>\<open>axum\<close> extracts it before the handler runs), that of a response is the value
  that is serialized. The memory of the process and what other requests do to the cache of
  replies while an RPC runs are arguments.
\<close>

section \<open>State\<close>

definition RPC_IDEMPOTENCY_TTL :: duration where "RPC_IDEMPOTENCY_TTL = from_secs 30"
definition RPC_IDEMPOTENCY_CAP :: nat where "RPC_IDEMPOTENCY_CAP = 1024"

type_synonym ('r, 's, 'i, 'h) room_rpc =
  "('r, 's, 'i, 'h) Surroundings \<Rightarrow> string \<Rightarrow> json \<Rightarrow> ('r, 's, 'i, 'h) MatchMaker
     \<Rightarrow> (ServerError, json) result \<times> ('r, 's, 'i, 'h) MatchMaker"

record ('r, 's, 'i, 'h) AdminState =
  panel_token :: "string option"
  started_at :: instant
  pid :: nat
  panel_html :: bool
  rpcs :: "(string \<times> ('r, 's, 'i, 'h) AdminRpcRegistration) list"
  room_rpc_handlers :: "(string \<times> ('r, 's, 'i, 'h) room_rpc) list"
  rpc_idempotency :: "(string \<times> json cached) list"

definition admin_state_new ::
  "string option \<Rightarrow> bool \<Rightarrow> ('r, 's, 'i, 'h) AdminRpcRegistration list
     \<Rightarrow> (string \<times> ('r, 's, 'i, 'h) room_rpc) list \<Rightarrow> instant \<Rightarrow> nat \<Rightarrow> ('r, 's, 'i, 'h) AdminState" where
  "admin_state_new token html rs room_rs t p =
     \<lparr>panel_token = token, started_at = t, pid = p, panel_html = html,
      rpcs = fold (\<lambda>r. AList.update (rpc_name r) r) rs [],
      room_rpc_handlers = fold (\<lambda>(n, f). AList.update n f) room_rs [], rpc_idempotency = []\<rparr>"

text \<open>The process as the admin routes see it, and what they cannot compute.\<close>

type_synonym ('r, 's, 'i, 'h) admin_world = "('r, 's, 'i, 'h) AdminState \<times> ('r, 's, 'i, 'h) MatchMaker"

record ('r, 's, 'i, 'h) AdminEnv =
  around :: "('r, 's, 'i, 'h) Surroundings"
  rss_bytes :: nat
  cache_meanwhile :: "(string \<times> json cached) list \<Rightarrow> (string \<times> json cached) list"

section \<open>Responses\<close>

datatype AdminBody =
    EmptyBody | TextBody string | PanelPage | JsonBody json | QueryBody RoomQueryResult | StatsBody RoomStats
  | InspectBody RoomInspection RoomListing | FailBody nat string | Upgrade "string option"

record AdminResponse =
  a_status :: nat
  a_body :: AdminBody

definition reply :: "nat \<Rightarrow> AdminBody \<Rightarrow> AdminResponse" where
  "reply s b = \<lparr>a_status = s, a_body = b\<rparr>"

definition unauthorized :: AdminResponse where
  "unauthorized = reply 401 (TextBody ''invalid admin token'')"

definition unknown_room :: AdminResponse where
  "unknown_room = reply 404 (TextBody ''room not found'')"

definition silent_room :: AdminResponse where
  "silent_room = reply 504 (TextBody did_not_respond)"

definition authorize :: "('r, 's, 'i, 'h) AdminState \<Rightarrow> header_map \<Rightarrow> AdminResponse" where
  "authorize st hs =
     (case panel_token st of
        None \<Rightarrow> reply 200 EmptyBody
      | Some expected \<Rightarrow> if bearer_token hs = Some expected then reply 200 EmptyBody else unauthorized)"

text \<open>The first lines of the guarded handlers.\<close>

definition guarded ::
  "header_map \<Rightarrow> (('r, 's, 'i, 'h) admin_world \<Rightarrow> AdminResponse \<times> ('r, 's, 'i, 'h) admin_world)
     \<Rightarrow> ('r, 's, 'i, 'h) admin_world \<Rightarrow> AdminResponse \<times> ('r, 's, 'i, 'h) admin_world" where
  "guarded hs body x =
     (let auth = authorize (fst x) hs in if a_status auth \<noteq> 200 then (auth, x) else body x)"

section \<open>Reading\<close>

definition panel :: "('r, 's, 'i, 'h) AdminState \<Rightarrow> AdminResponse" where
  "panel st = (if \<not> panel_html st then reply 404 EmptyBody else reply 200 PanelPage)"

definition overview :: "('r, 's, 'i, 'h) AdminEnv \<Rightarrow> ('r, 's, 'i, 'h) admin_world \<Rightarrow> AdminResponse" where
  "overview env = (\<lambda>(st, w).
     let found = query (float_string (around env)) None [] w
     in reply 200 (JsonBody (JObj
          [(''connections'', jnat (sum_list (map l_clients found))),
           (''pid'', jnat (pid st)),
           (''processId'', JStr (mm_process_id w)),
           (''rooms'', jnat (length found)),
           (''rssBytes'', jnat (rss_bytes env)),
           (''uptimeMillis'', jnat (as_millis (mm_now w - started_at st)))])))"

definition list_rooms_query ::
  "('r, 's, 'i, 'h) AdminEnv \<Rightarrow> (string \<times> string) list \<Rightarrow> ('r, 's, 'i, 'h) admin_world \<Rightarrow> AdminResponse" where
  "list_rooms_query env params = (\<lambda>(st, w).
     case from_params params of
       Inr q \<Rightarrow>
         (case query_rooms (float_string (around env)) None (cap_limit 1000 q) w of
            Inr res \<Rightarrow> reply 200 (QueryBody res)
          | Inl e \<Rightarrow> reply (if 100 \<le> err_code e \<and> err_code e < 1000 then err_code e else 400)
                       (FailBody (err_code e) (err_message e)))
     | Inl message \<Rightarrow> reply 400 (FailBody 400 message))"

definition admin_stats ::
  "(string \<times> string) list \<Rightarrow> ('r, 's, 'i, 'h) admin_world \<Rightarrow> AdminResponse" where
  "admin_stats params = (\<lambda>(st, w). reply 200 (StatsBody (room_stats (map_of params ''name'') w)))"

definition name_of :: "json \<Rightarrow> string option" where
  "name_of v = as_str (json_index v ''name'')"

definition schema :: "('r, 's, 'i, 'h) admin_world \<Rightarrow> AdminResponse" where
  "schema = (\<lambda>(st, w).
     let room_types = sort_key name_of (map handler_schema (handlers w));
         entries = map (\<lambda>(_, r). JObj [(''name'', JStr (rpc_name r)), (''params'', JStr (params_type r)),
                                       (''response'', JStr (response_type r))]) (rpcs st)
     in reply 200 (JsonBody (JObj
          [(''adminRpcs'', JArr (sort_key name_of entries)),
           (''coreFilterFields'', JArr (map JStr CORE_FILTER_FIELDS)),
           (''roomTypes'', JArr room_types)])))"

definition inspect_room ::
  "('r, 's, 'i, 'h) AdminEnv \<Rightarrow> string \<Rightarrow> ('r, 's, 'i, 'h) admin_world \<Rightarrow> AdminResponse \<times> ('r, 's, 'i, 'h) admin_world" where
  "inspect_room env rid = (\<lambda>(st, w).
     case driver_get rid (mm_driver w) of
       None \<Rightarrow> (unknown_room, (st, w))
     | Some lst \<Rightarrow>
         if mailbox rid w = None then (unknown_room, (st, w))
         else (case ask_within (around env) rid Inspect w of
                 (Answered (RInspect i), w1) \<Rightarrow> (reply 200 (InspectBody i lst), (st, w1))
               | (_, w1) \<Rightarrow> (silent_room, (st, w1))))"

section \<open>Commands to a room\<close>

text \<open>The event is sent if there is a handle; whether it arrives is not looked at.\<close>

definition send_to_room ::
  "string \<Rightarrow> 'h RoomEvent \<Rightarrow> ('r, 's, 'i, 'h) admin_world \<Rightarrow> AdminResponse \<times> ('r, 's, 'i, 'h) admin_world" where
  "send_to_room rid ev = (\<lambda>(st, w).
     if map_of (mm_rooms w) rid = None then (unknown_room, (st, w))
     else (reply 204 EmptyBody, (st, post_to rid ev w)))"

definition set_locked ::
  "string \<Rightarrow> bool \<Rightarrow> ('r, 's, 'i, 'h) admin_world \<Rightarrow> AdminResponse \<times> ('r, 's, 'i, 'h) admin_world" where
  "set_locked rid l = send_to_room rid (SetLocked l)"

definition lock_room ::
  "string \<Rightarrow> ('r, 's, 'i, 'h) admin_world \<Rightarrow> AdminResponse \<times> ('r, 's, 'i, 'h) admin_world" where
  "lock_room rid = set_locked rid True"

definition unlock_room ::
  "string \<Rightarrow> ('r, 's, 'i, 'h) admin_world \<Rightarrow> AdminResponse \<times> ('r, 's, 'i, 'h) admin_world" where
  "unlock_room rid = set_locked rid False"

definition kick_client ::
  "string \<Rightarrow> string \<Rightarrow> ('r, 's, 'i, 'h) admin_world \<Rightarrow> AdminResponse \<times> ('r, 's, 'i, 'h) admin_world" where
  "kick_client rid sid = send_to_room rid (Kick sid)"

definition message_type :: "json \<Rightarrow> MessageType option" where
  "message_type v =
     (case v of
        JStr s \<Rightarrow> Some (Str s)
      | JNum n \<Rightarrow> map_option (\<lambda>i. Num (word_of_int i)) (num_as_i64 n)
      | _ \<Rightarrow> None)"

definition send_message ::
  "string \<Rightarrow> string option \<Rightarrow> json \<Rightarrow> json \<Rightarrow> ('r, 's, 'i, 'h) admin_world
     \<Rightarrow> AdminResponse \<times> ('r, 's, 'i, 'h) admin_world" where
  "send_message rid sid ty payload x =
     (case message_type ty of
        None \<Rightarrow> (reply 400 (TextBody ''type must be a string or number''), x)
      | Some t \<Rightarrow> send_to_room rid (AdminMessage sid t payload) x)"

definition dispose_by_admin ::
  "string \<Rightarrow> ('r, 's, 'i, 'h) admin_world \<Rightarrow> AdminResponse \<times> ('r, 's, 'i, 'h) admin_world" where
  "dispose_by_admin rid = send_to_room rid (Dispose CONSENTED)"

section \<open>Editing the state\<close>

text \<open>\<^verbatim>\<open>str::replace\<close> for a pattern that is not empty.\<close>

function str_replace :: "string \<Rightarrow> string \<Rightarrow> string \<Rightarrow> string" where
  "str_replace p r [] = []"
| "str_replace p r (c # s) =
     (if p \<noteq> [] \<and> starts_with (c # s) p then r @ str_replace p r (drop (length p) (c # s))
      else c # str_replace p r s)"
  by pat_completeness auto
termination
  by (relation "measure (\<lambda>(p, r, s). length s)") auto

definition edit_path :: "string \<Rightarrow> string list" where
  "edit_path path =
     map (\<lambda>s. str_replace ''~0'' ''~'' (str_replace ''~1'' ''/'' s)) (filter (\<lambda>s. s \<noteq> []) (split_on (CHR ''/'') path))"

definition edit_op :: "string \<Rightarrow> json option \<Rightarrow> StateEdit option" where
  "edit_op op v =
     (if op = ''set'' then Some (Set (case v of Some x \<Rightarrow> x | None \<Rightarrow> JNull))
      else if op = ''remove'' then Some Remove else None)"

definition edit_room_state ::
  "('r, 's, 'i, 'h) AdminEnv \<Rightarrow> string \<Rightarrow> string \<Rightarrow> string \<Rightarrow> json option \<Rightarrow> ('r, 's, 'i, 'h) admin_world
     \<Rightarrow> AdminResponse \<times> ('r, 's, 'i, 'h) admin_world" where
  "edit_room_state env rid path op v = (\<lambda>(st, w).
     case edit_op op v of
       None \<Rightarrow> (reply 400 (TextBody (''unknown op '' @ quote @ op @ quote)), (st, w))
     | Some edit \<Rightarrow>
         if mailbox rid w = None then (unknown_room, (st, w))
         else (case ask_within (around env) rid (EditState (edit_path path) edit) w of
                 (Answered (REdit (Inr _)), w1) \<Rightarrow> (reply 204 EmptyBody, (st, w1))
               | (Answered (REdit (Inl msg)), w1) \<Rightarrow> (reply 400 (TextBody msg), (st, w1))
               | (_, w1) \<Rightarrow> (silent_room, (st, w1))))"

section \<open>Custom RPCs\<close>

definition rpc_error_response :: "ServerError \<Rightarrow> AdminResponse" where
  "rpc_error_response e =
     reply (if err_code e = INVALID_PAYLOAD then 400
            else if 100 \<le> err_code e \<and> err_code e < 1000 then err_code e else 500)
       (FailBody (err_code e) (err_message e))"

definition rpc_idempotency_get ::
  "string \<Rightarrow> ('r, 's, 'i, 'h) admin_world \<Rightarrow> json option \<times> ('r, 's, 'i, 'h) admin_world" where
  "rpc_idempotency_get key = (\<lambda>(st, w).
     case map_of (rpc_idempotency st) key of
       None \<Rightarrow> (None, (st, w))
     | Some (stored, v) \<Rightarrow>
         if mm_now w - stored > RPC_IDEMPOTENCY_TTL
         then (None, (st\<lparr>rpc_idempotency := AList.delete key (rpc_idempotency st)\<rparr>, w))
         else (Some v, (st, w)))"

definition rpc_idempotency_put ::
  "string \<Rightarrow> json \<Rightarrow> ('r, 's, 'i, 'h) admin_world \<Rightarrow> ('r, 's, 'i, 'h) admin_world" where
  "rpc_idempotency_put key v = (\<lambda>(st, w).
     let kept = filter (\<lambda>e. cache_age (mm_now w) e \<le> RPC_IDEMPOTENCY_TTL) (rpc_idempotency st)
     in (st\<lparr>rpc_idempotency := AList.update key (mm_now w, v) (make_space RPC_IDEMPOTENCY_CAP (mm_now w) kept)\<rparr>, w))"

definition rpc_key :: "string \<Rightarrow> header_map \<Rightarrow> string option" where
  "rpc_key name hs =
     (case Option.bind (map_of hs ''idempotency-key'') id of
        Some k \<Rightarrow> if k \<noteq> [] then Some (name @ '':'' @ k) else None
      | None \<Rightarrow> None)"

definition call_rpc ::
  "('r, 's, 'i, 'h) AdminEnv \<Rightarrow> string \<Rightarrow> header_map \<Rightarrow> json option \<Rightarrow> ('r, 's, 'i, 'h) admin_world
     \<Rightarrow> AdminResponse \<times> ('r, 's, 'i, 'h) admin_world" where
  "call_rpc env name hs body x =
     (case map_of (rpcs (fst x)) name of
        None \<Rightarrow> (reply 404 (TextBody (''unknown admin rpc '' @ quote @ name @ quote)), x)
      | Some rpc \<Rightarrow>
     (case (case rpc_key name hs of Some k \<Rightarrow> rpc_idempotency_get k x | None \<Rightarrow> (None, x)) of
        (Some cached_reply, x1) \<Rightarrow> (reply 200 (JsonBody cached_reply), x1)
      | (None, (st1, w1)) \<Rightarrow>
          let params = (case body of Some v \<Rightarrow> v | None \<Rightarrow> JNull);
              (answer, w2) = rpc_handler rpc (around env) params w1;
              x2 = (st1\<lparr>rpc_idempotency := cache_meanwhile env (rpc_idempotency st1)\<rparr>, w2)
          in (case answer of
                Inr v \<Rightarrow> (reply 200 (JsonBody v),
                          case rpc_key name hs of Some k \<Rightarrow> rpc_idempotency_put k v x2 | None \<Rightarrow> x2)
              | Inl e \<Rightarrow> (rpc_error_response e, x2))))"

definition call_room_rpc ::
  "('r, 's, 'i, 'h) AdminEnv \<Rightarrow> string \<Rightarrow> string \<Rightarrow> json option \<Rightarrow> ('r, 's, 'i, 'h) admin_world
     \<Rightarrow> AdminResponse \<times> ('r, 's, 'i, 'h) admin_world" where
  "call_room_rpc env rid name body = (\<lambda>(st, w).
     if map_of (mm_rooms w) rid = None then (unknown_room, (st, w))
     else (case map_of (room_rpc_handlers st) name of
             None \<Rightarrow> (reply 404 (TextBody (''unknown room rpc '' @ quote @ name @ quote)), (st, w))
           | Some rpc \<Rightarrow>
               (case rpc (around env) rid (case body of Some v \<Rightarrow> v | None \<Rightarrow> JNull) w of
                  (Inr v, w1) \<Rightarrow> (reply 200 (JsonBody v), (st, w1))
                | (Inl e, w1) \<Rightarrow> (rpc_error_response e, (st, w1)))))"

section \<open>The stream of room events\<close>

definition subprotocol_token :: "header_map \<Rightarrow> (string \<times> string) option" where
  "subprotocol_token hs =
     (let offered = List.map_filter (\<lambda>(n, v). if n = ''sec-websocket-protocol'' then v else None) hs;
          parts = filter (\<lambda>p. length p > length ''bearer.'')
                    (map str_trim (concat (map (split_on (CHR '','')) offered)))
      in Option.bind (find (\<lambda>p. starts_with p ''bearer.'') parts)
           (\<lambda>p. map_option (\<lambda>t. (p, t)) (strip_prefix ''bearer.'' p)))"

definition subscribe_tap ::
  "('r, 's, 'i, 'h) RoomHooks \<times> ('r, 's, 'i, 'h) RoomActor \<Rightarrow> ('r, 's, 'i, 'h) RoomHooks \<times> ('r, 's, 'i, 'h) RoomActor" where
  "subscribe_tap = (\<lambda>(H, a).
     (H, a\<lparr>actor_ctx := (actor_ctx a)\<lparr>tap := (tap (actor_ctx a))\<lparr>receiver_count := Suc (receiver_count (tap (actor_ctx a)))\<rparr>\<rparr>\<rparr>))"

definition room_events ::
  "string \<Rightarrow> header_map \<Rightarrow> string option \<Rightarrow> ('r, 's, 'i, 'h) admin_world
     \<Rightarrow> AdminResponse \<times> ('r, 's, 'i, 'h) admin_world" where
  "room_events rid hs token = (\<lambda>(st, w).
     let subprotocol = subprotocol_token hs;
         ok = (case panel_token st of
                 None \<Rightarrow> True
               | Some expected \<Rightarrow> map_option snd subprotocol = Some expected \<or> token = Some expected)
     in if \<not> ok then (unauthorized, (st, w))
        else if map_of (mm_rooms w) rid = None then (unknown_room, (st, w))
        else (reply 101 (Upgrade (map_option fst subprotocol)),
              (st, w\<lparr>mm_rooms := AList.map_entry rid subscribe_tap (mm_rooms w)\<rparr>)))"

text \<open>
  What the loop of the stream wakes up for: an event, events lost to a slow reader, the end
  of the room, and the frames of the client. \<open>up n\<close> tells whether the \<open>n\<close>-th send succeeds,
  \<open>ser\<close> serializes an event.
\<close>

datatype StreamInput = TapEvent RoomEventLog | TapLagged | TapClosed | FrameClose | FrameEnd | FrameFailed | FrameOther

fun stream_events :: "(RoomEventLog \<Rightarrow> string) \<Rightarrow> (nat \<Rightarrow> bool) \<Rightarrow> nat \<Rightarrow> StreamInput list \<Rightarrow> string list" where
  "stream_events ser up n [] = []"
| "stream_events ser up n (TapEvent e # xs) =
     (if up n then ser e # stream_events ser up (Suc n) xs else [])"
| "stream_events ser up n (TapLagged # xs) = stream_events ser up n xs"
| "stream_events ser up n (TapClosed # xs) = []"
| "stream_events ser up n (FrameClose # xs) = []"
| "stream_events ser up n (FrameEnd # xs) = []"
| "stream_events ser up n (FrameFailed # xs) = []"
| "stream_events ser up n (FrameOther # xs) = stream_events ser up n xs"

section \<open>The routes\<close>

datatype AdminRequest =
    GetPanel | GetOverview | GetSchema
  | GetRooms "(string \<times> string) list"
  | GetStats "(string \<times> string) list"
  | GetRoom string
  | PostLock string
  | PostUnlock string
  | PostKick string string
  | PostMessage string "string option" json json
  | PostDispose string
  | PostState string string string "json option"
  | GetEvents string "string option"
  | PostRoomRpc string string "json option"
  | PostRpc string "json option"

definition admin_router ::
  "('r, 's, 'i, 'h) AdminEnv \<Rightarrow> header_map \<Rightarrow> AdminRequest \<Rightarrow> ('r, 's, 'i, 'h) admin_world
     \<Rightarrow> AdminResponse \<times> ('r, 's, 'i, 'h) admin_world" where
  "admin_router env hs req x =
     (case req of
        GetPanel \<Rightarrow> (panel (fst x), x)
      | GetOverview \<Rightarrow> guarded hs (\<lambda>y. (overview env y, y)) x
      | GetSchema \<Rightarrow> guarded hs (\<lambda>y. (schema y, y)) x
      | GetRooms params \<Rightarrow> guarded hs (\<lambda>y. (list_rooms_query env params y, y)) x
      | GetStats params \<Rightarrow> guarded hs (\<lambda>y. (admin_stats params y, y)) x
      | GetRoom rid \<Rightarrow> guarded hs (inspect_room env rid) x
      | PostLock rid \<Rightarrow> guarded hs (lock_room rid) x
      | PostUnlock rid \<Rightarrow> guarded hs (unlock_room rid) x
      | PostKick rid sid \<Rightarrow> guarded hs (kick_client rid sid) x
      | PostMessage rid sid ty payload \<Rightarrow> guarded hs (send_message rid sid ty payload) x
      | PostDispose rid \<Rightarrow> guarded hs (dispose_by_admin rid) x
      | PostState rid path op v \<Rightarrow> guarded hs (edit_room_state env rid path op v) x
      | GetEvents rid token \<Rightarrow> room_events rid hs token x
      | PostRoomRpc rid name body \<Rightarrow> guarded hs (call_room_rpc env rid name body) x
      | PostRpc name body \<Rightarrow> guarded hs (call_rpc env name hs body) x)"

section \<open>Paths of edits\<close>

lemma replace_head: "str_replace ''~1'' ''/'' (d # t) = x # u \<Longrightarrow> d \<noteq> CHR ''0'' \<Longrightarrow> x \<noteq> CHR ''0''"
  by (auto split: if_splits)

lemma replace_unescapes: "str_replace ''~0'' ''~'' (str_replace ''~1'' ''/'' s) = unescape_token s"
proof (induction s rule: unescape_token.induct)
  case (2 c s)
  show ?case
  proof (cases s)
    case Nil
    then show ?thesis by (simp add: starts_with_def)
  next
    case (Cons d t)
    obtain x u where f: "str_replace ''~1'' ''/'' (d # t) = x # u" by (cases "str_replace ''~1'' ''/'' (d # t)") (auto split: if_splits)
    then show ?thesis using 2 Cons replace_head [OF f] by (auto simp: starts_with_def)
  qed
qed simp

lemma unescape_Nil [simp]: "unescape_token s = [] \<longleftrightarrow> s = []"
  by (cases s rule: unescape_token.cases) (auto split: list.split)

lemma edit_path_tokens: "edit_path path = filter (\<lambda>t. t \<noteq> []) (map unescape_token (split_on (CHR ''/'') path))"
  by (simp add: edit_path_def replace_unescapes filter_map comp_def)

lemma edit_path_pointer: "edit_path (mk_pointer ts) = filter (\<lambda>t. t \<noteq> []) ts"
proof -
  have "edit_path p = filter (\<lambda>t. t \<noteq> []) us" if "parse_pointer p = Some us" for p us
    using that by (cases p) (auto simp: parse_pointer_def edit_path_tokens split: if_splits)
  then show ?thesis by simp
qed

text \<open>
  C40. The path of an admin edit is read as a JSON pointer (RFC 6901) without its empty tokens:
  every pointer to a member whose keys are all non-empty is read exactly, escapes included,
  and a pointer through an empty key loses that step.
\<close>

theorem edit_path_is_pointer:
  "edit_path (mk_pointer ts) = filter (\<lambda>t. t \<noteq> []) ts
   \<and> (case parse_pointer p of Some us \<Rightarrow> edit_path p = filter (\<lambda>t. t \<noteq> []) us | None \<Rightarrow> p \<noteq> [] \<and> hd p \<noteq> CHR ''/'')"
  using edit_path_pointer [of ts] by (cases p) (auto simp: parse_pointer_def edit_path_tokens)

section \<open>What the token guards\<close>

text \<open>How a request shows the token; the page of the panel is public.\<close>

fun token_shown :: "string \<Rightarrow> header_map \<Rightarrow> AdminRequest \<Rightarrow> bool" where
  "token_shown tok hs GetPanel = True"
| "token_shown tok hs (GetEvents rid token) \<longleftrightarrow> map_option snd (subprotocol_token hs) = Some tok \<or> token = Some tok"
| "token_shown tok hs _ \<longleftrightarrow> bearer_token hs = Some tok"

lemma router_rejects:
  "panel_token st = Some tok \<Longrightarrow> \<not> token_shown tok hs req \<Longrightarrow> admin_router env hs req (st, w) = (unauthorized, (st, w))"
  by (cases req) (auto simp: admin_router_def guarded_def authorize_def unauthorized_def reply_def room_events_def Let_def)

section \<open>What the routes keep\<close>

definition replies_ok :: "(string \<times> json cached) list \<Rightarrow> bool" where
  "replies_ok es \<longleftrightarrow> distinct (map fst es) \<and> length es \<le> RPC_IDEMPOTENCY_CAP"

definition handlers_ok :: "('r, 's, 'i, 'h) AdminState \<Rightarrow> bool" where
  "handlers_ok st \<longleftrightarrow> (\<forall>(n, r) \<in> set (rpcs st). rpc_contract (rpc_handler r))
     \<and> (\<forall>(n, f) \<in> set (room_rpc_handlers st). \<forall>rid. rpc_contract (\<lambda>env. f env rid))"

text \<open>From one state to the next: the process is stepped, and of the router only the cache changes.\<close>

definition admin_step :: "('r, 's, 'i, 'h) admin_world \<Rightarrow> ('r, 's, 'i, 'h) admin_world \<Rightarrow> bool" where
  "admin_step x y \<longleftrightarrow> safe (snd x) (snd y)
     \<and> (\<exists>es. fst y = (fst x)\<lparr>rpc_idempotency := es\<rparr> \<and> (replies_ok (rpc_idempotency (fst x)) \<longrightarrow> replies_ok es))"

lemma admin_step_same [simp]: "admin_step (st, w) (st, w') \<longleftrightarrow> safe w w'"
proof -
  have "\<exists>es. st = st\<lparr>rpc_idempotency := es\<rparr> \<and> (replies_ok (rpc_idempotency st) \<longrightarrow> replies_ok es)"
    by (rule exI [of _ "rpc_idempotency st"]) simp
  then show ?thesis unfolding admin_step_def by simp
qed

lemma admin_step_refl [simp]: "admin_step x x"
  by (cases x) simp

lemma guarded_step: "admin_step x (snd (body x)) \<Longrightarrow> admin_step x (snd (guarded hs body x))"
  by (simp add: guarded_def Let_def)

lemma send_step: "event_ref ev = None \<Longrightarrow> admin_step x (snd (send_to_room rid ev x))"
  by (cases x) (simp add: send_to_room_def post_to_safe)

lemma subscribe_step: "admin_step x (snd (room_events rid hs token x))"
proof -
  have "safe w (w\<lparr>mm_rooms := AList.map_entry rid subscribe_tap (mm_rooms w)\<rparr>)" for w :: "('a, 'b, 'c, 'd) MatchMaker"
    by (rule map_room_safe)
      (simp add: hosted_def subscribe_tap_def actor_ok_lend maps_ok_def slot_ok_def timers_ok_def connecting_def mail_refs_def)
  then show ?thesis by (cases x) (simp add: room_events_def Let_def)
qed

lemma ask_steps:
  assumes "env_ok (around env)"
  shows "admin_step x (snd (inspect_room env rid x))" "admin_step x (snd (edit_room_state env rid path op v x))"
proof -
  obtain st w where x: "x = (st, w)" by (cases x)
  note s = ask_within_safe [OF assms, of _ w rid]
  show "admin_step x (snd (inspect_room env rid x))"
    using s [of Inspect] by (simp add: x inspect_room_def split_def split: option.split Asked.split Response.split)
  show "admin_step x (snd (edit_room_state env rid path op v x))"
    using s by (simp add: x edit_room_state_def split_def split: option.split Asked.split Response.split sum.split)
qed

lemma cache_steps:
  "admin_step x (snd (rpc_idempotency_get key x))" "admin_step x (rpc_idempotency_put key v x)"
proof -
  obtain st w where x: "x = (st, w)" by (cases x)
  have "replies_ok (AList.delete key es)" if "replies_ok es" for es
    using that length_delete_le [of key es] by (simp add: replies_ok_def distinct_delete)
  then show "admin_step x (snd (rpc_idempotency_get key x))"
    by (auto simp: x rpc_idempotency_get_def admin_step_def split: option.split intro: exI [of _ "rpc_idempotency st"])
  have "0 < RPC_IDEMPOTENCY_CAP" by (simp add: RPC_IDEMPOTENCY_CAP_def)
  from cache_stored [OF _ this refl, of "rpc_idempotency st"]
  show "admin_step x (rpc_idempotency_put key v x)"
    unfolding x rpc_idempotency_put_def admin_step_def replies_ok_def Let_def by (auto intro!: exI)
qed

text \<open>Whatever other requests do to the cache of replies, they keep it in bounds.\<close>

definition admin_env_ok :: "('r, 's, 'i, 'h) AdminEnv \<Rightarrow> bool" where
  "admin_env_ok env \<longleftrightarrow> env_ok (around env) \<and> (\<forall>es. replies_ok es \<longrightarrow> replies_ok (cache_meanwhile env es))"

lemma admin_step_trans: "admin_step x y \<Longrightarrow> admin_step y z \<Longrightarrow> admin_step x z"
  unfolding admin_step_def by (auto intro: safe_trans)

lemma call_rpc_step:
  assumes "admin_env_ok env" and "handlers_ok (fst x)"
  shows "admin_step x (snd (call_rpc env name hs body x))"
proof (cases "map_of (rpcs (fst x)) name")
  case None
  then show ?thesis by (simp add: call_rpc_def)
next
  case (Some rpc)
  let ?look = "case rpc_key name hs of Some k \<Rightarrow> rpc_idempotency_get k x | None \<Rightarrow> (None, x)"
  have look: "admin_step x (snd ?look)" by (simp add: cache_steps(1) split: option.split)
  obtain hit st1 w1 where l: "?look = (hit, (st1, w1))" by (metis surj_pair)
  show ?thesis
  proof (cases hit)
    case (Some v)
    then show ?thesis using look l \<open>map_of (rpcs (fst x)) name = Some rpc\<close> by (simp add: call_rpc_def)
  next
    case None
    define params where "params = (case body of Some v \<Rightarrow> v | None \<Rightarrow> JNull)"
    obtain answer w2 where h: "rpc_handler rpc (around env) params w1 = (answer, w2)" by (metis surj_pair)
    let ?x2 = "(st1\<lparr>rpc_idempotency := cache_meanwhile env (rpc_idempotency st1)\<rparr>, w2)"
    have "rpc_contract (rpc_handler rpc)"
      using assms(2) map_of_SomeD [OF Some] by (auto simp: handlers_ok_def)
    then have "safe w1 w2"
      using rpc_contract.keeps [of "rpc_handler rpc" "around env" w1 params] h assms(1) by (simp add: admin_env_ok_def)
    then have "admin_step (st1, w1) ?x2"
      using assms(1) by (auto simp: admin_step_def admin_env_ok_def)
    then have x2: "admin_step x ?x2" using look l admin_step_trans by fastforce
    have "snd (call_rpc env name hs body x) = ?x2 \<or> (\<exists>k v. snd (call_rpc env name hs body x) = rpc_idempotency_put k v ?x2)"
      unfolding call_rpc_def Some option.case l None prod.case params_def [symmetric] h Let_def
      by (auto split: sum.split option.split)
    then show ?thesis using x2 admin_step_trans [OF x2 cache_steps(2)] by auto
  qed
qed

lemma call_room_rpc_step:
  assumes "admin_env_ok env" and "handlers_ok (fst x)"
  shows "admin_step x (snd (call_room_rpc env rid name body x))"
proof -
  obtain st w where x: "x = (st, w)" by (cases x)
  have "safe w (snd (f (around env) rid params w))" if "map_of (room_rpc_handlers st) name = Some f" for f params
    using assms map_of_SomeD [OF that]
      rpc_contract.keeps [of "\<lambda>e. f e rid" "around env" w params]
    by (auto simp: x handlers_ok_def admin_env_ok_def)
  then show ?thesis
    by (auto simp: x call_room_rpc_def split_def split: option.split sum.split)
qed

lemma router_step:
  assumes "admin_env_ok env" and "handlers_ok (fst x)"
  shows "admin_step x (snd (admin_router env hs req x))"
proof -
  have "env_ok (around env)" using assms(1) by (simp add: admin_env_ok_def)
  note steps = ask_steps [OF this] call_rpc_step [OF assms] call_room_rpc_step [OF assms] send_step subscribe_step
  have "admin_step x (snd (send_message rid sid ty payload x))" for rid sid ty payload
    by (simp add: send_message_def send_step split: option.split)
  then show ?thesis
    by (cases req)
      (simp_all add: admin_router_def guarded_step steps lock_room_def unlock_room_def set_locked_def
        kick_client_def dispose_by_admin_def)
qed

text \<open>
  C4. The admin interface is guarded: with a token set, a request that does not show it (in
  the bearer header, or for the event stream as a subprotocol or query parameter) is answered
  401 and changes nothing. Every request, whatever it asks, is a step of the process that
  keeps its invariant, leaves the token and the registered RPCs as they are, and leaves at
  most 1024 cached replies, each key once. The registered RPCs are assumed to keep the
  invariant themselves, and so are the other tasks.
\<close>

theorem admin_guarded:
  assumes "admin_env_ok env" and "handlers_ok st" and "world_ok w" and "replies_ok (rpc_idempotency st)"
    and "admin_router env hs req (st, w) = (res, (st', w'))"
  shows "(\<forall>tok. panel_token st = Some tok \<and> \<not> token_shown tok hs req \<longrightarrow> res = unauthorized \<and> st' = st \<and> w' = w)
    \<and> world_ok w' \<and> replies_ok (rpc_idempotency st')
    \<and> panel_token st' = panel_token st \<and> rpcs st' = rpcs st \<and> room_rpc_handlers st' = room_rpc_handlers st"
  using router_rejects [of st _ hs req env w] router_step [of env "(st, w)" hs req] assms
  by (auto simp: admin_step_def safe_def)

definition sample_admin_env :: "(unit, json, unit, nat) AdminEnv" where
  "sample_admin_env = \<lparr>around = sample_env, rss_bytes = 0, cache_meanwhile = (\<lambda>es. es)\<rparr>"

definition reset_room :: "(unit, json, unit, nat) AdminRpcRegistration" where
  "reset_room =
     \<lparr>rpc_name = ''resetRoom'',
      rpc_handler = rpc_fn (\<lambda>v. case as_str v of Some r \<Rightarrow> Inr r | None \<Rightarrow> Inl ''expected a string'')
        (\<lambda>env rid w. (Inr (), snd (admin_dispose_room rid w))) (\<lambda>_. Inr JNull),
      params_type = ''ResetRoom'', response_type = ''ResetRoomResult''\<rparr>"

definition sample_admin :: "(unit, json, unit, nat) AdminState" where
  "sample_admin = admin_state_new (Some ''secret'') True [reset_room] [] 0 1"

theorem admin_guarded_witness:
  "admin_router sample_admin_env [] (PostDispose ''r'') (sample_admin, hosting) = (unauthorized, (sample_admin, hosting))
   \<and> world_ok (snd (snd (admin_router sample_admin_env [(''authorization'', Some ''Bearer secret'')]
        (PostRpc ''resetRoom'' (Some (JStr ''r''))) (sample_admin, hosting))))"
proof -
  have e: "admin_env_ok sample_admin_env" by (simp add: admin_env_ok_def sample_admin_env_def sample_env_ok)
  have h: "handlers_ok sample_admin"
    by (simp add: handlers_ok_def sample_admin_def admin_state_new_def reset_room_def disposing_rpc.rpc_contract_axioms)
  have r: "replies_ok (rpc_idempotency sample_admin)" and tok: "panel_token sample_admin = Some ''secret''"
    by (simp_all add: sample_admin_def admin_state_new_def replies_ok_def)
  have n: "\<not> token_shown ''secret'' [] (PostDispose ''r'')" by (simp add: bearer_token_def)
  obtain res st1 w1 where g1: "admin_router sample_admin_env [] (PostDispose ''r'') (sample_admin, hosting) = (res, (st1, w1))"
    by (metis surj_pair)
  obtain res' st2 w2 where g2: "admin_router sample_admin_env [(''authorization'', Some ''Bearer secret'')]
      (PostRpc ''resetRoom'' (Some (JStr ''r''))) (sample_admin, hosting) = (res', (st2, w2))"
    by (metis surj_pair)
  show ?thesis
    using admin_guarded [OF e h hosting_ok r g1] tok n admin_guarded [OF e h hosting_ok r g2] by (simp add: g1 g2)
qed

section \<open>Replayed replies\<close>

text \<open>
  A successful reply to a request with a key is stored, and answers every later request with
  that key for 30 seconds, whatever its body, without running the handler again.
\<close>

lemma rpc_replayed:
  assumes "call_rpc env name hs body x = (reply 200 (JsonBody v), (st', w'))" and "rpc_key name hs = Some k"
  shows "\<exists>t. map_of (rpc_idempotency st') k = Some (t, v)
    \<and> (\<forall>env' body' w''. mm_now w'' \<le> t + RPC_IDEMPOTENCY_TTL
        \<longrightarrow> call_rpc env' name hs body' (st', w'') = (reply 200 (JsonBody v), (st', w'')))"
proof -
  obtain rpc where r: "map_of (rpcs (fst x)) name = Some rpc"
    using assms(1) by (auto simp: call_rpc_def reply_def split: option.splits)
  have m: "\<exists>t. map_of (rpc_idempotency st') k = Some (t, v) \<and> map_of (rpcs st') name \<noteq> None"
  proof (cases "rpc_idempotency_get k x" rule: prod_cases3)
    case p: (fields hit st1 w1)
    have c: "rpcs st1 = rpcs (fst x)"
      using p by (cases x) (auto simp: rpc_idempotency_get_def split: option.splits if_splits)
    have hit: "x = (st1, w1) \<and> (\<exists>t. map_of (rpc_idempotency st1) k = Some (t, v'))" if "hit = Some v'" for v'
      using p that by (cases x) (auto simp: rpc_idempotency_get_def split: option.splits if_splits)
    show ?thesis
    proof (cases hit)
      case (Some v')
      then show ?thesis using assms p r hit [OF Some] by (auto simp: call_rpc_def reply_def)
    next
      case None
      define params where "params = (case body of Some v \<Rightarrow> v | None \<Rightarrow> JNull)"
      obtain answer w2 where h: "rpc_handler rpc (around env) params w1 = (answer, w2)" by (metis surj_pair)
      have "answer = Inr v \<and> (st', w') = rpc_idempotency_put k v
          (st1\<lparr>rpc_idempotency := cache_meanwhile env (rpc_idempotency st1)\<rparr>, w2)"
        using assms(1) unfolding call_rpc_def r option.case assms(2) p None prod.case params_def [symmetric] h Let_def
        by (auto simp: reply_def rpc_error_response_def split: sum.splits)
      then show ?thesis using r c by (simp add: rpc_idempotency_put_def Let_def update_conv')
    qed
  qed
  then obtain t where t: "map_of (rpc_idempotency st') k = Some (t, v)" "map_of (rpcs st') name \<noteq> None" by blast
  moreover have "call_rpc env' name hs body' (st', w'') = (reply 200 (JsonBody v), (st', w''))"
    if "mm_now w'' \<le> t + RPC_IDEMPOTENCY_TTL" for env' body' w''
    using t that assms(2) by (auto simp: call_rpc_def rpc_idempotency_get_def)
  ultimately show ?thesis by blast
qed

text \<open>The key is the name of the RPC, a colon and the header: names with a colon collide.\<close>

lemma rpc_keys_collide:
  "rpc_key ''a'' [(''idempotency-key'', Some ''b:c'')] = rpc_key ''a:b'' [(''idempotency-key'', Some ''c'')]"
  by (simp add: rpc_key_def)

section \<open>An edit from the request to the clients\<close>

lemma edit_turn:
  assumes "sender (actor_ctx a) = Some [EditState p edit]" and "state_slot (actor_ctx a) = Some slot"
    and "slot_apply_edit slot p edit = (r, slot')" and "request_dispose (actor_ctx a) = None"
    and "\<exists>c \<in> set (clients (actor_ctx a)). client_state (store (actor_ctx a) c) \<noteq> Closed"
  shows "\<exists>a'. run_turn H a = Some (Continue, REdit r, a') \<and> state_slot (actor_ctx a') = Some slot'"
proof -
  have c: "actor_ctx (sync_intervals a) = actor_ctx a" by (simp add: sync_intervals_def Let_def)
  show ?thesis
    using assms(4,5)
    by (simp add: run_turn_def Let_def c assms(1-3) handle_event_def run_room_def edit_state_def after_branch_def
        should_auto_dispose_def list_ex_iff)
qed

text \<open>A room with an idle mailbox and somebody in it.\<close>

definition idle_room ::
  "string \<Rightarrow> ('r, 's, 'i, 'h) RoomHooks \<Rightarrow> ('r, 's, 'i, 'h) RoomActor \<Rightarrow> ('r, 's, 'i, 'h) MatchMaker \<Rightarrow> bool" where
  "idle_room rid H a w \<longleftrightarrow> map_of (mm_rooms w) rid = Some (H, a) \<and> sender (actor_ctx a) = Some []
     \<and> request_dispose (actor_ctx a) = None
     \<and> list_ex (\<lambda>c. client_state (mm_clients w c) \<noteq> Closed) (clients (actor_ctx a))"

lemma ask_edit:
  assumes "idle_room rid H a w" and "state_slot (actor_ctx a) = Some slot" and "slot_apply_edit slot p edit = (r, slot')"
  shows "\<exists>a' w'. ask rid (EditState p edit) w = (Some (REdit r), w') \<and> map_of (mm_rooms w') rid = Some (H, a')
    \<and> state_slot (actor_ctx a') = Some slot'"
proof -
  let ?a = "a\<lparr>actor_ctx := (lend w (actor_ctx a))\<lparr>sender := Some [EditState p edit]\<rparr>\<rparr>"
  have l: "state_slot (lend w ctx) = state_slot ctx" "request_dispose (lend w ctx) = request_dispose ctx"
    "clients (lend w ctx) = clients ctx" "store (lend w ctx) = mm_clients w" for ctx
    by (simp_all add: lend_def)
  obtain a' where "run_turn H ?a = Some (Continue, REdit r, a')" "state_slot (actor_ctx a') = Some slot'"
    using edit_turn [of ?a p edit slot r slot' H] assms by (auto simp: idle_room_def l list_ex_iff)
  then show ?thesis
    using assms(1) by (simp add: ask_def idle_room_def Let_def update_conv')
qed


text \<open>A room with a state and a client.\<close>

definition stated_slot :: "json StateSlot" where
  "stated_slot = slot_new (json_box (JObj [(''hp'', jint 3)]))"

definition stated_actor :: "(unit, json, unit, nat) RoomActor" where
  "stated_actor = sample_actor\<lparr>actor_ctx := (actor_ctx sample_actor)\<lparr>clients := [0], state_slot := Some stated_slot\<rparr>\<rparr>"

definition stated_world :: "(unit, json, unit, nat) MatchMaker" where
  "stated_world = sample_mm\<lparr>mm_rooms := [(''r'', default_hooks, stated_actor)]\<rparr>"


end
