(* ===== verification/Room_Rules.thy ===== *)
theory Room_Rules
  imports Room_Life
begin

text \<open>
  Rules for code of concrete rooms: chains of public operations stay in the contract of room
  types, and each operation's effect on the public and internal state of the context.
\<close>

named_theorems api_rules \<open>one more public operation at the end of a chain\<close>
named_theorems state_simps \<open>what an operation leaves of the public and the internal state\<close>

section \<open>Chains of public operations\<close>

lemma api_quiet: "api a b \<Longrightarrow> quiet_step b c \<Longrightarrow> api a c"
  by (meson a_quiet api_stepI api_trans)

lemma api_chain [api_rules]:
  "api a b \<Longrightarrow> wf_ser st \<Longrightarrow> api a (set_state st b)"
  "api a b \<Longrightarrow> api a (state_mut f b)"
  "api a b \<Longrightarrow> api a (set_internal it b)"
  "api a b \<Longrightarrow> api a (internal_mut g b)"
  "api a b \<Longrightarrow> (\<And>v. wf_ser \<lparr>erased_value = v, erased_ser = ser, erased_de = de\<rparr>)
     \<Longrightarrow> api a (snd (restore_state ser de snap b))"
  "api a b \<Longrightarrow> api a (snd (restore_internal iser ide snap b))"
  "api a b \<Longrightarrow> api a (broadcast t v b)"
  "api a b \<Longrightarrow> api a (broadcast_with_options t v opts b)"
  "api a b \<Longrightarrow> api a (on_message t h b)"
  "api a b \<Longrightarrow> api a (snd (set_timeout d h b))"
  "api a b \<Longrightarrow> api a (snd (clear_timeout i b))"
  "api a b \<Longrightarrow> api a (set_patch_rate iv b)"
  "api a b \<Longrightarrow> api a (set_metadata m b)"
  "api a b \<Longrightarrow> api a (remove_client sid b)"
  "api a b \<Longrightarrow> api a (set_max_clients n b)"
  "api a b \<Longrightarrow> api a (on_client c (client_error code msg) b)"
  "api a b \<Longrightarrow> api a (on_client c (client_leave code_opt reason) b)"
  "api a b \<Longrightarrow> api a (client_send c t v so b)"
  "api a b \<Longrightarrow> api a (b\<lparr>auto_dispose := x\<rparr>)"
  "api a b \<Longrightarrow> c < next_ref b \<Longrightarrow> api a (snd (allow_reconnection c dl b))"
  by (auto simp: broadcast_def on_client_def
      intro: quiet_step.intros client_api.intros a_max_clients a_allow api_quiet api_trans [OF _ api_stepI])

lemma api_next_ref: "api a b \<Longrightarrow> next_ref b = next_ref a"
  by (rule api_frame(5))

section \<open>The state of a context\<close>

lemma state_mut_state [state_simps, simp]:
  "ctx_state (state_mut f ctx) = map_option f (ctx_state ctx)" "ctx_internal (state_mut f ctx) = ctx_internal ctx"
  "ctx_state (internal_mut g ctx) = ctx_state ctx" "ctx_internal (internal_mut g ctx) = map_option g (ctx_internal ctx)"
  by (simp_all add: ctx_state_def ctx_internal_def state_mut_def internal_mut_def option.map_comp comp_def
      slot_get_def slot_mutate_def internal_get_def internal_mutate_def)

lemma set_state_state [state_simps, simp]:
  "ctx_state (set_state st ctx) = Some (erased_value st)" "ctx_internal (set_state st ctx) = ctx_internal ctx"
  "ctx_state (set_internal it ctx) = ctx_state ctx" "ctx_internal (set_internal it ctx) = Some (erased_value it)"
  by (simp_all add: ctx_state_def ctx_internal_def set_state_def set_internal_def slot_get_def slot_new_def
      internal_get_def internal_new_def)

lemma internal_each_client [simp]: "internal_slot (each_client p f cs ctx) = internal_slot ctx"
  by (induction cs arbitrary: ctx) (simp_all add: each_client_def on_client_def)

lemma internal_sync [simp]: "internal_slot (sync_listing ctx) = internal_slot ctx" "state_slot (sync_listing ctx) = state_slot ctx"
  by (simp_all add: sync_listing_def Let_def split: prod.split option.split)

lemma slots_frame [state_simps, simp]:
  "state_slot (broadcast_with_options t v opts ctx) = state_slot ctx" "internal_slot (broadcast_with_options t v opts ctx) = internal_slot ctx"
  "state_slot (broadcast t v ctx) = state_slot ctx" "internal_slot (broadcast t v ctx) = internal_slot ctx"
  "state_slot (on_message t h ctx) = state_slot ctx" "internal_slot (on_message t h ctx) = internal_slot ctx"
  "state_slot (snd (set_timeout d h ctx)) = state_slot ctx" "internal_slot (snd (set_timeout d h ctx)) = internal_slot ctx"
  "state_slot (snd (clear_timeout i ctx)) = state_slot ctx" "internal_slot (snd (clear_timeout i ctx)) = internal_slot ctx"
  "state_slot (set_patch_rate iv ctx) = state_slot ctx" "internal_slot (set_patch_rate iv ctx) = internal_slot ctx"
  "state_slot (set_metadata m ctx) = state_slot ctx" "internal_slot (set_metadata m ctx) = internal_slot ctx"
  "state_slot (remove_client sid ctx) = state_slot ctx" "internal_slot (remove_client sid ctx) = internal_slot ctx"
  "state_slot (set_max_clients n ctx) = state_slot ctx" "internal_slot (set_max_clients n ctx) = internal_slot ctx"
  "state_slot (on_client c f ctx) = state_slot ctx" "internal_slot (on_client c f ctx) = internal_slot ctx"
  "state_slot (snd (allow_reconnection c dl ctx)) = state_slot ctx" "internal_slot (snd (allow_reconnection c dl ctx)) = internal_slot ctx"
  by (simp_all add: broadcast_def broadcast_with_options_def tap_log_def on_message_def set_timeout_def clear_timeout_def
      set_patch_rate_def set_metadata_def remove_client_def set_max_clients_def on_client_def allow_reconnection_def Let_def)

lemma ctx_state_frame [state_simps, simp]:
  "ctx_state (broadcast_with_options t v opts ctx) = ctx_state ctx" "ctx_internal (broadcast_with_options t v opts ctx) = ctx_internal ctx"
  "ctx_state (broadcast t v ctx) = ctx_state ctx" "ctx_internal (broadcast t v ctx) = ctx_internal ctx"
  "ctx_state (on_message t h ctx) = ctx_state ctx" "ctx_internal (on_message t h ctx) = ctx_internal ctx"
  "ctx_state (snd (set_timeout d h ctx)) = ctx_state ctx" "ctx_internal (snd (set_timeout d h ctx)) = ctx_internal ctx"
  "ctx_state (snd (clear_timeout i ctx)) = ctx_state ctx" "ctx_internal (snd (clear_timeout i ctx)) = ctx_internal ctx"
  "ctx_state (set_patch_rate iv ctx) = ctx_state ctx" "ctx_internal (set_patch_rate iv ctx) = ctx_internal ctx"
  "ctx_state (set_metadata m ctx) = ctx_state ctx" "ctx_internal (set_metadata m ctx) = ctx_internal ctx"
  "ctx_state (remove_client sid ctx) = ctx_state ctx" "ctx_internal (remove_client sid ctx) = ctx_internal ctx"
  "ctx_state (set_max_clients n ctx) = ctx_state ctx" "ctx_internal (set_max_clients n ctx) = ctx_internal ctx"
  "ctx_state (on_client c f ctx) = ctx_state ctx" "ctx_internal (on_client c f ctx) = ctx_internal ctx"
  "ctx_state (snd (allow_reconnection c dl ctx)) = ctx_state ctx" "ctx_internal (snd (allow_reconnection c dl ctx)) = ctx_internal ctx"
  by (simp_all add: ctx_state_def ctx_internal_def)

section \<open>Common parts of the demo rooms\<close>

text \<open>The derived serialization of a hash map: an object, its keys in order.\<close>

definition json_map :: "('v \<Rightarrow> json) \<Rightarrow> (string \<times> 'v) list \<Rightarrow> json" where
  "json_map f m = JObj (fold (\<lambda>(k, v). map_insert k (f v)) m [])"

lemma wf_obj_fold_insert: "wf_obj m0 \<Longrightarrow> (\<And>v. wf_json (f v)) \<Longrightarrow> wf_obj (fold (\<lambda>(k, v). map_insert k (f v)) m m0)"
  by (induction m arbitrary: m0) auto

lemma wf_json_map [simp]: "(\<And>v. wf_json (f v)) \<Longrightarrow> wf_json (json_map f m)"
  by (simp add: json_map_def wf_obj_fold_insert)

definition system_text :: "string \<Rightarrow> ('s, 'i, 'h) RoomContext \<Rightarrow> ('s, 'i, 'h) RoomContext" where
  "system_text text ctx = broadcast (Str ''system'') (JObj [(''text'', JStr text)]) ctx"

definition auth_field :: "json option \<Rightarrow> string \<Rightarrow> string option" where
  "auth_field auth k = Option.bind auth (\<lambda>a. as_str (json_index a k))"

definition ellipsis :: string where
  "ellipsis = [CHR 0xE2, CHR 0x80, CHR 0xA6]"

end
