(* ===== verification/Tictactoe.thy ===== *)
theory Tictactoe
  imports Room_Rules
begin

text \<open>
  The tic-tac-toe demo room, \<^verbatim>\<open>demos/tictactoe/server/src/main.rs\<close>: the synchronised
  state, the winner check, the message handlers and the hooks, as an instance of the room
  trait. The verification of a token (\<^verbatim>\<open>jsonwebtoken\<close>) and what the derive macros of
  \<^verbatim>\<open>serde\<close> make of incoming JSON are arguments. A \<^verbatim>\<open>HashMap\<close> is an association
  list; its unspecified iteration order is the order of the list. The hooks unwrap the state
  that \<^verbatim>\<open>on_create\<close> has set; without one they do nothing here.
\<close>

section \<open>State\<close>

record PlayerInfo =
  symbol :: string
  player_name :: string

record TttState =
  board :: "string list"
  players :: "(string \<times> PlayerInfo) list"
  turn :: string
  status :: string
  winner :: "string option"

definition ttt_new :: TttState where
  "ttt_new = \<lparr>board = replicate 9 [], players = [], turn = ''X'', status = ''waiting'', winner = None\<rparr>"

definition ttt_reset :: "TttState \<Rightarrow> TttState" where
  "ttt_reset s =
     s\<lparr>board := replicate 9 [], turn := ''X'', winner := None,
       status := (if length (players s) = 2 then ''playing'' else ''waiting'')\<rparr>"

definition WIN_LINES :: "(nat \<times> nat \<times> nat) list" where
  "WIN_LINES = [(0, 1, 2), (3, 4, 5), (6, 7, 8), (0, 3, 6), (1, 4, 7), (2, 5, 8), (0, 4, 8), (2, 4, 6)]"

definition check_winner :: "string list \<Rightarrow> string option" where
  "check_winner b =
     (case find (\<lambda>(i, j, k). b ! i \<noteq> [] \<and> b ! i = b ! j \<and> b ! j = b ! k) WIN_LINES of
        Some (i, j, k) \<Rightarrow> Some (b ! i)
      | None \<Rightarrow> if list_all (\<lambda>c. c \<noteq> []) b then Some ''draw'' else None)"

definition player_ser :: "PlayerInfo \<Rightarrow> json" where
  "player_ser p = JObj [(''name'', JStr (player_name p)), (''symbol'', JStr (symbol p))]"

definition ttt_ser :: "TttState \<Rightarrow> (string, json) result" where
  "ttt_ser s = Inr (JObj [(''board'', JArr (map JStr (board s))), (''players'', json_map player_ser (players s)),
     (''status'', JStr (status s)), (''turn'', JStr (turn s)),
     (''winner'', (case winner s of None \<Rightarrow> JNull | Some w \<Rightarrow> JStr w))])"

record TttEnv =
  ttt_de :: "json \<Rightarrow> (string, TttState) result"
  move_msg :: "json \<Rightarrow> (string, nat) result"
  chat_msg :: "json \<Rightarrow> (string, string) result"
  verify_token :: "string \<Rightarrow> (string \<times> string) option"

section \<open>Messages\<close>

datatype TttHandler = TttMove | TttChat | TttRematch

type_synonym ttt_room = "(unit, TttState, unit, TttHandler) room"

text \<open>The rules: a move of the player with the given session, with the announcement it makes.\<close>

definition play :: "string \<Rightarrow> nat \<Rightarrow> TttState \<Rightarrow> (string, TttState \<times> string option) result" where
  "play sid cell s =
     (if status s \<noteq> ''playing'' then Inl ''game is not in progress''
      else case map_of (players s) sid of
        None \<Rightarrow> Inl ''you are not a player''
      | Some p \<Rightarrow>
          if symbol p \<noteq> turn s then Inl ''not your turn''
          else if 9 \<le> cell \<or> board s ! cell \<noteq> [] then Inl ''invalid cell''
          else
            let s1 = s\<lparr>board := (board s)[cell := symbol p]\<rparr>
            in case check_winner (board s1) of
                Some w \<Rightarrow>
                  Inr (s1\<lparr>status := ''finished'', winner := Some w\<rparr>,
                       Some (if w = ''draw'' then ''draw!'' else player_name p @ '' wins!''))
              | None \<Rightarrow> Inr (s1\<lparr>turn := (if symbol p = ''X'' then ''O'' else ''X'')\<rparr>, None))"

definition on_move :: "cref \<Rightarrow> nat \<Rightarrow> ttt_room \<Rightarrow> (ServerError, unit) result \<times> ttt_room" where
  "on_move c cell rm =
     (case ctx_state (snd rm) of
        None \<Rightarrow> (Inr (), rm)
      | Some s \<Rightarrow>
          (case play (session_id (store (snd rm) c)) cell s of
             Inl m \<Rightarrow> (Inl (new_error APPLICATION_ERROR m), rm)
           | Inr (s', text) \<Rightarrow>
               (Inr (), on_ctx (\<lambda>ctx. let ctx1 = state_mut (\<lambda>_. s') ctx
                                 in case text of Some t \<Rightarrow> system_text t ctx1 | None \<Rightarrow> ctx1) rm)))"

definition on_chat :: "cref \<Rightarrow> string \<Rightarrow> ttt_room \<Rightarrow> (ServerError, unit) result \<times> ttt_room" where
  "on_chat c text rm =
     (let sid = session_id (store (snd rm) c);
          name = (case Option.bind (ctx_state (snd rm)) (\<lambda>s. map_of (players s) sid) of
                    Some p \<Rightarrow> player_name p | None \<Rightarrow> sid)
      in (Inr (), on_ctx (broadcast (Str ''chat'')
            (JObj [(''from'', JStr name), (''text'', JStr (take_chars 500 text))])) rm))"

definition on_rematch :: "ttt_room \<Rightarrow> (ServerError, unit) result \<times> ttt_room" where
  "on_rematch rm =
     (case ctx_state (snd rm) of
        None \<Rightarrow> (Inr (), rm)
      | Some s \<Rightarrow>
          if status s = ''finished''
          then (Inr (), on_ctx (\<lambda>ctx. system_text ''rematch!'' (state_mut ttt_reset ctx)) rm)
          else (Inr (), rm))"

section \<open>Hooks\<close>

definition ttt_on_create :: "TttEnv \<Rightarrow> json \<Rightarrow> ttt_room \<Rightarrow> (ServerError, unit) result \<times> ttt_room" where
  "ttt_on_create env options rm =
     (Inr (), on_ctx (\<lambda>ctx.
        on_message (Str ''rematch'') TttRematch (on_message (Str ''chat'') TttChat (on_message (Str ''move'') TttMove
          (set_patch_rate (Some (from_millis 50)) (set_max_clients (Some 2)
            (set_state \<lparr>erased_value = ttt_new, erased_ser = ttt_ser, erased_de = ttt_de env\<rparr> ctx)))))) rm)"

definition ttt_on_restore :: "TttEnv \<Rightarrow> RoomSnapshot \<Rightarrow> ttt_room \<Rightarrow> (ServerError, unit) result \<times> ttt_room" where
  "ttt_on_restore env snap rm =
     (let r = restore_state ttt_ser (ttt_de env) snap (snd rm) in (fst r, (fst rm, snd r)))"

definition ttt_on_auth ::
  "TttEnv \<Rightarrow> json \<Rightarrow> AuthContext \<Rightarrow> ttt_room \<Rightarrow> (ServerError, json option) result \<times> ttt_room" where
  "ttt_on_auth env options auth rm =
     (case auth_token auth of
        None \<Rightarrow> (Inl (new_error AUTH_FAILED ''missing bearer token''), rm)
      | Some token \<Rightarrow>
          (case verify_token env token of
             None \<Rightarrow> (Inl (new_error AUTH_FAILED ''invalid or expired token''), rm)
           | Some (sub, name) \<Rightarrow> (Inr (Some (JObj [(''name'', JStr name), (''userId'', JStr sub)])), rm)))"

text \<open>The session of another client in the list with the same account.\<close>

definition stale_session :: "cref \<Rightarrow> string \<Rightarrow> ('s, 'i, 'h) RoomContext \<Rightarrow> string option" where
  "stale_session c user_id ctx =
     (if user_id = [] then None
      else map_option (\<lambda>c'. session_id (store ctx c'))
        (find (\<lambda>c'. session_id (store ctx c') \<noteq> session_id (store ctx c)
                   \<and> auth_field (client_auth (store ctx c')) ''userId'' = Some user_id) (clients ctx)))"

definition take_over :: "string \<Rightarrow> string \<Rightarrow> TttState \<Rightarrow> TttState" where
  "take_over old_sid sid s =
     (case map_of (players s) old_sid of
        Some info \<Rightarrow> s\<lparr>players := AList.update sid info (AList.delete old_sid (players s))\<rparr>
      | None \<Rightarrow> s)"

definition free_symbol :: "TttState \<Rightarrow> string" where
  "free_symbol s = (if list_ex (\<lambda>(_, p). symbol p = ''X'') (players s) then ''O'' else ''X'')"

definition sit_down :: "string \<Rightarrow> string \<Rightarrow> TttState \<Rightarrow> TttState" where
  "sit_down sid name s =
     (let s1 = s\<lparr>players := AList.update sid \<lparr>symbol = free_symbol s, player_name = name\<rparr> (players s)\<rparr>
      in if length (players s1) = 2 then s1\<lparr>status := ''playing''\<rparr> else s1)"

definition ttt_on_join ::
  "cref \<Rightarrow> json \<Rightarrow> json option \<Rightarrow> ttt_room \<Rightarrow> (ServerError, unit) result \<times> ttt_room" where
  "ttt_on_join c options auth rm =
     (let sid = session_id (store (snd rm) c);
          name = (case auth_field auth ''name'' of Some n \<Rightarrow> n | None \<Rightarrow> ''anonymous'');
          user_id = (case auth_field auth ''userId'' of Some u \<Rightarrow> u | None \<Rightarrow> [])
      in case stale_session c user_id (snd rm) of
          Some old_sid \<Rightarrow>
            (Inr (), on_ctx (\<lambda>ctx.
               let ctx1 = (case get_client old_sid ctx of
                             Some c' \<Rightarrow> on_client c' (client_leave (Some MATCHMAKE_EXPIRED) (Some ''session moved'')) ctx
                           | None \<Rightarrow> ctx)
               in system_text (name @ '' rejoined'')
                    (state_mut (take_over old_sid sid) (remove_client old_sid ctx1))) rm)
        | None \<Rightarrow>
            (case ctx_state (snd rm) of
               None \<Rightarrow> (Inr (), rm)
             | Some s \<Rightarrow>
                 (Inr (), on_ctx (\<lambda>ctx. system_text (name @ '' joined as '' @ free_symbol s)
                            (state_mut (sit_down sid name) ctx)) rm)))"

definition ttt_on_drop :: "cref \<Rightarrow> nat \<Rightarrow> ttt_room \<Rightarrow> ttt_room" where
  "ttt_on_drop c code rm =
     on_ctx (\<lambda>ctx. system_text (''opponent disconnected'' @ ellipsis)
       (snd (allow_reconnection c (Some (from_secs 60)) ctx))) rm"

definition ttt_on_reconnect :: "cref \<Rightarrow> ttt_room \<Rightarrow> ttt_room" where
  "ttt_on_reconnect c rm = on_ctx (system_text ''opponent reconnected'') rm"

definition stand_up :: "string \<Rightarrow> TttState \<Rightarrow> TttState" where
  "stand_up sid s = ttt_reset (s\<lparr>players := AList.delete sid (players s)\<rparr>)"

definition ttt_on_leave :: "cref \<Rightarrow> nat \<Rightarrow> ttt_room \<Rightarrow> ttt_room" where
  "ttt_on_leave c code rm =
     (let sid = session_id (store (snd rm) c)
      in case ctx_state (snd rm) of
          None \<Rightarrow> rm
        | Some s \<Rightarrow>
            on_ctx (\<lambda>ctx. system_text
              ((case map_of (players s) sid of Some p \<Rightarrow> player_name p | None \<Rightarrow> []) @ '' left the game'')
              (state_mut (stand_up sid) ctx)) rm)"

definition ttt_msg_run ::
  "TttHandler \<Rightarrow> cref \<Rightarrow> json \<Rightarrow> ttt_room \<Rightarrow> (ServerError, unit) result \<times> ttt_room" where
  "ttt_msg_run h c payload rm =
     (case h of
        TttMove \<Rightarrow> (case as_u64 payload of Some cell \<Rightarrow> on_move c cell rm | None \<Rightarrow> (Inr (), rm))
      | TttChat \<Rightarrow> (case as_str payload of Some text \<Rightarrow> on_chat c text rm | None \<Rightarrow> (Inr (), rm))
      | TttRematch \<Rightarrow> on_rematch rm)"

text \<open>The deserialized field of a message goes to its handler.\<close>

definition ttt_hooks :: "TttEnv \<Rightarrow> (unit, TttState, unit, TttHandler) RoomHooks" where
  "ttt_hooks env =
     default_hooks\<lparr>on_create := ttt_on_create env, on_restore := ttt_on_restore env, on_auth := ttt_on_auth env,
       on_join := ttt_on_join, on_drop := ttt_on_drop, on_reconnect := ttt_on_reconnect,
       on_leave := ttt_on_leave,
       msg_decode := (\<lambda>h v. case h of
          TttMove \<Rightarrow> map_sum id (\<lambda>n. jint (int n)) (move_msg env v)
        | TttChat \<Rightarrow> map_sum id JStr (chat_msg env v)
        | TttRematch \<Rightarrow> Inr v),
       msg_run := ttt_msg_run\<rparr>"

section \<open>The contract of room types\<close>

lemma wf_player_ser [simp]: "wf_json (player_ser p)"
  by (simp add: player_ser_def wf_obj_def sorted_map_def)

lemma wf_ser_ttt [simp]: "wf_ser \<lparr>erased_value = v, erased_ser = ttt_ser, erased_de = de\<rparr>"
  by (auto simp: wf_ser_def ttt_ser_def wf_obj_def sorted_map_def split: option.split)

lemmas ttt_hook_defs = ttt_on_create_def ttt_on_restore_def ttt_on_auth_def ttt_on_join_def ttt_on_drop_def
  ttt_on_reconnect_def ttt_on_leave_def ttt_msg_run_def on_move_def on_chat_def on_rematch_def system_text_def

interpretation ttt: room_type "ttt_hooks env" for env
  by unfold_locales
    (auto simp: ttt_hooks_def default_hooks_def ttt_hook_defs on_ctx_def Let_def
      intro!: api_rules split: option.split sum.split prod.split TttHandler.split)

section \<open>The rules of the game\<close>

text \<open>
  A legal position: nine cells; the marks are balanced for whose turn it is, one mark more
  for the last mover once the game is over; a running game is undecided, a finished one has
  the winner that is on the board; a waiting room has an empty board. Two players have one
  symbol each.
\<close>

definition marks :: "string \<Rightarrow> string list \<Rightarrow> nat" where
  "marks x b = length (filter (\<lambda>c. c = x) b)"

definition seats_ok :: "(string \<times> PlayerInfo) list \<Rightarrow> bool" where
  "seats_ok ps \<longleftrightarrow> distinct (map fst ps) \<and> length ps \<le> 2 \<and> distinct (map (symbol \<circ> snd) ps)
     \<and> symbol ` snd ` set ps \<subseteq> {''X'', ''O''}"

definition legal :: "TttState \<Rightarrow> bool" where
  "legal s \<longleftrightarrow> seats_ok (players s) \<and> length (board s) = 9 \<and> set (board s) \<subseteq> {[], ''X'', ''O''} \<and> turn s \<in> {''X'', ''O''}
     \<and> (if status s = ''playing'' then length (players s) = 2 \<and> winner s = None \<and> check_winner (board s) = None
          \<and> marks ''X'' (board s) = marks ''O'' (board s) + (if turn s = ''O'' then 1 else 0)
        else if status s = ''finished'' then length (players s) = 2 \<and> winner s \<noteq> None \<and> winner s = check_winner (board s)
          \<and> marks ''X'' (board s) = marks ''O'' (board s) + (if turn s = ''X'' then 1 else 0)
        else status s = ''waiting'' \<and> length (players s) < 2 \<and> winner s = None \<and> turn s = ''X'' \<and> board s = replicate 9 [])"

lemma empty_undecided: "check_winner (replicate 9 []) = None"
  by code_simp

lemma legal_new: "legal ttt_new"
  by (simp add: legal_def ttt_new_def seats_ok_def)

lemma legal_reset: "legal s \<Longrightarrow> seats_ok ps \<Longrightarrow> legal (ttt_reset (s\<lparr>players := ps\<rparr>))"
  by (auto simp: legal_def ttt_reset_def empty_undecided marks_def seats_ok_def)

lemma length_filter_update:
  "i < length xs \<Longrightarrow> length (filter P (xs[i := y])) + (if P (xs ! i) then 1 else 0)
     = length (filter P xs) + (if P y then 1 else 0)"
proof (induction xs arbitrary: i)
  case (Cons a xs)
  show ?case
  proof (cases i)
    case (Suc j)
    then show ?thesis using Cons.IH [of j] Cons.prems by (auto split: if_splits)
  qed simp
qed simp

lemma marks_update:
  "i < length b \<Longrightarrow> b ! i = [] \<Longrightarrow> y \<noteq> [] \<Longrightarrow> x \<noteq> [] \<Longrightarrow> marks x (b[i := y]) = marks x b + (if x = y then 1 else 0)"
  using length_filter_update [of i b "\<lambda>c. c = x" y] by (auto simp: marks_def)

lemma legal_play:
  assumes "legal s" and "play sid cell s = Inr (s', text)"
  shows "legal s' \<and> players s' = players s \<and> (\<exists>p. map_of (players s) sid = Some p \<and> symbol p = turn s
    \<and> cell < 9 \<and> board s ! cell = [] \<and> board s' = (board s)[cell := turn s])"
proof -
  obtain p where p: "status s = ''playing''" "map_of (players s) sid = Some p" "symbol p = turn s" "cell < 9" "board s ! cell = []"
    using assms(2) by (auto simp: play_def split: if_splits option.splits)
  have b: "length (board s) = 9" "set (board s) \<subseteq> {[], ''X'', ''O''}" "turn s \<in> {''X'', ''O''}"
    using assms(1) by (simp_all add: legal_def)
  have m: "marks x ((board s)[cell := turn s]) = marks x (board s) + (if x = turn s then 1 else 0)" if "x \<noteq> []" for x
    using marks_update [of cell "board s" "turn s" x] p(4,5) b that by auto
  have set: "set ((board s)[cell := turn s]) \<subseteq> {[], ''X'', ''O''}"
    using set_update_subset_insert [of "board s" cell "turn s"] b by auto
  have s': "s' = (case check_winner ((board s)[cell := turn s]) of
        Some w \<Rightarrow> s\<lparr>board := (board s)[cell := turn s], status := ''finished'', winner := Some w\<rparr>
      | None \<Rightarrow> s\<lparr>board := (board s)[cell := turn s], turn := (if turn s = ''X'' then ''O'' else ''X'')\<rparr>)"
    using assms(2) p by (auto simp: play_def Let_def split: option.splits if_splits)
  have "legal s'"
    using assms(1) p(1) b(3) set m [of "''X''"] m [of "''O''"]
    by (cases "check_winner ((board s)[cell := turn s])") (auto simp: legal_def s')
  moreover have "players s' = players s" "board s' = (board s)[cell := turn s]"
    by (simp_all add: s' split: option.split)
  ultimately show ?thesis using p by blast
qed

lemma seats_shapes:
  assumes "seats_ok ps"
  obtains "ps = []" | a where "ps = [a]" | a b where "ps = [a, b]"
proof -
  have "length ps \<le> 2" using assms by (simp add: seats_ok_def)
  then show thesis using that by (cases ps; cases "tl ps"; auto simp: Suc_le_eq)
qed

lemma seats_delete:
  assumes "seats_ok ps" shows "seats_ok (AList.delete sid ps)"
  by (rule seats_shapes [OF assms]) (use assms in \<open>auto simp: seats_ok_def AList.delete_eq\<close>)

lemma seats_take_over:
  assumes "seats_ok ps" and "map_of ps old = Some p" and "map_of ps sid = None"
  shows "seats_ok (AList.update sid p (AList.delete old ps)) \<and> length (AList.update sid p (AList.delete old ps)) = length ps"
  by (rule seats_shapes [OF assms(1)]) (use assms in \<open>auto simp: seats_ok_def split: if_splits\<close>)

lemma seats_sit_down:
  assumes "seats_ok (players s)" and "map_of (players s) sid = None" and "length (players s) < 2"
  shows "seats_ok (players (sit_down sid name s)) \<and> length (players (sit_down sid name s)) = Suc (length (players s))"
proof -
  consider "players s = []" | a where "players s = [a]"
    using assms(3) by (cases "players s"; cases "tl (players s)"; auto)
  then show ?thesis using assms(1,2)
    by cases (auto simp: seats_ok_def sit_down_def free_symbol_def Let_def split: if_splits)
qed

text \<open>
  The life of the room after its creation: messages of anybody, joins of new sessions into a
  free seat (or taking one over), drops, reconnections, leaves, and whatever else the actor
  does without touching the state.
\<close>

inductive ttt_run :: "TttEnv \<Rightarrow> ttt_room \<Rightarrow> bool" for env where
  created: "on_create (ttt_hooks env) options rm = (Inr u, rm') \<Longrightarrow> ttt_run env rm'"
| message: "ttt_run env rm \<Longrightarrow> msg_run (ttt_hooks env) h c payload rm = (res, rm') \<Longrightarrow> ttt_run env rm'"
| joined: "ttt_run env rm \<Longrightarrow> ctx_state (snd rm) = Some s \<Longrightarrow> map_of (players s) (session_id (store (snd rm) c)) = None
    \<Longrightarrow> length (players s) < 2
      \<or> stale_session c (case auth_field auth ''userId'' of Some x \<Rightarrow> x | None \<Rightarrow> []) (snd rm) \<noteq> None
    \<Longrightarrow> on_join (ttt_hooks env) c options auth rm = (res, rm') \<Longrightarrow> ttt_run env rm'"
| dropped: "ttt_run env rm \<Longrightarrow> ttt_run env (on_drop (ttt_hooks env) c code rm)"
| reconnected: "ttt_run env rm \<Longrightarrow> ttt_run env (on_reconnect (ttt_hooks env) c rm)"
| left: "ttt_run env rm \<Longrightarrow> ttt_run env (on_leave (ttt_hooks env) c code rm)"
| other: "ttt_run env rm \<Longrightarrow> ctx_state (snd rm') = ctx_state (snd rm) \<Longrightarrow> ttt_run env rm'"

lemmas ttt_defs = ttt_hooks_def default_hooks_def ttt_hook_defs on_ctx_def

lemma legal_seats: "legal s \<Longrightarrow> seats_ok (players s)"
  by (simp add: legal_def)

lemma legal_players:
  "legal s \<Longrightarrow> seats_ok ps \<Longrightarrow> length ps = length (players s) \<Longrightarrow> legal (s\<lparr>players := ps\<rparr>)"
  unfolding legal_def by (cases "status s = ''playing''"; cases "status s = ''finished''") auto

lemma legal_take_over: "legal s \<Longrightarrow> map_of (players s) sid = None \<Longrightarrow> legal (take_over old sid s)"
  using seats_take_over [of "players s" old _ sid] legal_seats [of s]
  by (cases "map_of (players s) old") (simp_all add: take_over_def legal_players)

lemma legal_sit_down:
  assumes "legal s" and "map_of (players s) sid = None" and "length (players s) < 2"
  shows "legal (sit_down sid name s)"
proof -
  have w: "status s = ''waiting''" "winner s = None" "turn s = ''X''" "board s = replicate 9 []" "seats_ok (players s)"
    using assms(1,3) by (auto simp: legal_def split: if_splits)
  note n = seats_sit_down [OF w(5) assms(2,3)]
  define ps where "ps = AList.update sid \<lparr>symbol = free_symbol s, player_name = name\<rparr> (players s)"
  have e: "sit_down sid name s = s\<lparr>players := ps, status := (if length ps = 2 then ''playing'' else status s)\<rparr>"
    by (cases s) (simp add: sit_down_def ps_def Let_def)
  then have "seats_ok ps" "length ps = Suc (length (players s))" using n [of name] by simp_all
  then show ?thesis
    using w empty_undecided assms(3) unfolding e by (cases "players s") (auto simp: legal_def marks_def)
qed

lemma legal_stand_up: "legal s \<Longrightarrow> legal (stand_up sid s)"
  unfolding stand_up_def by (rule legal_reset) (auto simp: legal_def intro: seats_delete)

text \<open>What a message of a client does to the board.\<close>

definition board_change :: "string \<Rightarrow> TttState \<Rightarrow> TttState \<Rightarrow> bool" where
  "board_change sid s s' \<longleftrightarrow> board s' = board s
     \<or> status s = ''finished'' \<and> board s' = replicate 9 []
     \<or> (\<exists>p cell. map_of (players s) sid = Some p \<and> symbol p = turn s
          \<and> cell < 9 \<and> board s ! cell = [] \<and> board s' = (board s)[cell := symbol p])"

lemma legal_message:
  assumes "msg_run (ttt_hooks env) h c payload rm = (res, rm')" and "ctx_state (snd rm) = Some s" and "legal s"
  shows "\<exists>s'. ctx_state (snd rm') = Some s' \<and> legal s' \<and> board_change (session_id (store (snd rm) c)) s s'"
proof -
  let ?sid = "session_id (store (snd rm) c)"
  let ?ok = "\<lambda>rm'. \<exists>s'. ctx_state (snd rm') = Some s' \<and> legal s' \<and> board_change ?sid s s'"
  have r: "legal (ttt_reset s)" using legal_reset [of s "players s"] legal_seats [OF assms(3)] assms(3) by simp
  have same: "?ok rm" using assms(2,3) by (auto simp: board_change_def)
  have "?ok (snd (on_move c cell rm))" for cell
  proof (cases "play ?sid cell s")
    case (Inl m)
    then show ?thesis using same assms(2) by (simp add: on_move_def)
  next
    case (Inr r)
    obtain s' t where r: "r = (s', t)" by (cases r)
    have "ctx_state (snd (snd (on_move c cell rm))) = Some s'"
      using Inr assms(2) by (simp add: r on_move_def on_ctx_def system_text_def Let_def split: option.split)
    then show ?thesis
      using legal_play [OF assms(3) Inr [unfolded r]] by (auto simp: board_change_def)
  qed
  moreover have "?ok (snd (on_rematch rm))"
    using assms(2,3) r same by (auto simp: on_rematch_def on_ctx_def system_text_def board_change_def ttt_reset_def)
  moreover have "?ok (snd (on_chat c t rm))" for t
    using same by (simp add: on_chat_def on_ctx_def Let_def)
  moreover have "rm' = snd (ttt_msg_run h c payload rm)" using assms(1) by (simp add: ttt_hooks_def)
  ultimately show ?thesis
    using same by (cases h) (simp_all add: ttt_msg_run_def split: option.split)
qed

lemma ttt_run_legal: "ttt_run env rm \<Longrightarrow> \<exists>s. ctx_state (snd rm) = Some s \<and> legal s"
proof (induction rule: ttt_run.induct)
  case (created options rm u rm')
  then show ?case using legal_new by (auto simp: ttt_defs)
next
  case (message rm h c payload res rm')
  then show ?case using legal_message by blast
next
  case (joined rm s c auth options res rm')
  then have s: "legal s" by simp
  show ?case
    using joined(2-5) legal_take_over [OF s joined(3)] legal_sit_down [OF s joined(3)]
    by (auto simp: ttt_defs Let_def split: option.splits)
next
  case (left rm c code)
  then show ?case using legal_stand_up by (auto simp: ttt_defs Let_def)
qed (auto simp: ttt_defs)


definition sample_ttt_env :: TttEnv where
  "sample_ttt_env = \<lparr>ttt_de = (\<lambda>_. Inl ''no''), move_msg = (\<lambda>_. Inr 4), chat_msg = (\<lambda>_. Inr []), verify_token = (\<lambda>_. None)\<rparr>"

definition sample_ttt :: ttt_room where
  "sample_ttt = ((), room_context_new ''r'' ''ttt'' ''p'' driver_new presence_new [] [] None 0 0 show_nat 0
     (\<lambda>_. client_new 0 [] ''s'') 1)"


end
