(* ===== verification/Command.thy ===== *)
theory Command
  imports Prelude "HOL-Library.Multiset"
begin

text \<open>
  The command pattern, \<^verbatim>\<open>crates/colyseus/src/command.rs\<close>: a queue of commands that
  a room runs to completion, where a running command may queue more. \<open>'x\<close> is the room and its
  context; what a command does to them and to the dispatcher is an argument of the
  operations, as the trait \<^verbatim>\<open>Command\<close> has it. Draining may go on for ever in general,
  so its result is an option; it ends for commands that only queue commands of a lower rank,
  which is the contract of the locale \<open>command_system\<close>.
\<close>

section \<open>The dispatcher\<close>

record 'c Dispatcher =
  cmd_queue :: "'c list"
  stopped :: bool

type_synonym ('x, 'c) execute = "'c \<Rightarrow> 'x \<times> 'c Dispatcher \<Rightarrow> 'x \<times> 'c Dispatcher"

definition dispatcher_new :: "'c Dispatcher" where
  "dispatcher_new = \<lparr>cmd_queue = [], stopped = False\<rparr>"

definition enqueue :: "'c \<Rightarrow> 'c Dispatcher \<Rightarrow> 'c Dispatcher" where
  "enqueue c d = (if \<not> stopped d then d\<lparr>cmd_queue := cmd_queue d @ [c]\<rparr> else d)"

partial_function (option) drain ::
  "('x, 'c) execute \<Rightarrow> 'x \<times> 'c Dispatcher \<Rightarrow> ('x \<times> 'c Dispatcher) option" where
  "drain execute s =
     (if \<not> stopped (snd s) then
        (case cmd_queue (snd s) of
           [] \<Rightarrow> Some s
         | c # q \<Rightarrow> drain execute (execute c (fst s, (snd s)\<lparr>cmd_queue := q\<rparr>)))
      else Some s)"

definition stop :: "'c Dispatcher \<Rightarrow> 'c Dispatcher" where
  "stop d = d\<lparr>stopped := True, cmd_queue := []\<rparr>"

definition is_running :: "'c Dispatcher \<Rightarrow> bool" where
  "is_running d \<longleftrightarrow> \<not> stopped d"

definition dispatcher_pending :: "'c Dispatcher \<Rightarrow> nat" where
  "dispatcher_pending d = length (cmd_queue d)"

text \<open>
  \<^verbatim>\<open>dispatch\<close>: while the queue drains, the room holds a fresh dispatcher in place of its
  own, which is put back at the end. \<open>get\<close> and \<open>put\<close> are \<^verbatim>\<open>dispatcher_mut\<close>.
\<close>

definition dispatch ::
  "('x, 'c) execute \<Rightarrow> ('x \<Rightarrow> 'c Dispatcher) \<Rightarrow> ('c Dispatcher \<Rightarrow> 'x \<Rightarrow> 'x) \<Rightarrow> 'c \<Rightarrow> 'x \<Rightarrow> 'x option" where
  "dispatch execute get put c x =
     map_option (\<lambda>(x', d). put d x') (drain execute (put dispatcher_new x, enqueue c (get x)))"

lemma drain_simps:
  "stopped d \<Longrightarrow> drain execute (x, d) = Some (x, d)"
  "cmd_queue d = [] \<Longrightarrow> drain execute (x, d) = Some (x, d)"
  "\<not> stopped d \<Longrightarrow> cmd_queue d = c # q \<Longrightarrow> drain execute (x, d) = drain execute (execute c (x, d\<lparr>cmd_queue := q\<rparr>))"
  by (subst drain.simps, simp)+

section \<open>What a command may do to the queue\<close>

inductive uses_queue :: "('c \<Rightarrow> bool) \<Rightarrow> 'c Dispatcher \<Rightarrow> 'c Dispatcher \<Rightarrow> bool" for P where
  idle: "uses_queue P d d"
| enqueues: "uses_queue P d d' \<Longrightarrow> P c \<Longrightarrow> uses_queue P d (enqueue c d')"
| stops: "uses_queue P d d' \<Longrightarrow> uses_queue P d (stop d')"

text \<open>Commands run in the order they were queued: new ones go behind the waiting ones.\<close>

lemma uses_queue_grows:
  assumes "uses_queue P d d'"
  shows "stopped d \<and> d' = d\<lparr>cmd_queue := cmd_queue d'\<rparr> \<and> cmd_queue d' \<in> {cmd_queue d, []}
    \<or> stopped d' \<and> cmd_queue d' = []
    \<or> \<not> stopped d \<and> \<not> stopped d' \<and> (\<exists>cs. cmd_queue d' = cmd_queue d @ cs \<and> (\<forall>c \<in> set cs. P c))"
  using assms
proof (induction rule: uses_queue.induct)
  case (enqueues d' c)
  then show ?case by (cases "stopped d'") (auto simp: enqueue_def)
qed (auto simp: stop_def)

text \<open>
  A run: the commands executed, the commands queued meanwhile, the state reached. It goes on
  with the head of the queue until the dispatcher is stopped.
\<close>

inductive runs ::
  "('x, 'c) execute \<Rightarrow> 'x \<times> 'c Dispatcher \<Rightarrow> 'c list \<Rightarrow> 'c list \<Rightarrow> 'x \<times> 'c Dispatcher \<Rightarrow> bool" for execute where
  nothing: "runs execute s [] [] s"
| runs_next: "\<not> stopped d \<Longrightarrow> cmd_queue d = c # q \<Longrightarrow> execute c (x, d\<lparr>cmd_queue := q\<rparr>) = (x1, d1)
    \<Longrightarrow> \<not> stopped d1 \<Longrightarrow> cmd_queue d1 = q @ new \<Longrightarrow> runs execute (x1, d1) cs ns s'
    \<Longrightarrow> runs execute (x, d) (c # cs) (new @ ns) s'"
| runs_halt: "\<not> stopped d \<Longrightarrow> cmd_queue d = c # q \<Longrightarrow> execute c (x, d\<lparr>cmd_queue := q\<rparr>) = (x1, d1)
    \<Longrightarrow> stopped d1 \<Longrightarrow> runs execute (x, d) [c] [] (x1, d1)"

lemma runs_in_order:
  "runs execute s cs ns s' \<Longrightarrow> \<not> stopped (snd s') \<Longrightarrow> cs @ cmd_queue (snd s') = cmd_queue (snd s) @ ns"
  by (induction rule: runs.induct) auto

locale command_system =
  fixes execute :: "('x, 'c) execute" and rank :: "'c \<Rightarrow> nat" and inv :: "'x \<Rightarrow> bool"
  assumes queues_lower: "uses_queue (\<lambda>c'. rank c' < rank c) d (snd (execute c (x, d)))"
    and keeps_inv: "inv x \<Longrightarrow> inv (fst (execute c (x, d)))"
begin

text \<open>The bag of the ranks in the queue gets smaller with every command.\<close>

definition load :: "'c Dispatcher \<Rightarrow> nat multiset" where
  "load d = mset (map rank (cmd_queue d))"

lemma load_decreases:
  assumes "\<not> stopped d" and "cmd_queue d = c # q" and "execute c (x, d\<lparr>cmd_queue := q\<rparr>) = (x', d')"
  shows "(load d', load d) \<in> mult {(m, n). m < n}"
proof -
  have "uses_queue (\<lambda>c'. rank c' < rank c) (d\<lparr>cmd_queue := q\<rparr>) d'"
    using queues_lower [of c "d\<lparr>cmd_queue := q\<rparr>" x] assms(3) by simp
  from uses_queue_grows [OF this]
  consider "cmd_queue d' = []" | cs where "cmd_queue d' = q @ cs" "\<forall>c' \<in> set cs. rank c' < rank c"
    using assms(1) by auto
  then show ?thesis
  proof cases
    case 1
    then show ?thesis using one_step_implies_mult [of "load d" "{#}" "{(m, n). m < n}" "{#}"] assms(2)
      by (simp add: load_def)
  next
    case 2
    have "(mset (map rank q) + mset (map rank cs), mset (map rank q) + {#rank c#}) \<in> mult {(m, n). m < n}"
      by (rule one_step_implies_mult) (use 2(2) in auto)
    then show ?thesis using 2(1) assms(2) by (simp add: load_def)
  qed
qed

text \<open>Draining returns, with nothing left to run.\<close>

lemma drain_returns:
  assumes "stopped d \<longrightarrow> cmd_queue d = []" and "inv x"
  shows "\<exists>x' d' cs ns. drain execute (x, d) = Some (x', d') \<and> cmd_queue d' = [] \<and> inv x'
    \<and> (stopped d \<longrightarrow> stopped d') \<and> runs execute (x, d) cs ns (x', d')"
  using assms
proof (induction "load d" arbitrary: x d rule: wf_induct_rule [OF wf_mult [OF wf_less]])
  case (1 d x)
  show ?case
  proof (cases "stopped d \<or> cmd_queue d = []")
    case True
    then have "drain execute (x, d) = Some (x, d)" "cmd_queue d = []" using 1(2) by (auto simp: drain_simps)
    moreover have "runs execute (x, d) [] [] (x, d)" by (rule nothing)
    ultimately show ?thesis
      by (intro exI [of _ x] exI [of _ d] exI [of _ "[]"] exI [of _ "[]"]) (simp add: 1(3))
  next
    case False
    then obtain c q where q: "\<not> stopped d" "cmd_queue d = c # q" by (cases "cmd_queue d") auto
    obtain x1 d1 where e: "execute c (x, d\<lparr>cmd_queue := q\<rparr>) = (x1, d1)" by (metis surj_pair)
    have "uses_queue (\<lambda>c'. rank c' < rank c) (d\<lparr>cmd_queue := q\<rparr>) d1"
      using queues_lower [of c "d\<lparr>cmd_queue := q\<rparr>" x] e by simp
    then have g: "stopped d1 \<and> cmd_queue d1 = [] \<or> \<not> stopped d1 \<and> (\<exists>new. cmd_queue d1 = q @ new)"
      using uses_queue_grows q(1) by fastforce
    have "inv x1" using keeps_inv [of x c "d\<lparr>cmd_queue := q\<rparr>"] 1(3) e by simp
    then obtain x' d' cs ns where r: "drain execute (x1, d1) = Some (x', d')" "cmd_queue d' = []" "inv x'"
      "stopped d1 \<longrightarrow> stopped d'" "runs execute (x1, d1) cs ns (x', d')"
      using 1(1) [OF load_decreases [OF q e]] g by blast
    have "\<exists>cs ns. runs execute (x, d) cs ns (x', d')"
    proof (cases "stopped d1")
      case True
      then show ?thesis using r(1) runs_halt [of d c q execute x x1 d1] q e by (auto simp: drain_simps)
    next
      case False
      then show ?thesis using runs_next [of d c q execute x x1 d1] q e r(5) g by blast
    qed
    then show ?thesis using r q(1) e by (auto simp: drain_simps(3) [OF q])
  qed
qed

lemma dispatch_returns:
  assumes "cmd_queue (get x) = []" and "\<not> stopped (get x)" and "inv (put dispatcher_new x)"
    and "\<And>d x. inv x \<Longrightarrow> inv (put d x)" and "\<And>d x. get (put d x) = d"
  shows "\<exists>x' d' cs ns. dispatch execute get put c x = Some (put d' x') \<and> cmd_queue d' = [] \<and> inv (put d' x')
    \<and> runs execute (put dispatcher_new x, enqueue c (get x)) cs ns (x', d') \<and> (stopped d' \<or> cs = c # ns)"
proof -
  have d: "cmd_queue (enqueue c (get x)) = [c]" "\<not> stopped (enqueue c (get x))"
    using assms(1,2) by (simp_all add: enqueue_def)
  then obtain x' d' cs ns where r: "drain execute (put dispatcher_new x, enqueue c (get x)) = Some (x', d')"
      "cmd_queue d' = []" "inv x'" "runs execute (put dispatcher_new x, enqueue c (get x)) cs ns (x', d')"
    using drain_returns [of "enqueue c (get x)" "put dispatcher_new x"] assms(3) by blast
  moreover have "stopped d' \<or> cs = c # ns" using runs_in_order [OF r(4)] r(2) d by auto
  ultimately show ?thesis using assms(4) by (auto simp: dispatch_def)
qed

end

text \<open>
  C29. Dispatching a command completes. If every command queues only commands of a lower rank
  (or stops the dispatcher), whatever it does to the room, then the loop that drains the
  queue returns; nothing is left in the queue; and the commands were executed exactly once
  each in the order in which they were queued, unless a command stopped the dispatcher.
\<close>

theorem dispatch_completes:
  assumes "\<forall>c d x. uses_queue (\<lambda>c'. rank c' < (rank c :: nat)) d (snd (execute c (x, d)))"
    and "cmd_queue (get x) = []" and "\<not> stopped (get x)" and "\<forall>d x. get (put d x) = d"
  shows "\<exists>x' d' cs ns. dispatch execute get put c x = Some (put d' x') \<and> cmd_queue d' = []
    \<and> runs execute (put dispatcher_new x, enqueue c (get x)) cs ns (x', d') \<and> (stopped d' \<or> cs = c # ns)"
proof -
  have sys: "command_system execute rank (\<lambda>_. True)" using assms(1) by unfold_locales auto
  show ?thesis
    using command_system.dispatch_returns [OF sys, of get x put c] assms(2-4) by simp
qed

text \<open>The room of the source's unit test: a counter, and a command that queues its predecessor.\<close>

definition add_chain :: "(int \<times> nat Dispatcher, nat) execute" where
  "add_chain n s = ((fst (fst s) + int n, snd (fst s)), if 0 < n then enqueue (n - 1) (snd s) else snd s)"

interpretation add_chain: command_system add_chain "\<lambda>n. n" "\<lambda>_. True"
  by unfold_locales (auto simp: add_chain_def intro: uses_queue.intros)

theorem dispatch_completes_witness:
  "\<exists>x' d' cs ns. dispatch add_chain snd (\<lambda>d x. (fst x, d)) 3 (0, dispatcher_new) = Some (fst x', d')
    \<and> cmd_queue d' = [] \<and> (stopped d' \<or> cs = 3 # ns)"
proof -
  have "\<forall>c d x. uses_queue (\<lambda>c'. c' < c) d (snd (add_chain c (x, d)))"
    by (auto simp: add_chain_def intro: uses_queue.intros)
  from dispatch_completes [OF this, of snd "(0, dispatcher_new)" "\<lambda>d x. (fst x, d)" 3]
  show ?thesis by (auto simp: dispatcher_new_def)
qed

text \<open>The counter of that test ends at 3 + 2 + 1.\<close>

lemma add_chain_six: "dispatch add_chain snd (\<lambda>d x. (fst x, d)) 3 (0, dispatcher_new) = Some (6, dispatcher_new)"
  by (simp add: dispatch_def dispatcher_new_def enqueue_def add_chain_def drain.simps numeral_3_eq_3)

end
