(* ===== verification/Trivia_Commands.thy ===== *)
theory Trivia_Commands
  imports Room_Rules Command
begin

text \<open>
  The trivia demo, \<^verbatim>\<open>demos/trivia/server/src\<close>: its public and private state
  (\<^verbatim>\<open>state.rs\<close>) and the commands that make up the game (\<^verbatim>\<open>commands/lobby.rs\<close>,
  \<^verbatim>\<open>commands/round.rs\<close>), run by the dispatcher of theory Command. The background task
  that asks a language model for questions and the publisher of results are outside: a
  command records what it hands to them, and the questions come back as a command. A
  \<^verbatim>\<open>HashMap\<close> is an association list in its iteration order. The commands unwrap the
  state that \<^verbatim>\<open>on_create\<close> has set; without one they read the initial state.
\<close>

section \<open>State\<close>

definition TOTAL_ROUNDS :: nat where "TOTAL_ROUNDS = 3"
definition ROUND_TIME :: duration where "ROUND_TIME = from_secs 20"
definition REVEAL_BREAK :: duration where "REVEAL_BREAK = from_secs 5"
definition MAX_PLAYERS :: nat where "MAX_PLAYERS = 4"
definition MAX_SPECTATORS :: nat where "MAX_SPECTATORS = 10"
definition RECENT_LIMIT :: nat where "RECENT_LIMIT = 200"

definition points_for :: "string \<Rightarrow> int" where
  "points_for d = (if d = ''easy'' then 10 else if d = ''medium'' then 20 else if d = ''hard'' then 30 else 10)"

record Question =
  q_text :: string
  q_choices :: "string list"
  answer_index :: nat

record PlayerState =
  user_id :: string
  p_name :: string
  ready :: bool
  score :: int
  correct_count :: nat
  answered :: bool
  choice :: "nat option"

definition player_new :: "string \<Rightarrow> string \<Rightarrow> PlayerState" where
  "player_new uid name =
     \<lparr>user_id = uid, p_name = name, ready = False, score = 0, correct_count = 0, answered = False, choice = None\<rparr>"

record SpectatorState =
  s_name :: string

record QuestionPublic =
  qp_text :: string
  qp_choices :: "string list"

record TriviaState =
  difficulty :: string
  category :: string
  phase :: string
  round_no :: nat
  total_rounds :: nat
  owner :: "string option"
  t_players :: "(string \<times> PlayerState) list"
  spectators :: "(string \<times> SpectatorState) list"
  question :: "QuestionPublic option"
  correct_index :: "nat option"
  phase_ends_at :: "millis option"
  answers_in :: nat
  winners :: "string list"
  has_password :: bool

definition trivia_new :: "string \<Rightarrow> string \<Rightarrow> TriviaState" where
  "trivia_new d cat =
     \<lparr>difficulty = d, category = cat, phase = ''lobby'', round_no = 0, total_rounds = TOTAL_ROUNDS, owner = None,
      t_players = [], spectators = [], question = None, correct_index = None, phase_ends_at = None,
      answers_in = 0, winners = [], has_password = False\<rparr>"

definition display_name :: "string \<Rightarrow> TriviaState \<Rightarrow> string option" where
  "display_name sid s =
     (case map_of (t_players s) sid of
        Some p \<Rightarrow> Some (p_name p)
      | None \<Rightarrow> map_option s_name (map_of (spectators s) sid))"

record TriviaInternal =
  password :: "string option"
  secret_index :: "nat option"
  round_answers :: "(string \<times> nat) list"
  pending_questions :: "(nat \<times> Question) list"
  batch_in_flight :: bool
  needed_round :: "nat option"

definition internal_default :: TriviaInternal where
  "internal_default =
     \<lparr>password = None, secret_index = None, round_answers = [], pending_questions = [],
      batch_in_flight = False, needed_round = None\<rparr>"

section \<open>The room value\<close>

datatype Cmd =
    JoinCmd string string string bool
  | LeaveCmd string
  | ToggleReady string
  | ChatCmd string string
  | Restart string
  | StartGame cref
  | AnswerCmd string nat
  | GenerateQuestions
  | QuestionsReady "Question list"
  | StartRound nat
  | EndRound
  | Advance
  | FinishGame

text \<open>The closures of the room: message handlers, the delivery of questions, the two timers.\<close>

datatype TriviaHandler =
    MsgReady | MsgStart | MsgAnswer | MsgChat | MsgRestart
  | DeliverQuestions "Question list"
  | RoundTimer | BreakTimer

text \<open>
  \<open>asked\<close> is the cache of recent questions of the language model client, \<open>llm_tasks\<close> the
  batches requested from it, \<open>published\<close> what was handed to the publisher of results.
\<close>

record TriviaRoom =
  dispatcher :: "Cmd Dispatcher"
  round_timer :: "nat option"
  break_timer :: "nat option"
  asked :: "string list"
  llm_tasks :: "(string \<times> string \<times> nat) list"
  published :: "json list"

type_synonym trivia_ctx = "(TriviaState, TriviaInternal, TriviaHandler) RoomContext"
type_synonym trivia_room = "(TriviaRoom, TriviaState, TriviaInternal, TriviaHandler) room"

definition trivia_room_new :: TriviaRoom where
  "trivia_room_new =
     \<lparr>dispatcher = dispatcher_new, round_timer = None, break_timer = None, asked = [], llm_tasks = [], published = []\<rparr>"

definition the_state :: "trivia_ctx \<Rightarrow> TriviaState" where
  "the_state ctx = (case ctx_state ctx of Some s \<Rightarrow> s | None \<Rightarrow> trivia_new ''easy'' [])"

definition the_internal :: "trivia_ctx \<Rightarrow> TriviaInternal" where
  "the_internal ctx = (case ctx_internal ctx of Some i \<Rightarrow> i | None \<Rightarrow> internal_default)"

definition sync_meta :: "trivia_ctx \<Rightarrow> trivia_ctx" where
  "sync_meta ctx =
     (let s = the_state ctx
      in set_metadata (JObj [(''hasPassword'', JBool (has_password s)), (''phase'', JStr (phase s)),
           (''players'', jint (int (length (t_players s)))), (''round'', jint (int (round_no s))),
           (''spectators'', jint (int (length (spectators s))))]) ctx)"

section \<open>Lobby commands\<close>

text \<open>Session takeover: the locked answer and the player entry move to the new session.\<close>

definition move_answer :: "string \<Rightarrow> string \<Rightarrow> TriviaInternal \<Rightarrow> TriviaInternal" where
  "move_answer old sid i =
     (case map_of (round_answers i) old of
        Some a \<Rightarrow> i\<lparr>round_answers := AList.update sid a (AList.delete old (round_answers i))\<rparr>
      | None \<Rightarrow> i)"

definition move_player :: "string \<Rightarrow> string \<Rightarrow> TriviaState \<Rightarrow> TriviaState" where
  "move_player old sid s =
     (let s1 = (case map_of (t_players s) old of
                  Some p \<Rightarrow> s\<lparr>t_players := AList.update sid p (AList.delete old (t_players s))\<rparr>
                | None \<Rightarrow> s)
      in if owner s1 = Some old then s1\<lparr>owner := Some sid\<rparr> else s1)"

definition add_player :: "string \<Rightarrow> string \<Rightarrow> string \<Rightarrow> TriviaState \<Rightarrow> TriviaState" where
  "add_player sid name uid s =
     s\<lparr>spectators := AList.delete sid (spectators s),
       owner := (case owner s of None \<Rightarrow> Some sid | Some x \<Rightarrow> Some x),
       t_players := AList.update sid (player_new uid name) (t_players s)\<rparr>"

definition add_spectator :: "string \<Rightarrow> string \<Rightarrow> TriviaState \<Rightarrow> TriviaState" where
  "add_spectator sid name s = s\<lparr>spectators := AList.update sid \<lparr>s_name = name\<rparr> (spectators s)\<rparr>"

definition stale_player :: "string \<Rightarrow> string \<Rightarrow> TriviaState \<Rightarrow> string option" where
  "stale_player sid uid s =
     (if uid = [] then None
      else map_option fst (find (\<lambda>(sid', p). user_id p = uid \<and> sid' \<noteq> sid) (t_players s)))"

definition exec_join ::
  "string \<Rightarrow> string \<Rightarrow> string \<Rightarrow> bool \<Rightarrow> trivia_room \<times> Cmd Dispatcher \<Rightarrow> trivia_room \<times> Cmd Dispatcher" where
  "exec_join sid name uid wants_player = (\<lambda>((r, ctx), d).
     case stale_player sid uid (the_state ctx) of
       Some old \<Rightarrow>
         let ctx1 = (case get_client old ctx of
                       Some c \<Rightarrow> on_client c (client_leave (Some MATCHMAKE_EXPIRED)
                                   (Some ''session moved to a new connection'')) ctx
                     | None \<Rightarrow> ctx);
             ctx2 = internal_mut (move_answer old sid) (remove_client old ctx1);
             ctx3 = state_mut (move_player old sid) ctx2
         in ((r, sync_meta (system_text (name @ '' rejoined'') ctx3)), d)
     | None \<Rightarrow>
         let s = the_state ctx;
             can_play = (phase s = ''lobby'' \<and> length (t_players s) < MAX_PLAYERS)
         in if wants_player \<and> can_play then
              let ctx1 = state_mut (add_player sid name uid) ctx;
                  ctx2 = system_text (name @ '' joined the game'') ctx1
              in ((r, sync_meta ctx2),
                  if length (t_players (the_state ctx1)) = 1 then enqueue GenerateQuestions d else d)
            else if length (spectators s) < MAX_SPECTATORS then
              ((r, sync_meta (system_text (name @ '' is spectating'') (state_mut (add_spectator sid name) ctx))), d)
            else ((r, sync_meta ctx), d))"

definition drop_member :: "string \<Rightarrow> TriviaState \<Rightarrow> TriviaState" where
  "drop_member sid s =
     (let ps = AList.delete sid (t_players s)
      in s\<lparr>t_players := ps, spectators := AList.delete sid (spectators s),
           owner := (if owner s = Some sid then (case ps of [] \<Rightarrow> None | (k, _) # _ \<Rightarrow> Some k) else owner s)\<rparr>)"

definition exec_leave :: "string \<Rightarrow> trivia_room \<times> Cmd Dispatcher \<Rightarrow> trivia_room \<times> Cmd Dispatcher" where
  "exec_leave sid = (\<lambda>((r, ctx), d).
     let s = the_state ctx;
         name = (case display_name sid s of Some n \<Rightarrow> n | None \<Rightarrow> []);
         was_player = (map_of (t_players s) sid \<noteq> None);
         s' = drop_member sid s;
         players_left = length (t_players s');
         in_game = (phase s' \<in> {''question'', ''reveal'', ''generating''});
         ctx1 = sync_meta (system_text (name @ '' left'') (state_mut (drop_member sid) ctx));
         all_answered = (phase s' = ''question'' \<and> t_players s' \<noteq> [] \<and> players_left \<le> answers_in s');
         d1 = (if was_player \<and> all_answered then enqueue EndRound d else d);
         d2 = (if was_player \<and> players_left = 0 \<and> in_game then enqueue FinishGame d1 else d1)
     in ((r, ctx1), d2))"

definition toggle :: "string \<Rightarrow> TriviaState \<Rightarrow> TriviaState" where
  "toggle sid s =
     (if phase s \<noteq> ''lobby'' then s
      else s\<lparr>t_players := AList.map_entry sid (\<lambda>p. p\<lparr>ready := \<not> ready p\<rparr>) (t_players s)\<rparr>)"

definition exec_toggle :: "string \<Rightarrow> trivia_room \<times> Cmd Dispatcher \<Rightarrow> trivia_room \<times> Cmd Dispatcher" where
  "exec_toggle sid = (\<lambda>((r, ctx), d). ((r, state_mut (toggle sid) ctx), d))"

definition exec_chat :: "string \<Rightarrow> string \<Rightarrow> trivia_room \<times> Cmd Dispatcher \<Rightarrow> trivia_room \<times> Cmd Dispatcher" where
  "exec_chat sid txt = (\<lambda>((r, ctx), d).
     let name = (case Option.bind (ctx_state ctx) (display_name sid) of Some n \<Rightarrow> n | None \<Rightarrow> ''???'')
     in ((r, broadcast (Str ''chat'') (JObj [(''from'', JStr name), (''text'', JStr (take_chars 300 txt))]) ctx), d))"

definition back_to_lobby :: "TriviaState \<Rightarrow> TriviaState" where
  "back_to_lobby s =
     s\<lparr>phase := ''lobby'', round_no := 0, question := None, correct_index := None, winners := [],
       t_players := map (\<lambda>(k, p). (k, player_new (user_id p) (p_name p))) (t_players s)\<rparr>"

definition dash :: string where
  "dash = [CHR 0xE2, CHR 0x80, CHR 0x94]"

definition exec_restart :: "string \<Rightarrow> trivia_room \<times> Cmd Dispatcher \<Rightarrow> trivia_room \<times> Cmd Dispatcher" where
  "exec_restart sid = (\<lambda>((r, ctx), d).
     if phase (the_state ctx) \<noteq> ''finished'' \<or> owner (the_state ctx) \<noteq> Some sid then ((r, ctx), d)
     else
       let ctx1 = state_mut back_to_lobby ctx;
           ctx2 = internal_mut (\<lambda>i. i\<lparr>pending_questions := [], secret_index := None\<rparr>) ctx1
       in ((r, sync_meta (system_text (''back to lobby '' @ dash @ '' ready up!'') ctx2)),
           enqueue GenerateQuestions d))"

section \<open>Round commands\<close>

definition start_error :: "string \<Rightarrow> TriviaState \<Rightarrow> string option" where
  "start_error sid s =
     (if phase s \<noteq> ''lobby'' then Some ''game already started''
      else if owner s \<noteq> Some sid then Some ''only the room owner can start''
      else if t_players s = [] then Some ''no players''
      else if list_ex (\<lambda>(_, p). \<not> ready p) (t_players s) then Some ''everyone must be ready''
      else None)"

definition exec_start_game :: "cref \<Rightarrow> trivia_room \<times> Cmd Dispatcher \<Rightarrow> trivia_room \<times> Cmd Dispatcher" where
  "exec_start_game c = (\<lambda>((r, ctx), d).
     case start_error (session_id (store ctx c)) (the_state ctx) of
       Some err \<Rightarrow> ((r, on_client c (client_error APPLICATION_ERROR err) ctx), d)
     | None \<Rightarrow> ((r, ctx), enqueue (StartRound 1) d))"

definition lock_in :: "string \<Rightarrow> TriviaState \<Rightarrow> TriviaState" where
  "lock_in sid s =
     s\<lparr>t_players := AList.map_entry sid (\<lambda>p. p\<lparr>answered := True\<rparr>) (t_players s), answers_in := answers_in s + 1\<rparr>"

definition exec_answer :: "string \<Rightarrow> nat \<Rightarrow> trivia_room \<times> Cmd Dispatcher \<Rightarrow> trivia_room \<times> Cmd Dispatcher" where
  "exec_answer sid ch = (\<lambda>((r, ctx), d).
     let s = the_state ctx
     in if phase s \<noteq> ''question'' \<or> 4 \<le> ch then ((r, ctx), d)
        else case map_of (t_players s) sid of
          None \<Rightarrow> ((r, ctx), d)
        | Some p \<Rightarrow>
            if answered p then ((r, ctx), d)
            else
              let ctx1 = state_mut (lock_in sid) ctx;
                  ctx2 = internal_mut (\<lambda>i. i\<lparr>round_answers := AList.update sid ch (round_answers i)\<rparr>) ctx1;
                  s' = lock_in sid s
              in ((r, ctx2),
                  if t_players s' \<noteq> [] \<and> length (t_players s') \<le> answers_in s' then enqueue EndRound d else d))"

definition exec_generate :: "trivia_room \<times> Cmd Dispatcher \<Rightarrow> trivia_room \<times> Cmd Dispatcher" where
  "exec_generate = (\<lambda>((r, ctx), d).
     if batch_in_flight (the_internal ctx) \<or> TOTAL_ROUNDS \<le> length (pending_questions (the_internal ctx))
     then ((r, ctx), d)
     else ((r\<lparr>llm_tasks := llm_tasks r @ [(difficulty (the_state ctx), category (the_state ctx), TOTAL_ROUNDS)]\<rparr>,
            internal_mut (\<lambda>i. i\<lparr>batch_in_flight := True\<rparr>) ctx), d))"

definition record_asked :: "string list \<Rightarrow> string list \<Rightarrow> string list" where
  "record_asked texts recent = drop (length (recent @ texts) - RECENT_LIMIT) (recent @ texts)"

definition store_questions :: "Question list \<Rightarrow> TriviaInternal \<Rightarrow> TriviaInternal" where
  "store_questions qs i =
     i\<lparr>batch_in_flight := False,
       pending_questions := fold (\<lambda>(n, q). AList.update (n + 1) q) (enumerate 0 qs) (pending_questions i)\<rparr>"

definition exec_questions :: "Question list \<Rightarrow> trivia_room \<times> Cmd Dispatcher \<Rightarrow> trivia_room \<times> Cmd Dispatcher" where
  "exec_questions qs = (\<lambda>((r, ctx), d).
     let r1 = r\<lparr>asked := record_asked (map q_text qs) (asked r)\<rparr>;
         ctx1 = internal_mut (store_questions qs) ctx
     in if needed_round (the_internal ctx1) = Some 1 \<and> phase (the_state ctx1) = ''generating''
        then ((r1, internal_mut (\<lambda>i. i\<lparr>needed_round := None\<rparr>) ctx1), enqueue (StartRound 1) d)
        else ((r1, ctx1), d))"

definition open_round :: "nat \<Rightarrow> Question \<Rightarrow> millis \<Rightarrow> TriviaState \<Rightarrow> TriviaState" where
  "open_round n q now_ms s =
     s\<lparr>phase := ''question'', round_no := n,
       question := Some \<lparr>qp_text = q_text q, qp_choices = q_choices q\<rparr>, correct_index := None, answers_in := 0,
       phase_ends_at := Some (now_ms + as_millis ROUND_TIME),
       t_players := map (\<lambda>(k, p). (k, p\<lparr>answered := False, choice := None\<rparr>)) (t_players s)\<rparr>"

definition exec_start_round :: "nat \<Rightarrow> trivia_room \<times> Cmd Dispatcher \<Rightarrow> trivia_room \<times> Cmd Dispatcher" where
  "exec_start_round n = (\<lambda>((r, ctx), d).
     case map_of (pending_questions (the_internal ctx)) n of
       None \<Rightarrow>
         let d1 = (if \<not> batch_in_flight (the_internal ctx) then enqueue GenerateQuestions d else d);
             ctx1 = state_mut (\<lambda>s. s\<lparr>phase := ''generating'', phase_ends_at := None\<rparr>) ctx;
             ctx2 = internal_mut (\<lambda>i. i\<lparr>needed_round := Some n\<rparr>) ctx1
         in ((r, sync_meta ctx2), d1)
     | Some q \<Rightarrow>
         let ctx1 = internal_mut (\<lambda>i. i\<lparr>pending_questions := AList.delete n (pending_questions i),
                                       secret_index := Some (answer_index q), round_answers := []\<rparr>) ctx;
             ctx2 = state_mut (open_round n q (wall ctx)) ctx1;
             (t, ctx3) = set_timeout ROUND_TIME RoundTimer ctx2
         in ((r\<lparr>round_timer := Some t\<rparr>, sync_meta ctx3), d))"

text \<open>The reveal: every answer that is in is shown and scored.\<close>

definition score_answer :: "int \<Rightarrow> nat option \<Rightarrow> string \<times> nat \<Rightarrow> (string \<times> PlayerState) list \<Rightarrow> (string \<times> PlayerState) list" where
  "score_answer points correct = (\<lambda>(sid, ch). AList.map_entry sid (\<lambda>p.
     let p1 = p\<lparr>choice := Some ch\<rparr>
     in if Some ch = correct then p1\<lparr>score := score p1 + points, correct_count := correct_count p1 + 1\<rparr> else p1))"

definition reveal :: "nat option \<Rightarrow> (string \<times> nat) list \<Rightarrow> millis \<Rightarrow> TriviaState \<Rightarrow> TriviaState" where
  "reveal correct answers now_ms s =
     s\<lparr>phase := ''reveal'', correct_index := correct, phase_ends_at := Some (now_ms + as_millis REVEAL_BREAK),
       t_players := fold (score_answer (points_for (difficulty s)) correct) answers (t_players s)\<rparr>"

definition exec_end_round :: "trivia_room \<times> Cmd Dispatcher \<Rightarrow> trivia_room \<times> Cmd Dispatcher" where
  "exec_end_round = (\<lambda>((r, ctx), d).
     if phase (the_state ctx) \<noteq> ''question'' then ((r, ctx), d)
     else
       let ctx1 = (case round_timer r of Some t \<Rightarrow> snd (clear_timeout t ctx) | None \<Rightarrow> ctx);
           i = the_internal ctx1;
           ctx2 = internal_mut (\<lambda>i. i\<lparr>round_answers := []\<rparr>) ctx1;
           ctx3 = state_mut (reveal (secret_index i) (round_answers i) (wall ctx)) ctx2;
           (t, ctx4) = set_timeout REVEAL_BREAK BreakTimer ctx3
       in ((r\<lparr>round_timer := None, break_timer := Some t\<rparr>, ctx4), d))"

definition exec_advance :: "trivia_room \<times> Cmd Dispatcher \<Rightarrow> trivia_room \<times> Cmd Dispatcher" where
  "exec_advance = (\<lambda>((r, ctx), d).
     let n = round_no (the_state ctx)
     in if TOTAL_ROUNDS \<le> n then ((r, ctx), enqueue FinishGame d)
        else ((r, ctx), enqueue (StartRound (n + 1)) d))"

definition best_score :: "(string \<times> PlayerState) list \<Rightarrow> int" where
  "best_score ps = (case map (score \<circ> snd) ps of [] \<Rightarrow> 0 | x # xs \<Rightarrow> fold max xs x)"

definition finish :: "TriviaState \<Rightarrow> TriviaState" where
  "finish s =
     s\<lparr>phase := ''finished'', question := None, phase_ends_at := None,
       winners := map (p_name \<circ> snd) (filter (\<lambda>(_, p). score p = best_score (t_players s)) (t_players s))\<rparr>"

definition results_payload :: "string \<Rightarrow> millis \<Rightarrow> TriviaState \<Rightarrow> json" where
  "results_payload rid now_ms s =
     JObj [(''category'', JStr (category s)), (''difficulty'', JStr (difficulty s)), (''endedAt'', jint (int now_ms)),
       (''players'', JArr (map (\<lambda>(_, p). JObj [(''correct'', jint (int (correct_count p))), (''name'', JStr (p_name p)),
           (''score'', jint (score p)), (''userId'', JStr (user_id p))]) (t_players s))),
       (''roomId'', JStr rid), (''type'', JStr ''game_finished'')]"

definition exec_finish :: "trivia_room \<times> Cmd Dispatcher \<Rightarrow> trivia_room \<times> Cmd Dispatcher" where
  "exec_finish = (\<lambda>((r, ctx), d).
     if phase (the_state ctx) = ''finished'' then ((r, ctx), d)
     else
       let ctx1 = state_mut finish ctx
       in ((r\<lparr>published := published r @ [results_payload (room_id ctx) (wall ctx) (the_state ctx)]\<rparr>,
            sync_meta ctx1), d))"

section \<open>Dispatching\<close>

definition trivia_execute :: "(trivia_room, Cmd) execute" where
  "trivia_execute c = (case c of
       JoinCmd sid name uid wants \<Rightarrow> exec_join sid name uid wants
     | LeaveCmd sid \<Rightarrow> exec_leave sid
     | ToggleReady sid \<Rightarrow> exec_toggle sid
     | ChatCmd sid txt \<Rightarrow> exec_chat sid txt
     | Restart sid \<Rightarrow> exec_restart sid
     | StartGame c \<Rightarrow> exec_start_game c
     | AnswerCmd sid ch \<Rightarrow> exec_answer sid ch
     | GenerateQuestions \<Rightarrow> exec_generate
     | QuestionsReady qs \<Rightarrow> exec_questions qs
     | StartRound n \<Rightarrow> exec_start_round n
     | EndRound \<Rightarrow> exec_end_round
     | Advance \<Rightarrow> exec_advance
     | FinishGame \<Rightarrow> exec_finish)"

definition set_dispatcher :: "Cmd Dispatcher \<Rightarrow> trivia_room \<Rightarrow> trivia_room" where
  "set_dispatcher d rm = ((fst rm)\<lparr>dispatcher := d\<rparr>, snd rm)"

text \<open>\<^verbatim>\<open>room.dispatch(ctx, command).await\<close>; that it always returns is shown below.\<close>

definition run_cmd :: "Cmd \<Rightarrow> trivia_room \<Rightarrow> trivia_room" where
  "run_cmd c rm =
     (case dispatch trivia_execute (dispatcher \<circ> fst) set_dispatcher c rm of Some rm' \<Rightarrow> rm' | None \<Rightarrow> rm)"

lemmas exec_defs = exec_join_def exec_leave_def exec_toggle_def exec_chat_def exec_restart_def exec_start_game_def
  exec_answer_def exec_generate_def exec_questions_def exec_start_round_def exec_end_round_def exec_advance_def
  exec_finish_def

fun cmd_rank :: "Cmd \<Rightarrow> nat" where
  "cmd_rank GenerateQuestions = 0"
| "cmd_rank EndRound = 0"
| "cmd_rank FinishGame = 0"
| "cmd_rank (StartRound n) = 1"
| "cmd_rank c = 2"

lemma trivia_queues_lower: "uses_queue (\<lambda>c'. cmd_rank c' < cmd_rank c) d (snd (trivia_execute c (rm, d)))"
  by (cases c; cases rm)
    (auto simp: trivia_execute_def exec_defs Let_def intro!: uses_queue.intros split: option.split prod.split)

end
