(* ===== verification/Trivia.thy ===== *)
theory Trivia
  imports Trivia_Commands
begin

text \<open>
  The trivia room as an instance of the room trait: the serialized form of its state, the
  hooks of \<^verbatim>\<open>room.rs\<close> and the authentication of \<^verbatim>\<open>auth.rs\<close>. Every hook but creation and
  restoring turns what happens into one command. Verifying a token and what the derive
  macros make of incoming JSON are arguments.
\<close>

section \<open>Serialized state\<close>

definition player_state_ser :: "PlayerState \<Rightarrow> json" where
  "player_state_ser p = JObj [(''answered'', JBool (answered p)), (''choice'', json_option jnat (choice p)),
     (''correctCount'', jnat (correct_count p)), (''name'', JStr (p_name p)), (''ready'', JBool (ready p)),
     (''score'', jint (score p)), (''userId'', JStr (user_id p))]"

definition spectator_ser :: "SpectatorState \<Rightarrow> json" where
  "spectator_ser s = JObj [(''name'', JStr (s_name s))]"

definition question_public_ser :: "QuestionPublic \<Rightarrow> json" where
  "question_public_ser q = JObj [(''choices'', JArr (map JStr (qp_choices q))), (''text'', JStr (qp_text q))]"

definition trivia_ser :: "TriviaState \<Rightarrow> (string, json) result" where
  "trivia_ser s = Inr (JObj [(''answersIn'', jnat (answers_in s)), (''category'', JStr (category s)),
     (''correctIndex'', json_option jnat (correct_index s)), (''difficulty'', JStr (difficulty s)),
     (''hasPassword'', JBool (has_password s)), (''owner'', json_option JStr (owner s)), (''phase'', JStr (phase s)),
     (''phaseEndsAt'', json_option jnat (phase_ends_at s)), (''players'', json_map player_state_ser (t_players s)),
     (''question'', json_option question_public_ser (question s)), (''round'', jnat (round_no s)),
     (''spectators'', json_map spectator_ser (spectators s)), (''totalRounds'', jnat (total_rounds s)),
     (''winners'', JArr (map JStr (winners s)))])"

definition question_ser :: "Question \<Rightarrow> json" where
  "question_ser q = JObj [(''answer_index'', jnat (answer_index q)), (''choices'', JArr (map JStr (q_choices q))),
     (''text'', JStr (q_text q))]"

definition trivia_internal_ser :: "TriviaInternal \<Rightarrow> (string, json) result" where
  "trivia_internal_ser i = Inr (JObj [(''batch_in_flight'', JBool (batch_in_flight i)),
     (''correct_index'', json_option jnat (secret_index i)), (''needed_round'', json_option jnat (needed_round i)),
     (''password'', json_option JStr (password i)),
     (''pending_questions'', json_map question_ser (map (\<lambda>(n, q). (show_nat n, q)) (pending_questions i))),
     (''round_answers'', json_map jnat (round_answers i))])"

record TriviaEnv =
  trivia_de :: "json \<Rightarrow> (string, TriviaState) result"
  trivia_internal_de :: "json \<Rightarrow> (string, TriviaInternal) result"
  answer_msg :: "json \<Rightarrow> (string, nat) result"
  trivia_chat_msg :: "json \<Rightarrow> (string, string) result"
  decode_claims :: "string \<Rightarrow> (string \<times> string) option"

section \<open>Authentication\<close>

definition authenticate :: "(string \<Rightarrow> (string \<times> string) option) \<Rightarrow> AuthContext \<Rightarrow> (ServerError, json) result" where
  "authenticate decode auth =
     (case auth_token auth of
        None \<Rightarrow> Inl (new_error AUTH_FAILED ''missing bearer token'')
      | Some token \<Rightarrow>
          (case decode token of
             None \<Rightarrow> Inl (new_error AUTH_FAILED ''invalid or expired token'')
           | Some (sub, name) \<Rightarrow> Inr (JObj [(''name'', JStr name), (''userId'', JStr sub)])))"

definition auth_name :: "json option \<Rightarrow> string" where
  "auth_name auth = (case auth_field auth ''name'' of Some n \<Rightarrow> n | None \<Rightarrow> ''anon'')"

definition auth_user_id :: "json option \<Rightarrow> string" where
  "auth_user_id auth = (case auth_field auth ''userId'' of Some u \<Rightarrow> u | None \<Rightarrow> [])"

section \<open>Hooks\<close>

text \<open>An optional string option of limited length, trimmed.\<close>

definition short_option :: "nat \<Rightarrow> json \<Rightarrow> string \<Rightarrow> string option" where
  "short_option n options k =
     (case as_str (json_index options k) of
        None \<Rightarrow> None
      | Some s \<Rightarrow> let t = str_trim s in if t \<noteq> [] \<and> length t \<le> n then Some t else None)"

definition on_messages :: "(string \<times> 'h) list \<Rightarrow> ('s, 'i, 'h) RoomContext \<Rightarrow> ('s, 'i, 'h) RoomContext" where
  "on_messages hs ctx = fold (\<lambda>(t, h). on_message (Str t) h) hs ctx"

definition trivia_on_create ::
  "TriviaEnv \<Rightarrow> json \<Rightarrow> trivia_room \<Rightarrow> (ServerError, unit) result \<times> trivia_room" where
  "trivia_on_create env options rm =
     (let d = (case as_str (json_index options ''difficulty'') of Some d \<Rightarrow> d | None \<Rightarrow> ''easy'')
      in if d \<notin> {''easy'', ''medium'', ''hard''}
         then (Inl (new_error MATCHMAKE_INVALID_CRITERIA ''difficulty must be easy, medium or hard''), rm)
         else
           let cat = (case short_option 40 options ''category'' of Some c \<Rightarrow> c | None \<Rightarrow> ''genel'');
               pw = short_option 64 options ''password'';
               ctx1 = set_state \<lparr>erased_value = trivia_new d cat, erased_ser = trivia_ser, erased_de = trivia_de env\<rparr> (snd rm);
               ctx2 = set_internal \<lparr>erased_value = internal_default, erased_ser = trivia_internal_ser,
                                     erased_de = trivia_internal_de env\<rparr> ctx1;
               ctx3 = set_patch_rate (Some (from_millis 50)) (set_max_clients (Some (MAX_PLAYERS + MAX_SPECTATORS)) ctx2);
               ctx4 = state_mut (\<lambda>s. s\<lparr>has_password := (pw \<noteq> None)\<rparr>) (internal_mut (\<lambda>i. i\<lparr>password := pw\<rparr>) ctx3);
               ctx5 = set_metadata (JObj [(''hasPassword'', JBool (pw \<noteq> None)), (''phase'', JStr ''lobby''),
                 (''players'', jnat 0), (''round'', jnat 0), (''spectators'', jnat 0)]) ctx4
           in (Inr (), (fst rm, on_messages [(''ready'', MsgReady), (''start'', MsgStart), (''answer'', MsgAnswer),
                (''chat'', MsgChat), (''restart'', MsgRestart)] ctx5)))"

definition time_left :: "duration \<Rightarrow> trivia_ctx \<Rightarrow> duration" where
  "time_left full ctx =
     from_millis (case phase_ends_at (the_state ctx) of Some t \<Rightarrow> t - wall ctx | None \<Rightarrow> as_millis full)"

definition resume_after_restore :: "trivia_room \<Rightarrow> trivia_room" where
  "resume_after_restore rm =
     (let (r, ctx0) = rm;
          ctx = internal_mut (\<lambda>i. i\<lparr>batch_in_flight := False\<rparr>) ctx0;
          ph = phase (the_state ctx)
      in if ph = ''generating'' then
           run_cmd GenerateQuestions (r, if needed_round (the_internal ctx) = None
                                         then internal_mut (\<lambda>i. i\<lparr>needed_round := Some 1\<rparr>) ctx else ctx)
         else if ph = ''question'' then
           (case set_timeout (time_left ROUND_TIME ctx) RoundTimer ctx of (t, ctx') \<Rightarrow> (r\<lparr>round_timer := Some t\<rparr>, ctx'))
         else if ph = ''reveal'' then
           (case set_timeout (time_left REVEAL_BREAK ctx) BreakTimer ctx of (t, ctx') \<Rightarrow> (r\<lparr>break_timer := Some t\<rparr>, ctx'))
         else (r, ctx))"

definition trivia_on_restore ::
  "TriviaEnv \<Rightarrow> RoomSnapshot \<Rightarrow> trivia_room \<Rightarrow> (ServerError, unit) result \<times> trivia_room" where
  "trivia_on_restore env snap rm =
     (case restore_state trivia_ser (trivia_de env) snap (snd rm) of
        (Inl e, ctx1) \<Rightarrow> (Inl e, (fst rm, ctx1))
      | (Inr _, ctx1) \<Rightarrow>
          (case restore_internal trivia_internal_ser (trivia_internal_de env) snap ctx1 of
             (Inl e, ctx2) \<Rightarrow> (Inl e, (fst rm, ctx2))
           | (Inr _, ctx2) \<Rightarrow> (Inr (), resume_after_restore (fst rm, ctx2))))"

definition password_gate :: "json \<Rightarrow> TriviaInternal \<Rightarrow> string option" where
  "password_gate options i =
     (case password i of
        None \<Rightarrow> None
      | Some expected \<Rightarrow>
          (case as_str (json_index options ''password'') of
             None \<Rightarrow> Some ''password required''
           | Some given \<Rightarrow> if given \<noteq> expected then Some ''wrong password'' else None))"

definition trivia_on_auth ::
  "TriviaEnv \<Rightarrow> json \<Rightarrow> AuthContext \<Rightarrow> trivia_room \<Rightarrow> (ServerError, json option) result \<times> trivia_room" where
  "trivia_on_auth env options auth rm =
     (case password_gate options (the_internal (snd rm)) of
        Some err \<Rightarrow> (Inl (new_error AUTH_FAILED err), rm)
      | None \<Rightarrow> (map_sum id Some (authenticate (decode_claims env) auth), rm))"

definition trivia_on_join ::
  "cref \<Rightarrow> json \<Rightarrow> json option \<Rightarrow> trivia_room \<Rightarrow> (ServerError, unit) result \<times> trivia_room" where
  "trivia_on_join c options auth rm =
     (let sid = session_id (store (snd rm) c);
          role = (case as_str (json_index options ''role'') of Some r \<Rightarrow> r | None \<Rightarrow> ''player'');
          rm' = run_cmd (JoinCmd sid (auth_name auth) (auth_user_id auth) (role \<noteq> ''spectator'')) rm;
          s = the_state (snd rm')
      in (if map_of (t_players s) sid \<noteq> None \<or> map_of (spectators s) sid \<noteq> None then Inr ()
          else Inl (new_error MATCHMAKE_EXPIRED ''room is full''), rm'))"

definition trivia_on_drop :: "cref \<Rightarrow> nat \<Rightarrow> trivia_room \<Rightarrow> trivia_room" where
  "trivia_on_drop c code rm =
     (if map_option phase (ctx_state (snd rm)) = Some ''lobby'' then rm
      else on_ctx (\<lambda>ctx. system_text (''a player disconnected'' @ ellipsis)
             (snd (allow_reconnection c (Some (from_secs 60)) ctx))) rm)"

definition trivia_on_reconnect :: "cref \<Rightarrow> trivia_room \<Rightarrow> trivia_room" where
  "trivia_on_reconnect c rm = on_ctx (system_text ''a player reconnected'') rm"

definition trivia_on_leave :: "cref \<Rightarrow> nat \<Rightarrow> trivia_room \<Rightarrow> trivia_room" where
  "trivia_on_leave c code rm = run_cmd (LeaveCmd (session_id (store (snd rm) c))) rm"

definition trivia_on_dispose :: "trivia_room \<Rightarrow> trivia_room" where
  "trivia_on_dispose rm = set_dispatcher (stop (dispatcher (fst rm))) rm"

text \<open>The command a message becomes.\<close>

definition trivia_msg_cmd :: "TriviaHandler \<Rightarrow> cref \<Rightarrow> string \<Rightarrow> json \<Rightarrow> Cmd option" where
  "trivia_msg_cmd h c sid payload =
     (case h of
        MsgReady \<Rightarrow> Some (ToggleReady sid)
      | MsgStart \<Rightarrow> Some (StartGame c)
      | MsgAnswer \<Rightarrow> map_option (AnswerCmd sid) (as_u64 payload)
      | MsgChat \<Rightarrow> map_option (ChatCmd sid) (as_str payload)
      | MsgRestart \<Rightarrow> Some (Restart sid)
      | _ \<Rightarrow> None)"

definition trivia_msg_run ::
  "TriviaHandler \<Rightarrow> cref \<Rightarrow> json \<Rightarrow> trivia_room \<Rightarrow> (ServerError, unit) result \<times> trivia_room" where
  "trivia_msg_run h c payload rm =
     (Inr (), case trivia_msg_cmd h c (session_id (store (snd rm) c)) payload of
                Some cmd \<Rightarrow> run_cmd cmd rm | None \<Rightarrow> rm)"

definition trivia_timer_run :: "TriviaHandler \<Rightarrow> trivia_room \<Rightarrow> trivia_room" where
  "trivia_timer_run h rm =
     (case h of RoundTimer \<Rightarrow> run_cmd EndRound rm | BreakTimer \<Rightarrow> run_cmd Advance rm | _ \<Rightarrow> rm)"

definition trivia_command_run :: "TriviaHandler \<Rightarrow> trivia_room \<Rightarrow> trivia_room" where
  "trivia_command_run h rm = (case h of DeliverQuestions qs \<Rightarrow> run_cmd (QuestionsReady qs) rm | _ \<Rightarrow> rm)"

definition trivia_hooks :: "TriviaEnv \<Rightarrow> (TriviaRoom, TriviaState, TriviaInternal, TriviaHandler) RoomHooks" where
  "trivia_hooks env =
     default_hooks\<lparr>on_create := trivia_on_create env, on_restore := trivia_on_restore env,
       on_auth := trivia_on_auth env, on_join := trivia_on_join, on_drop := trivia_on_drop,
       on_reconnect := trivia_on_reconnect, on_leave := trivia_on_leave, on_dispose := trivia_on_dispose,
       msg_decode := (\<lambda>h v. case h of
          MsgAnswer \<Rightarrow> map_sum id jnat (answer_msg env v)
        | MsgChat \<Rightarrow> map_sum id JStr (trivia_chat_msg env v)
        | _ \<Rightarrow> Inr v),
       msg_run := trivia_msg_run, timer_run := trivia_timer_run, command_run := trivia_command_run\<rparr>"

section \<open>The contract of room types\<close>

lemma wf_json_option [simp]: "(\<And>v. wf_json (f v)) \<Longrightarrow> wf_json (json_option f x)"
  by (simp add: json_option_def split: option.split)

lemma wf_trivia_parts [simp]:
  "wf_json (player_state_ser p)" "wf_json (spectator_ser sp)" "wf_json (question_public_ser q)"
  by (auto simp: player_state_ser_def spectator_ser_def question_public_ser_def wf_obj_def sorted_map_def)

lemma wf_ser_trivia [simp]: "wf_ser \<lparr>erased_value = v, erased_ser = trivia_ser, erased_de = de\<rparr>"
  by (auto simp: wf_ser_def trivia_ser_def wf_obj_def sorted_map_def)

text \<open>Whatever every command keeps is kept by a dispatch.\<close>

lemma run_cmd_keeps:
  assumes sys: "command_system trivia_execute cmd_rank P" and put: "\<And>d rm. P rm \<Longrightarrow> P (set_dispatcher d rm)" and "P rm"
  shows "P (run_cmd c rm)"
proof -
  let ?x = "set_dispatcher dispatcher_new rm" and ?d = "enqueue c (dispatcher (fst rm))"
  have r: "\<exists>x' d'. drain trivia_execute (?x, ?d) = Some (x', d') \<and> P x'"
  proof (cases "stopped ?d")
    case True
    then show ?thesis using put [OF \<open>P rm\<close>] by (simp add: drain_simps)
  next
    case False
    then show ?thesis using command_system.drain_returns [OF sys, of ?d ?x] put [OF \<open>P rm\<close>] by blast
  qed
  then show ?thesis using put by (auto simp: run_cmd_def dispatch_def comp_def)
qed

lemma api_sync_meta [api_rules]: "api a b \<Longrightarrow> api a (sync_meta b)"
  by (simp add: sync_meta_def Let_def api_rules)

lemma api_system_text [api_rules]: "api a b \<Longrightarrow> api a (system_text t b)"
  by (simp add: system_text_def api_rules)

lemma execute_api:
  assumes "api ctx0 (snd rm)"
  shows "api ctx0 (snd (fst (trivia_execute c (rm, d))))"
  using assms
  by (cases c; cases rm)
    (auto simp: trivia_execute_def exec_defs Let_def split_def intro!: api_rules split: option.split)

interpretation trivia_api: command_system trivia_execute cmd_rank "\<lambda>rm. api ctx0 (snd rm)" for ctx0
  by unfold_locales (auto intro: trivia_queues_lower execute_api)

lemma api_run_cmd [api_rules]: "api ctx0 (snd rm) \<Longrightarrow> api ctx0 (snd (run_cmd c rm))"
  by (rule run_cmd_keeps [OF trivia_api.command_system_axioms]) (simp_all add: set_dispatcher_def)

lemma api_on_messages [api_rules]: "api a b \<Longrightarrow> api a (on_messages hs b)"
  by (induction hs arbitrary: b) (auto simp: on_messages_def intro: api_rules)

lemmas trivia_hook_defs = trivia_on_create_def trivia_on_restore_def trivia_on_auth_def trivia_on_join_def
  trivia_on_drop_def trivia_on_reconnect_def trivia_on_leave_def trivia_on_dispose_def trivia_msg_run_def
  trivia_timer_run_def trivia_command_run_def

lemma api_resume [api_rules]:
  assumes "api a (snd rm)"
  shows "api a (snd (resume_after_restore rm))"
  using assms
  by (cases rm) (auto simp: resume_after_restore_def Let_def split_def intro!: api_rules)

lemma api_restore_trivia: "ctx_ok (snd rm) \<Longrightarrow> api (snd rm) (snd (snd (trivia_on_restore env snap rm)))"
proof -
  obtain x ctx1 where 1: "restore_state trivia_ser (trivia_de env) snap (snd rm) = (x, ctx1)" by fastforce
  obtain y ctx2 where 2: "restore_internal trivia_internal_ser (trivia_internal_de env) snap ctx1 = (y, ctx2)" by fastforce
  have "api (snd rm) ctx1" using api_chain(5) [where a = "snd rm" and b = "snd rm" and ser = trivia_ser and de = "trivia_de env" and snap = snap] 1 by simp
  moreover from this have "api (snd rm) ctx2"
    using api_chain(6) [of "snd rm" ctx1 trivia_internal_ser "trivia_internal_de env" snap] 2 by simp
  ultimately show ?thesis
    by (auto simp: trivia_on_restore_def 1 2 intro!: api_rules split: sum.split)
qed

interpretation trivia: room_type "trivia_hooks env" for env
  by unfold_locales
    (auto simp: trivia_hooks_def default_hooks_def trivia_hook_defs on_ctx_def Let_def set_dispatcher_def
      intro!: api_rules api_restore_trivia [unfolded trivia_on_restore_def] split: option.split TriviaHandler.split)

end
