(* ===== verification/Trivia_Game.thy ===== *)
theory Trivia_Game
  imports Trivia
begin

text \<open>
  What makes the trivia game correct: the state it is in at any time, the scores of a round,
  and that nothing a client can see depends on the answers before the round has ended.
\<close>

section \<open>Association lists\<close>

definition entries :: "('k \<Rightarrow> 'v \<Rightarrow> bool) \<Rightarrow> ('k \<times> 'v) list \<Rightarrow> bool" where
  "entries P m \<longleftrightarrow> list_all (\<lambda>(k, v). P k v) m"

lemma keys_map_entry [simp]: "map fst (AList.map_entry k f m) = map fst m"
  by (induction m) auto

lemma entries_alist [intro]:
  "entries P m \<Longrightarrow> (\<And>v. P k v \<Longrightarrow> P k (f v)) \<Longrightarrow> entries P (AList.map_entry k f m)"
  "entries P m \<Longrightarrow> P k x \<Longrightarrow> entries P (AList.update k x m)"
  "entries P m \<Longrightarrow> entries P (AList.delete k m)"
  by (induction m) (auto simp: entries_def)

lemma entries_map [intro]: "(\<And>k v. (k, v) \<in> set m \<Longrightarrow> P k (f v)) \<Longrightarrow> entries P (map (\<lambda>(k, v). (k, f v)) m)"
  by (auto simp: entries_def list_all_iff)

lemma entries_Nil [simp]: "entries P []"
  by (simp add: entries_def)

lemma entriesD: "entries P m \<Longrightarrow> (k, v) \<in> set m \<Longrightarrow> P k v" "entries P m \<Longrightarrow> map_of m k = Some v \<Longrightarrow> P k v"
  by (auto simp: entries_def list_all_iff dest: map_of_SomeD)

lemma entries_mono: "entries P m \<Longrightarrow> (\<And>k v. (k, v) \<in> set m \<Longrightarrow> P k v \<Longrightarrow> Q k v) \<Longrightarrow> entries Q m"
  by (auto simp: entries_def list_all_iff)

lemma entries_delete_key: "entries P m \<Longrightarrow> entries (\<lambda>k v. P k v \<and> k \<noteq> k0) (AList.delete k0 m)"
  by (auto simp: entries_def list_all_iff AList.delete_eq)

lemma length_update: "length (AList.update k x m) \<le> Suc (length m)"
  by (induction m) auto

lemma keys_update: "fst ` set (AList.update k x m) = insert k (fst ` set m)"
  by (induction m) auto

lemma keys_delete: "fst ` set (AList.delete k m) = fst ` set m - {k}"
  by (auto simp: AList.delete_eq image_iff)

lemma length_delete_le: "length (AList.delete k m) \<le> length m"
  by (simp add: AList.delete_eq)

lemma length_delete: "k \<in> fst ` set m \<Longrightarrow> Suc (length (AList.delete k m)) \<le> length m"
  by (induction m) (auto simp: Suc_le_eq less_Suc_eq_le length_delete_le)

lemmas alist_keys = keys_update keys_delete AList.distinct_update AList.distinct_delete

section \<open>The state of the game\<close>

text \<open>
  The seats respect the limits and the owner is one of the players; the score of a player is
  what the correct answers are worth; while the game is in the lobby or a question is open,
  neither the correct answer nor a choice is shown; while a question is open the room knows
  its answer, and holds the choice of everybody who has answered.
\<close>

definition hidden :: "TriviaState \<Rightarrow> bool" where
  "hidden s \<longleftrightarrow> correct_index s = None \<and> entries (\<lambda>_ p. choice p = None) (t_players s)"

definition seats_in_order :: "TriviaState \<Rightarrow> bool" where
  "seats_in_order s \<longleftrightarrow> distinct (map fst (t_players s)) \<and> length (t_players s) \<le> MAX_PLAYERS
     \<and> distinct (map fst (spectators s)) \<and> length (spectators s) \<le> MAX_SPECTATORS
     \<and> (case owner s of None \<Rightarrow> t_players s = [] | Some k \<Rightarrow> k \<in> fst ` set (t_players s))"

definition scores_fair :: "TriviaState \<Rightarrow> bool" where
  "scores_fair s \<longleftrightarrow> entries (\<lambda>_ p. score p = points_for (difficulty s) * int (correct_count p)) (t_players s)"

definition locked_in :: "TriviaInternal \<Rightarrow> string \<Rightarrow> bool" where
  "locked_in i k \<longleftrightarrow> k \<in> fst ` set (round_answers i)"

definition answers_held :: "TriviaState \<Rightarrow> TriviaInternal \<Rightarrow> bool" where
  "answers_held s i \<longleftrightarrow> entries (\<lambda>k p. answered p \<longrightarrow> locked_in i k) (t_players s)"

definition game_ok :: "TriviaState \<Rightarrow> TriviaInternal \<Rightarrow> bool" where
  "game_ok s i \<longleftrightarrow> seats_in_order s \<and> scores_fair s
     \<and> phase s \<in> {''lobby'', ''generating'', ''question'', ''reveal'', ''finished''}
     \<and> (phase s = ''lobby'' \<or> phase s = ''question'' \<longrightarrow> hidden s)
     \<and> (phase s = ''question'' \<longrightarrow> secret_index i \<noteq> None \<and> answers_held s i)
     \<and> distinct (map fst (round_answers i))"

definition ctx_game :: "trivia_ctx \<Rightarrow> bool" where
  "ctx_game ctx \<longleftrightarrow> (\<exists>s i. ctx_state ctx = Some s \<and> ctx_internal ctx = Some i \<and> game_ok s i)"

lemma ctx_game_mut [simp]:
  "ctx_game (state_mut f ctx) \<longleftrightarrow> (\<exists>s i. ctx_state ctx = Some s \<and> ctx_internal ctx = Some i \<and> game_ok (f s) i)"
  "ctx_game (internal_mut g ctx) \<longleftrightarrow> (\<exists>s i. ctx_state ctx = Some s \<and> ctx_internal ctx = Some i \<and> game_ok s (g i))"
  by (auto simp: ctx_game_def)

lemma state_sync_meta [state_simps, simp]:
  "ctx_state (sync_meta ctx) = ctx_state ctx" "ctx_internal (sync_meta ctx) = ctx_internal ctx"
  "ctx_state (system_text t ctx) = ctx_state ctx" "ctx_internal (system_text t ctx) = ctx_internal ctx"
  by (simp_all add: sync_meta_def system_text_def Let_def)

section \<open>Every command keeps the game in order\<close>

lemma game_phase:
  "game_ok s i \<Longrightarrow> seats_in_order s" "game_ok s i \<Longrightarrow> scores_fair s"
  "game_ok s i \<Longrightarrow> phase s = ''lobby'' \<or> phase s = ''question'' \<Longrightarrow> hidden s"
  by (simp_all only: game_ok_def)

lemma stale_player_in:
  assumes "stale_player sid uid s = Some old"
  obtains p where "old \<noteq> sid" "(old, p) \<in> set (t_players s)"
  using assms by (auto simp: stale_player_def find_Some_iff split: if_splits) (metis nth_mem)

lemma move_answer_answers:
  "round_answers (move_answer old sid i) =
     (case map_of (round_answers i) old of
        Some a \<Rightarrow> AList.update sid a (AList.delete old (round_answers i)) | None \<Rightarrow> round_answers i)"
  "secret_index (move_answer old sid i) = secret_index i"
  by (simp_all add: move_answer_def split: option.split)

lemma locked_in_move:
  "locked_in i k \<Longrightarrow> k \<noteq> old \<Longrightarrow> locked_in (move_answer old sid i) k"
  "locked_in i old \<Longrightarrow> locked_in (move_answer old sid i) sid"
  by (auto simp: locked_in_def move_answer_answers keys_update keys_delete map_of_eq_None_iff split: option.split)

lemma game_move:
  assumes "game_ok s i" and "stale_player sid uid s = Some old"
  shows "game_ok (move_player old sid s) (move_answer old sid i)"
proof -
  have seats: "seats_in_order s" and fair: "scores_fair s" using assms(1) by (rule game_phase)+
  obtain p where p: "old \<noteq> sid" "(old, p) \<in> set (t_players s)" "map_of (t_players s) old = Some p"
    using stale_player_in [OF assms(2)] seats by (metis seats_in_order_def map_of_is_SomeI)
  let ?ps = "AList.update sid p (AList.delete old (t_players s))"
  have e: "t_players (move_player old sid s) = ?ps" "spectators (move_player old sid s) = spectators s"
    "owner (move_player old sid s) = (if owner s = Some old then Some sid else owner s)"
    "difficulty (move_player old sid s) = difficulty s" "phase (move_player old sid s) = phase s"
    "correct_index (move_player old sid s) = correct_index s"
    using p(3) by (simp_all add: move_player_def Let_def)
  have "old \<in> fst ` set (t_players s)" using p(2) by force
  then have "length ?ps \<le> length (t_players s)"
    using length_update [of sid p "AList.delete old (t_players s)"] length_delete [of old "t_players s"] by linarith
  then have "seats_in_order (move_player old sid s)"
    using seats p(2) by (auto simp: seats_in_order_def e alist_keys split: option.splits if_splits)
  moreover have "scores_fair (move_player old sid s)"
    using fair entriesD(2) [OF _ p(3)] unfolding scores_fair_def e by blast
  moreover have "hidden s \<Longrightarrow> hidden (move_player old sid s)"
    using entriesD(2) [OF _ p(3)] unfolding hidden_def e by blast
  moreover have "answers_held s i \<Longrightarrow> answers_held (move_player old sid s) (move_answer old sid i)"
    using entriesD(2) [OF _ p(3)] locked_in_move(2) [of i old sid] unfolding answers_held_def e
    by (intro entries_alist(2) entries_mono [OF entries_delete_key])
       (auto intro: locked_in_move(1))
  moreover have "distinct (map fst (round_answers (move_answer old sid i)))"
    using assms(1) by (auto simp: game_ok_def move_answer_answers alist_keys split: option.split)
  ultimately show ?thesis
    using assms(1) unfolding game_ok_def e move_answer_answers(2) by blast
qed

lemma game_add_player:
  assumes "game_ok s i" and "phase s = ''lobby''" and "length (t_players s) < MAX_PLAYERS"
  shows "game_ok (add_player sid name uid s) i"
proof -
  have e: "t_players (add_player sid name uid s) = AList.update sid (player_new uid name) (t_players s)"
    "spectators (add_player sid name uid s) = AList.delete sid (spectators s)"
    "owner (add_player sid name uid s) = (case owner s of None \<Rightarrow> Some sid | Some x \<Rightarrow> Some x)"
    "difficulty (add_player sid name uid s) = difficulty s" "phase (add_player sid name uid s) = phase s"
    "correct_index (add_player sid name uid s) = correct_index s"
    by (simp_all add: add_player_def)
  have "seats_in_order (add_player sid name uid s)"
    using assms(3) game_phase(1) [OF assms(1)] length_update [of sid "player_new uid name" "t_players s"]
      length_delete_le [of sid "spectators s"]
    unfolding seats_in_order_def e by (auto simp: alist_keys split: option.splits)
  moreover have "scores_fair (add_player sid name uid s)"
    using game_phase(2) [OF assms(1)] unfolding scores_fair_def e by (auto simp: player_new_def)
  moreover have "hidden (add_player sid name uid s)"
    using game_phase(3) [OF assms(1)] assms(2) unfolding hidden_def e by (auto simp: player_new_def)
  ultimately show ?thesis using assms unfolding game_ok_def e by simp
qed

lemma game_add_spectator:
  assumes "game_ok s i" and "length (spectators s) < MAX_SPECTATORS"
  shows "game_ok (add_spectator sid name s) i"
proof -
  have "seats_in_order (add_spectator sid name s)"
    using assms(2) game_phase(1) [OF assms(1)] length_update [of sid "\<lparr>s_name = name\<rparr>" "spectators s"]
    by (auto simp: seats_in_order_def add_spectator_def alist_keys split: option.splits)
  then show ?thesis using assms(1) by (simp add: game_ok_def add_spectator_def scores_fair_def hidden_def answers_held_def)
qed

lemma game_drop:
  assumes "game_ok s i"
  shows "game_ok (drop_member sid s) i"
proof -
  let ?ps = "AList.delete sid (t_players s)"
  have e: "t_players (drop_member sid s) = ?ps"
    "spectators (drop_member sid s) = AList.delete sid (spectators s)"
    "owner (drop_member sid s) = (if owner s = Some sid then (case ?ps of [] \<Rightarrow> None | (k, _) # _ \<Rightarrow> Some k) else owner s)"
    "difficulty (drop_member sid s) = difficulty s" "phase (drop_member sid s) = phase s"
    "correct_index (drop_member sid s) = correct_index s"
    by (simp_all add: drop_member_def Let_def)
  have seats: "seats_in_order s" by (rule game_phase(1) [OF assms])
  then have own: "case owner s of None \<Rightarrow> t_players s = [] | Some k \<Rightarrow> k \<in> fst ` set (t_players s)"
    by (simp add: seats_in_order_def)
  have keys: "fst ` set ?ps = fst ` set (t_players s) - {sid}" by (rule keys_delete)
  have "case owner (drop_member sid s) of None \<Rightarrow> ?ps = [] | Some k \<Rightarrow> k \<in> fst ` set ?ps"
  proof (cases "owner s = Some sid")
    case True
    then show ?thesis unfolding e by (cases ?ps) auto
  next
    case False
    then show ?thesis using own unfolding e keys by (auto split: option.splits)
  qed
  then have "seats_in_order (drop_member sid s)"
    using seats length_delete_le [of sid "t_players s"] length_delete_le [of sid "spectators s"]
    unfolding seats_in_order_def e by (auto simp: alist_keys)
  moreover have "scores_fair (drop_member sid s)"
    using game_phase(2) [OF assms(1)] unfolding scores_fair_def e by blast
  moreover have "hidden s \<Longrightarrow> hidden (drop_member sid s)" "answers_held s i \<Longrightarrow> answers_held (drop_member sid s) i"
    unfolding hidden_def answers_held_def e by blast+
  ultimately show ?thesis using assms unfolding game_ok_def e by blast
qed

lemma seats_frame:
  assumes "seats_in_order s" and "map fst (t_players s') = map fst (t_players s)"
    and "spectators s' = spectators s" and "owner s' = owner s"
  shows "seats_in_order s'"
proof -
  have "length (t_players s') = length (t_players s)" using assms(2) by (metis length_map)
  moreover have "fst ` set (t_players s') = fst ` set (t_players s)" using assms(2) by (metis list.set_map)
  moreover have "t_players s' = [] \<longleftrightarrow> t_players s = []" using assms(2) by (metis map_is_Nil_conv)
  ultimately show ?thesis using assms by (auto simp: seats_in_order_def split: option.splits)
qed

lemma seats_upd [simp]:
  "seats_in_order (s\<lparr>phase := x\<rparr>) = seats_in_order s" "seats_in_order (s\<lparr>question := q\<rparr>) = seats_in_order s"
  "seats_in_order (s\<lparr>phase_ends_at := e\<rparr>) = seats_in_order s" "seats_in_order (s\<lparr>winners := w\<rparr>) = seats_in_order s"
  by (simp_all add: seats_in_order_def split: option.splits)

lemma game_toggle:
  assumes "game_ok s i" shows "game_ok (toggle sid s) i"
proof -
  have "seats_in_order (toggle sid s)"
    by (rule seats_frame [OF game_phase(1) [OF assms]]) (simp_all add: toggle_def)
  moreover have "scores_fair (toggle sid s)" "hidden s \<Longrightarrow> hidden (toggle sid s)"
    using game_phase(2) [OF assms] by (auto simp: scores_fair_def hidden_def toggle_def)
  ultimately show ?thesis using assms
    by (auto simp: game_ok_def toggle_def answers_held_def)
qed

lemma game_restart:
  assumes "game_ok s i"
  shows "game_ok (back_to_lobby s) (i\<lparr>pending_questions := [], secret_index := None\<rparr>)"
proof -
  let ?ps = "map (\<lambda>(k, p). (k, player_new (user_id p) (p_name p))) (t_players s)"
  have "seats_in_order (back_to_lobby s)"
    by (rule seats_frame [OF game_phase(1) [OF assms]]) (simp_all add: back_to_lobby_def split_def)
  moreover have "entries (\<lambda>_ p. score p = c * int (correct_count p)) ?ps" "entries (\<lambda>_ p. choice p = None) ?ps" for c
    by (auto simp: player_new_def)
  ultimately show ?thesis using assms
    by (simp add: game_ok_def back_to_lobby_def hidden_def scores_fair_def answers_held_def)
qed

lemma game_lock_in:
  assumes "game_ok s i" and "phase s = ''question''"
  shows "game_ok (lock_in sid s) (i\<lparr>round_answers := AList.update sid ch (round_answers i)\<rparr>)"
proof -
  let ?ps = "AList.map_entry sid (\<lambda>p. p\<lparr>answered := True\<rparr>) (t_players s)"
  let ?i = "i\<lparr>round_answers := AList.update sid ch (round_answers i)\<rparr>"
  have "seats_in_order (lock_in sid s)"
    by (rule seats_frame [OF game_phase(1) [OF assms(1)]]) (simp_all add: lock_in_def)
  moreover have "entries (\<lambda>k p. answered p \<longrightarrow> locked_in ?i k) ?ps"
  proof (rule entries_alist(1))
    have "answers_held s i" using assms by (simp add: game_ok_def)
    then show "entries (\<lambda>k p. answered p \<longrightarrow> locked_in ?i k) (t_players s)"
      unfolding answers_held_def by (rule entries_mono) (auto simp: locked_in_def keys_update)
  qed (simp add: locked_in_def keys_update)
  moreover have "entries (\<lambda>_ p. score p = points_for (difficulty s) * int (correct_count p)) ?ps"
    using game_phase(2) [OF assms(1)] unfolding scores_fair_def by auto
  moreover have "entries (\<lambda>_ p. choice p = None) ?ps"
    using game_phase(3) [OF assms(1)] assms(2) unfolding hidden_def by auto
  ultimately show ?thesis using assms
    by (simp add: game_ok_def lock_in_def hidden_def scores_fair_def answers_held_def alist_keys)
qed

lemma game_open:
  assumes "game_ok s i"
  shows "game_ok (open_round n q t s) (i\<lparr>pending_questions := qs, secret_index := Some a, round_answers := []\<rparr>)"
proof -
  let ?ps = "map (\<lambda>(k, p). (k, p\<lparr>answered := False, choice := None\<rparr>)) (t_players s)"
  have "seats_in_order (open_round n q t s)"
    by (rule seats_frame [OF game_phase(1) [OF assms]]) (simp_all add: open_round_def split_def)
  moreover have "entries (\<lambda>_ p. score p = points_for (difficulty s) * int (correct_count p)) ?ps"
    using game_phase(2) [OF assms(1)] unfolding scores_fair_def by (intro entries_map) (auto dest: entriesD(1))
  ultimately show ?thesis using assms
    by (auto simp: game_ok_def open_round_def hidden_def scores_fair_def answers_held_def)
qed

lemma keys_score [simp]: "map fst (fold (score_answer pts correct) answers ps) = map fst ps"
  by (induction answers arbitrary: ps) (auto simp: score_answer_def)

lemma game_reveal:
  assumes "game_ok s i"
  shows "game_ok (reveal c answers t s) (i\<lparr>round_answers := []\<rparr>)"
proof -
  let ?ps = "fold (score_answer (points_for (difficulty s)) c) answers (t_players s)"
  have "entries (\<lambda>_ p. score p = pts * int (correct_count p)) (fold (score_answer pts c) answers ps)"
    if "entries (\<lambda>_ p. score p = pts * int (correct_count p)) ps" for pts ps
    using that
  proof (induction answers arbitrary: ps)
    case (Cons a answers)
    have "entries (\<lambda>_ p. score p = pts * int (correct_count p)) (score_answer pts c a ps)"
      using Cons.prems by (cases a) (auto simp: score_answer_def Let_def algebra_simps)
    from Cons.IH [OF this] show ?case by simp
  qed simp
  then have "scores_fair (s\<lparr>t_players := ?ps\<rparr>)"
    using game_phase(2) [OF assms] by (simp add: scores_fair_def)
  moreover have "seats_in_order (reveal c answers t s)"
    by (rule seats_frame [OF game_phase(1) [OF assms]]) (simp_all add: reveal_def)
  ultimately show ?thesis using assms
    by (simp add: game_ok_def reveal_def scores_fair_def)
qed

lemma game_frame:
  "game_ok s i \<Longrightarrow> game_ok s (i\<lparr>batch_in_flight := b\<rparr>)" "game_ok s i \<Longrightarrow> game_ok s (i\<lparr>needed_round := n\<rparr>)"
  "game_ok s i \<Longrightarrow> game_ok s (store_questions qs i)"
  "game_ok s i \<Longrightarrow> game_ok (finish s) i" "game_ok s i \<Longrightarrow> game_ok (s\<lparr>phase := ''generating'', phase_ends_at := e\<rparr>) i"
  by (simp_all add: game_ok_def answers_held_def locked_in_def store_questions_def finish_def scores_fair_def)

lemmas game_steps = game_move game_add_player game_add_spectator game_drop game_toggle game_restart game_lock_in
  game_open game_reveal game_frame

lemma the_state_simps [simp]:
  "ctx_state ctx = Some s \<Longrightarrow> the_state ctx = s" "ctx_internal ctx = Some i \<Longrightarrow> the_internal ctx = i"
  by (simp_all add: the_state_def the_internal_def)

lemma execute_game:
  assumes "ctx_game (snd rm)"
  shows "ctx_game (snd (fst (trivia_execute c (rm, d))))"
proof -
  obtain s i where g: "ctx_state (snd rm) = Some s" "ctx_internal (snd rm) = Some i" "game_ok s i"
    using assms by (auto simp: ctx_game_def)
  note fs = g(1,2) ctx_game_def trivia_execute_def exec_defs Let_def split_def
  show ?thesis
  proof (cases c)
    case (JoinCmd sid name uid w)
    then show ?thesis using g(3) by (auto simp: fs intro: game_steps split: option.split)
  next
    case (StartRound n)
    then show ?thesis using g(3) by (auto simp: fs intro: game_steps split: option.split)
  next
    case (AnswerCmd sid ch)
    then show ?thesis using g(3) by (auto simp: fs intro: game_steps split: option.split)
  next
    case EndRound
    then show ?thesis using g(3) by (auto simp: fs intro: game_steps split: option.split)
  qed (use g(3) in \<open>auto simp: fs intro: game_steps split: option.split\<close>)
qed

interpretation trivia_game: command_system trivia_execute cmd_rank "\<lambda>rm. ctx_game (snd rm)"
  by unfold_locales (auto intro: trivia_queues_lower execute_game)

lemma game_run_cmd: "ctx_game (snd rm) \<Longrightarrow> ctx_game (snd (run_cmd c rm))"
  by (rule run_cmd_keeps [OF trivia_game.command_system_axioms]) (simp_all add: set_dispatcher_def)

section \<open>Scoring a round\<close>

lemma map_of_map_entry:
  "map_of (AList.map_entry k f m) x = (if x = k then map_option f (map_of m x) else map_of m x)"
  by (induction m) auto

definition scored :: "int \<Rightarrow> nat option \<Rightarrow> nat option \<Rightarrow> PlayerState \<Rightarrow> PlayerState" where
  "scored pts correct ans p =
     (case ans of None \<Rightarrow> p
      | Some ch \<Rightarrow> if Some ch = correct then p\<lparr>choice := Some ch, score := score p + pts, correct_count := correct_count p + 1\<rparr>
                   else p\<lparr>choice := Some ch\<rparr>)"

lemma map_of_scores:
  "distinct (map fst answers)
     \<Longrightarrow> map_of (fold (score_answer pts correct) answers ps) k = map_option (scored pts correct (map_of answers k)) (map_of ps k)"
proof (induction answers arbitrary: ps)
  case Nil
  then show ?case by (cases "map_of ps k") (simp_all add: scored_def)
next
  case (Cons a answers)
  obtain sid ch where a: "a = (sid, ch)" by force
  have "map_of (score_answer pts correct a ps) k
      = (if k = sid then map_option (scored pts correct (Some ch)) (map_of ps k) else map_of ps k)"
    by (auto simp: a score_answer_def map_of_map_entry scored_def Let_def intro!: option.map_cong)
  moreover have "map_of answers sid = None"
    using Cons.prems by (simp add: a map_of_eq_None_iff)
  ultimately show ?case
    using Cons by (cases "map_of ps k") (auto simp: a scored_def)
qed

lemma reveal_players:
  "distinct (map fst answers) \<Longrightarrow> map_of (t_players (reveal correct answers t s)) k
     = map_option (scored (points_for (difficulty s)) correct (map_of answers k)) (map_of (t_players s) k)"
  by (simp add: reveal_def map_of_scores)

section \<open>The life of the room\<close>

text \<open>
  The room from its creation, or from a snapshot of a game in order: messages, joins,
  departures, timers, deliveries of questions, and whatever else the actor does without
  touching the two state slots.
\<close>

inductive trivia_run :: "TriviaEnv \<Rightarrow> trivia_room \<Rightarrow> bool" for env where
  created: "on_create (trivia_hooks env) options rm = (Inr u, rm') \<Longrightarrow> trivia_run env rm'"
| restored: "on_restore (trivia_hooks env) snap rm = (Inr u, rm') \<Longrightarrow> snapshot_state (trivia_de env) snap = Inr s
    \<Longrightarrow> snapshot_internal (trivia_internal_de env) snap = Inr i \<Longrightarrow> game_ok s i \<Longrightarrow> trivia_run env rm'"
| message: "trivia_run env rm \<Longrightarrow> msg_run (trivia_hooks env) h c payload rm = (res, rm') \<Longrightarrow> trivia_run env rm'"
| joined: "trivia_run env rm \<Longrightarrow> on_join (trivia_hooks env) c options auth rm = (res, rm') \<Longrightarrow> trivia_run env rm'"
| dropped: "trivia_run env rm \<Longrightarrow> trivia_run env (on_drop (trivia_hooks env) c code rm)"
| reconnected: "trivia_run env rm \<Longrightarrow> trivia_run env (on_reconnect (trivia_hooks env) c rm)"
| left: "trivia_run env rm \<Longrightarrow> trivia_run env (on_leave (trivia_hooks env) c code rm)"
| timer: "trivia_run env rm \<Longrightarrow> trivia_run env (timer_run (trivia_hooks env) h rm)"
| delivered: "trivia_run env rm \<Longrightarrow> trivia_run env (command_run (trivia_hooks env) h rm)"
| disposed: "trivia_run env rm \<Longrightarrow> trivia_run env (on_dispose (trivia_hooks env) rm)"
| other: "trivia_run env rm \<Longrightarrow> ctx_state (snd rm') = ctx_state (snd rm) \<Longrightarrow> ctx_internal (snd rm') = ctx_internal (snd rm)
    \<Longrightarrow> trivia_run env rm'"

lemma ctx_game_frame:
  "ctx_state ctx' = ctx_state ctx \<Longrightarrow> ctx_internal ctx' = ctx_internal ctx \<Longrightarrow> ctx_game ctx' = ctx_game ctx"
  by (simp add: ctx_game_def)

lemma ctx_game_simps [simp]:
  "ctx_game (system_text t ctx) = ctx_game ctx" "ctx_game (snd (set_timeout dl h ctx)) = ctx_game ctx"
  "ctx_game (snd (allow_reconnection c e ctx)) = ctx_game ctx"
  by (simp_all add: ctx_game_def)

lemma wall_simps [simp]:
  "wall (internal_mut g ctx) = wall ctx" "wall (snd (clear_timeout i ctx)) = wall ctx"
  by (simp_all add: internal_mut_def clear_timeout_def Let_def)

lemma game_new: "game_ok (trivia_new d cat\<lparr>has_password := b\<rparr>) (internal_default\<lparr>password := pw\<rparr>)"
  by (simp add: game_ok_def trivia_new_def internal_default_def seats_in_order_def scores_fair_def hidden_def
      MAX_PLAYERS_def MAX_SPECTATORS_def)

lemma state_on_messages [simp]:
  "ctx_state (on_messages hs ctx) = ctx_state ctx" "ctx_internal (on_messages hs ctx) = ctx_internal ctx"
  by (induction hs arbitrary: ctx) (auto simp: on_messages_def)

lemma game_resume:
  assumes "ctx_game (snd rm)"
  shows "ctx_game (snd (resume_after_restore rm))"
proof -
  obtain s i where "ctx_state (snd rm) = Some s" "ctx_internal (snd rm) = Some i" "game_ok s i"
    using assms by (auto simp: ctx_game_def)
  then show ?thesis
    by (cases rm) (auto simp: resume_after_restore_def Let_def split_def intro!: game_run_cmd game_frame)
qed

lemma run_game: "trivia_run env rm \<Longrightarrow> ctx_game (snd rm)"
proof (induction rule: trivia_run.induct)
  case (created options rm u rm')
  then show ?case using game_new
    by (auto simp: trivia_hooks_def trivia_on_create_def Let_def ctx_game_def split: if_splits)
next
  case (restored snap rm u rm' s i)
  then show ?case
    by (auto simp: trivia_hooks_def trivia_on_restore_def restore_state_def restore_internal_def intro!: game_resume)
       (simp add: ctx_game_def)
next
  case (message rm h c payload res rm')
  then show ?case by (auto simp: trivia_hooks_def trivia_msg_run_def game_run_cmd split: option.splits)
next
  case (joined rm c options auth res rm')
  then show ?case by (auto simp: trivia_hooks_def trivia_on_join_def Let_def game_run_cmd)
next
  case (other rm rm')
  then show ?case using ctx_game_frame by blast
qed (auto simp: trivia_hooks_def trivia_hook_defs default_hooks_def on_ctx_def game_run_cmd set_dispatcher_def
    split: TriviaHandler.split)

text \<open>
  C17. The trivia game is played fairly. In every state the room gets into, the seats are
  within their limits, an owner exists exactly when there are players and is one of them, and
  every score is what the player's correct answers are worth; in the lobby and while a
  question is open neither the correct answer nor anybody's choice is in the synchronised
  state. Ending a round shows the correct answer and every choice that was made, and pays
  exactly the players whose choice was the correct one.
\<close>

theorem trivia_is_fair:
  assumes "trivia_run env rm"
  shows "\<exists>s i. ctx_state (snd rm) = Some s \<and> ctx_internal (snd rm) = Some i \<and> game_ok s i
    \<and> (phase s = ''question'' \<longrightarrow>
        (\<exists>s'. ctx_state (snd (fst (trivia_execute EndRound (rm, d)))) = Some s' \<and> phase s' = ''reveal''
          \<and> correct_index s' = secret_index i
          \<and> (\<forall>k. map_of (t_players s') k = map_option (scored (points_for (difficulty s)) (secret_index i)
                (map_of (round_answers i) k)) (map_of (t_players s) k))))"
proof -
  obtain s i where g: "ctx_state (snd rm) = Some s" "ctx_internal (snd rm) = Some i" "game_ok s i"
    using run_game [OF assms] by (auto simp: ctx_game_def)
  have d: "distinct (map fst (round_answers i))" using g(3) by (simp add: game_ok_def)
  have "ctx_state (snd (fst (trivia_execute EndRound (rm, d))))
      = Some (reveal (secret_index i) (round_answers i) (wall (snd rm)) s)" if "phase s = ''question''"
    using g that
    by (cases "round_timer (fst rm)") (auto simp: trivia_execute_def exec_end_round_def Let_def split_def)
  then show ?thesis
    using g reveal_players [OF d] by (auto simp: reveal_def)
qed

definition sample_trivia_env :: TriviaEnv where
  "sample_trivia_env = \<lparr>trivia_de = (\<lambda>_. Inl ''no''), trivia_internal_de = (\<lambda>_. Inl ''no''), answer_msg = (\<lambda>_. Inr 1),
     trivia_chat_msg = (\<lambda>_. Inr []), decode_claims = (\<lambda>_. None)\<rparr>"

definition sample_trivia :: trivia_room where
  "sample_trivia = (trivia_room_new, room_context_new ''r'' ''trivia'' ''p'' driver_new presence_new [] [] None 0 0 show_nat 0
     (\<lambda>_. client_new 0 [] ''s'') 1)"

theorem trivia_is_fair_witness:
  "\<exists>s i. ctx_state (snd (snd (on_create (trivia_hooks sample_trivia_env) JNull sample_trivia))) = Some s \<and> game_ok s i"
proof -
  obtain u rm where r: "on_create (trivia_hooks sample_trivia_env) JNull sample_trivia = (Inr u, rm)"
    by (simp add: trivia_hooks_def trivia_on_create_def json_index_def Let_def)
  obtain s i where "ctx_state (snd rm) = Some s" "game_ok s i"
    using trivia_is_fair [OF created [OF r], of dispatcher_new] by blast
  then show ?thesis unfolding r by auto
qed

section \<open>Two ways a game goes wrong\<close>

text \<open>
  A player who has answered and leaves is still counted among the answers, so the round ends
  although the one who is left has not answered.
\<close>

lemma leave_ends_round_early:
  assumes "ctx_state (snd rm) = Some s" and "phase s = ''question''" and "a \<noteq> b"
    and "t_players s = [(a, p), (b, q)]" and "answers_in s = 1" and "\<not> answered q"
  shows "EndRound \<in> set (cmd_queue (snd (trivia_execute (LeaveCmd a) (rm, dispatcher_new))))"
  using assms
  by (cases rm) (auto simp: trivia_execute_def exec_leave_def drop_member_def Let_def enqueue_def dispatcher_new_def)

text \<open>
  When all players leave while an answer is shown the game is finished and published; the
  timer of the break still runs, and opens the next round of the finished game.
\<close>

lemma finished_game_resumes:
  assumes "ctx_state (snd rm) = Some s" and "phase s = ''finished''" and "round_no s < TOTAL_ROUNDS"
    and "ctx_internal (snd rm) = Some i" and "map_of (pending_questions i) (round_no s + 1) = Some q"
  shows "snd (trivia_execute Advance (rm, dispatcher_new)) = dispatcher_new\<lparr>cmd_queue := [StartRound (round_no s + 1)]\<rparr>"
    and "map_option phase (ctx_state (snd (fst (trivia_execute (StartRound (round_no s + 1)) (rm, d))))) = Some ''question''"
  using assms
  by (cases rm; auto simp: trivia_execute_def exec_advance_def exec_start_round_def open_round_def Let_def split_def
      enqueue_def dispatcher_new_def)+

end
