(* ===== verification/Trivia_Secret.thy ===== *)
theory Trivia_Secret
  imports Trivia_Game
begin

text \<open>
  Secrecy of the trivia game: nothing that leaves the private slot of the room depends on the
  correct answers, or on the choices of the players, before a round has ended.
\<close>

section \<open>The answers stay secret\<close>

text \<open>
  Two rooms look alike when they differ only in the private slot, and there only in which
  answer is the correct one and which answer a player has chosen. Clients are sent the
  state, messages and the handshake, which are all in what \<open>outside\<close> keeps.
\<close>

definition outside :: "('s, 'i, 'h) RoomContext \<Rightarrow> ('s, 'i, 'h) RoomContext" where
  "outside ctx = clear_internal ctx"

definition same_question :: "Question \<Rightarrow> Question \<Rightarrow> bool" where
  "same_question q r \<longleftrightarrow> q_text q = q_text r \<and> q_choices q = q_choices r"

definition alike_internal :: "TriviaInternal \<Rightarrow> TriviaInternal \<Rightarrow> bool" where
  "alike_internal i j \<longleftrightarrow> password i = password j \<and> batch_in_flight i = batch_in_flight j \<and> needed_round i = needed_round j
     \<and> (secret_index i = None \<longleftrightarrow> secret_index j = None)
     \<and> list_all2 (rel_prod (=) same_question) (pending_questions i) (pending_questions j)
     \<and> list_all2 (rel_prod (=) (\<lambda>_ _. True)) (round_answers i) (round_answers j)"

definition alike :: "trivia_ctx \<Rightarrow> trivia_ctx \<Rightarrow> bool" where
  "alike c d \<longleftrightarrow> outside c = outside d \<and> rel_option alike_internal (ctx_internal c) (ctx_internal d)"

text \<open>Commands that differ only in a choice or in which answers of new questions are correct.\<close>

fun alike_cmd :: "Cmd \<Rightarrow> Cmd \<Rightarrow> bool" where
  "alike_cmd (AnswerCmd sid ch) (AnswerCmd sid' ch') \<longleftrightarrow> sid = sid' \<and> (ch < 4 \<longleftrightarrow> ch' < 4)"
| "alike_cmd (QuestionsReady qs) (QuestionsReady qs') \<longleftrightarrow> list_all2 same_question qs qs'"
| "alike_cmd c c' \<longleftrightarrow> c = c'"

lemma alist_rel:
  assumes "list_all2 (rel_prod (=) R) m n"
  shows "rel_option R (map_of m k) (map_of n k)"
    and "R x y \<Longrightarrow> list_all2 (rel_prod (=) R) (AList.update k x m) (AList.update k y n)"
    and "list_all2 (rel_prod (=) R) (AList.delete k m) (AList.delete k n)"
  using assms by (induction rule: list_all2_induct) (auto simp: AList.delete_eq)

lemma outside_eq: "outside c = outside d \<longleftrightarrow> (\<exists>x. c = d\<lparr>internal_slot := x\<rparr>)"
proof
  assume "outside c = outside d"
  then have "c = (outside d)\<lparr>internal_slot := internal_slot c\<rparr>"
    by (metis (no_types, lifting) RoomContext.surjective RoomContext.update_convs(7) clear_internal_def outside_def)
  then show "\<exists>x. c = d\<lparr>internal_slot := x\<rparr>" by (auto simp: outside_def clear_internal_def)
qed (auto simp: outside_def clear_internal_def)

lemma outside_eqD:
  assumes "outside c = outside d"
  shows "state_slot c = state_slot d" "wall c = wall d" "store c = store d" "clients c = clients d"
    "room_id c = room_id d" "timers c = timers d" "next_timer_id c = next_timer_id d" "ctx_state c = ctx_state d"
    "the_state c = the_state d" "get_client sid c = get_client sid d"
  using assms by (auto simp: outside_eq ctx_state_def the_state_def get_client_def)

text \<open>No operation of the context that the game uses reads the private slot.\<close>

lemma internal_last:
  "ctx\<lparr>internal_slot := x, store := y0\<rparr> = ctx\<lparr>store := y0, internal_slot := x\<rparr>"
  "ctx\<lparr>internal_slot := x, driver := y1\<rparr> = ctx\<lparr>driver := y1, internal_slot := x\<rparr>"
  "ctx\<lparr>internal_slot := x, lobby_tx := y2\<rparr> = ctx\<lparr>lobby_tx := y2, internal_slot := x\<rparr>"
  "ctx\<lparr>internal_slot := x, metadata := y3\<rparr> = ctx\<lparr>metadata := y3, internal_slot := x\<rparr>"
  "ctx\<lparr>internal_slot := x, clients := y4\<rparr> = ctx\<lparr>clients := y4, internal_slot := x\<rparr>"
  "ctx\<lparr>internal_slot := x, reconnections := y5\<rparr> = ctx\<lparr>reconnections := y5, internal_slot := x\<rparr>"
  "ctx\<lparr>internal_slot := x, reserved_seats := y6\<rparr> = ctx\<lparr>reserved_seats := y6, internal_slot := x\<rparr>"
  "ctx\<lparr>internal_slot := x, view_snapshots := y7\<rparr> = ctx\<lparr>view_snapshots := y7, internal_slot := x\<rparr>"
  "ctx\<lparr>internal_slot := x, timers := y8\<rparr> = ctx\<lparr>timers := y8, internal_slot := x\<rparr>"
  "ctx\<lparr>internal_slot := x, next_timer_id := y9\<rparr> = ctx\<lparr>next_timer_id := y9, internal_slot := x\<rparr>"
  "ctx\<lparr>internal_slot := x, tap := y10\<rparr> = ctx\<lparr>tap := y10, internal_slot := x\<rparr>"
  "ctx\<lparr>internal_slot := x, after_patch := y11\<rparr> = ctx\<lparr>after_patch := y11, internal_slot := x\<rparr>"
  "ctx\<lparr>internal_slot := x, state_slot := y12\<rparr> = ctx\<lparr>state_slot := y12, internal_slot := x\<rparr>"
  by (cases ctx; simp)+

lemma outside_each_client: "each_client p f cs (ctx\<lparr>internal_slot := x\<rparr>) = (each_client p f cs ctx)\<lparr>internal_slot := x\<rparr>"
proof (induction cs arbitrary: ctx)
  case (Cons c cs)
  show ?case
    using Cons.IH [of ctx] Cons.IH [of "on_client c f ctx"] by (simp add: each_client_def on_client_def internal_last)
qed (simp add: each_client_def)

lemma outside_sync_listing: "sync_listing (ctx\<lparr>internal_slot := x\<rparr>) = (sync_listing ctx)\<lparr>internal_slot := x\<rparr>"
proof -
  have "update_listing (ctx\<lparr>internal_slot := x\<rparr>) = update_listing ctx"
    by (rule ext) (simp add: update_listing_def listing_client_count_def pending_seats_def)
  then show ?thesis by (simp add: sync_listing_def internal_last Let_def split_def split: option.split)
qed

lemma outside_ops:
  "set_metadata m (ctx\<lparr>internal_slot := x\<rparr>) = (set_metadata m ctx)\<lparr>internal_slot := x\<rparr>"
  "broadcast t v (ctx\<lparr>internal_slot := x\<rparr>) = (broadcast t v ctx)\<lparr>internal_slot := x\<rparr>"
  "remove_client sid (ctx\<lparr>internal_slot := x\<rparr>) = (remove_client sid ctx)\<lparr>internal_slot := x\<rparr>"
  "on_client c f (ctx\<lparr>internal_slot := x\<rparr>) = (on_client c f ctx)\<lparr>internal_slot := x\<rparr>"
  "state_mut g (ctx\<lparr>internal_slot := x\<rparr>) = (state_mut g ctx)\<lparr>internal_slot := x\<rparr>"
  "snd (set_timeout d h (ctx\<lparr>internal_slot := x\<rparr>)) = (snd (set_timeout d h ctx))\<lparr>internal_slot := x\<rparr>"
  by (simp_all add: set_metadata_def broadcast_def broadcast_with_options_def Let_def tap_log_def remove_client_def
      outside_each_client outside_sync_listing on_client_def state_mut_def set_timeout_def internal_last)

lemma alike_op:
  assumes "\<And>ctx x. f (ctx\<lparr>internal_slot := x\<rparr>) = (f ctx)\<lparr>internal_slot := x\<rparr>" and "\<And>ctx. ctx_internal (f ctx) = ctx_internal ctx"
    and "alike c d"
  shows "alike (f c) (f d)"
proof -
  obtain x where "c = d\<lparr>internal_slot := x\<rparr>" using assms(3) unfolding alike_def outside_eq by blast
  then have "outside (f c) = outside (f d)" unfolding outside_eq using assms(1) by blast
  then show ?thesis using assms(2,3) by (simp add: alike_def)
qed

lemma alike_ops:
  assumes "alike c d"
  shows "alike (broadcast t v c) (broadcast t v d)" "alike (set_metadata m c) (set_metadata m d)"
    "alike (remove_client sid c) (remove_client sid d)" "alike (on_client r f c) (on_client r f d)"
    "alike (state_mut g c) (state_mut g d)" "alike (snd (set_timeout dl h c)) (snd (set_timeout dl h d))"
  by (rule alike_op [OF outside_ops(2) _ assms] alike_op [OF outside_ops(1) _ assms] alike_op [OF outside_ops(3) _ assms]
      alike_op [OF outside_ops(4) _ assms] alike_op [OF outside_ops(5) _ assms] alike_op [OF outside_ops(6) _ assms], simp)+

lemma next_timer_simps [simp]:
  "fst (set_timeout dl h ctx) = next_timer_id ctx + 1"
  "next_timer_id (state_mut g ctx) = next_timer_id ctx" "next_timer_id (internal_mut p ctx) = next_timer_id ctx"
  by (simp_all add: set_timeout_def state_mut_def internal_mut_def Let_def)

lemma alike_internal_mut:
  assumes "alike c d" and "\<And>i j. alike_internal i j \<Longrightarrow> alike_internal (p i) (q j)"
  shows "alike (internal_mut p c) (internal_mut q d)"
proof -
  have "outside (internal_mut p c) = outside c" for p and c :: trivia_ctx
    by (simp add: outside_def clear_internal_def internal_mut_def)
  then show ?thesis using assms by (auto simp: alike_def option_rel_Some1 option.rel_map elim: option.rel_mono_strong)
qed

lemma alike_internalD:
  "alike_internal i j \<Longrightarrow> batch_in_flight i = batch_in_flight j" "alike_internal i j \<Longrightarrow> needed_round i = needed_round j"
  "alike_internal i j \<Longrightarrow> length (pending_questions i) = length (pending_questions j)"
  "alike_internal i j \<Longrightarrow> rel_option same_question (map_of (pending_questions i) n) (map_of (pending_questions j) n)"
  by (auto simp: alike_internal_def list_all2_lengthD intro: alist_rel)

lemma alike_facts:
  assumes "alike c d"
  shows "the_state c = the_state d" "ctx_state c = ctx_state d" "wall c = wall d" "store c = store d"
    "room_id c = room_id d" "get_client sid c = get_client sid d" "alike_internal (the_internal c) (the_internal d)"
proof -
  show "alike_internal (the_internal c) (the_internal d)"
    using assms by (auto simp: alike_def the_internal_def alike_internal_def internal_default_def option_rel_Some1 split: option.split)
qed (use assms outside_eqD [of c d] in \<open>simp_all add: alike_def\<close>)

lemma alike_sync [simp]: "alike c d \<Longrightarrow> alike (sync_meta c) (sync_meta d)" "alike c d \<Longrightarrow> alike (system_text t c) (system_text t d)"
  by (simp_all add: sync_meta_def system_text_def Let_def alike_ops alike_facts(1))

lemma alike_parts:
  "alike_internal i j \<Longrightarrow> alike_internal (i\<lparr>pending_questions := [], secret_index := None\<rparr>) (j\<lparr>pending_questions := [], secret_index := None\<rparr>)"
  "alike_internal i j \<Longrightarrow> alike_internal (i\<lparr>round_answers := AList.update sid ch (round_answers i)\<rparr>)
     (j\<lparr>round_answers := AList.update sid ch' (round_answers j)\<rparr>)"
  "alike_internal i j \<Longrightarrow> alike_internal (i\<lparr>batch_in_flight := b\<rparr>) (j\<lparr>batch_in_flight := b\<rparr>)"
  "alike_internal i j \<Longrightarrow> alike_internal (i\<lparr>needed_round := n\<rparr>) (j\<lparr>needed_round := n\<rparr>)"
  "alike_internal i j \<Longrightarrow> alike_internal (i\<lparr>pending_questions := AList.delete nr (pending_questions i), secret_index := Some a, round_answers := []\<rparr>)
     (j\<lparr>pending_questions := AList.delete nr (pending_questions j), secret_index := Some a', round_answers := []\<rparr>)"
  by (auto simp: alike_internal_def intro: alist_rel)

lemma alike_move_answer:
  assumes "alike_internal i j"
  shows "alike_internal (move_answer old sid i) (move_answer old sid j)"
proof -
  have r: "list_all2 (rel_prod (=) (\<lambda>_ _. True)) (round_answers i) (round_answers j)"
    using assms by (simp add: alike_internal_def)
  show ?thesis
    using assms alist_rel(1) [OF r, of old] alist_rel(2) [OF alist_rel(3) [OF r, of old], where k = sid]
    by (cases "map_of (round_answers i) old"; cases "map_of (round_answers j) old")
       (auto simp: alike_internal_def move_answer_def)
qed

lemma alike_store_questions:
  assumes "alike_internal i j" and "list_all2 same_question qs qs'"
  shows "alike_internal (store_questions qs i) (store_questions qs' j)"
proof -
  have "list_all2 (rel_prod (=) same_question)
      (fold (\<lambda>(n, q). AList.update (n + 1) q) (enumerate k qs) m) (fold (\<lambda>(n, q). AList.update (n + 1) q) (enumerate k qs') m')"
    if "list_all2 (rel_prod (=) same_question) m m'" for k m m'
    using assms(2) that by (induction arbitrary: k m m' rule: list_all2_induct) (auto intro: alist_rel)
  then show ?thesis using assms(1) by (simp add: alike_internal_def store_questions_def)
qed

definition alike_state :: "trivia_room \<times> Cmd Dispatcher \<Rightarrow> trivia_room \<times> Cmd Dispatcher \<Rightarrow> bool" where
  "alike_state x y \<longleftrightarrow> fst (fst x) = fst (fst y) \<and> alike (snd (fst x)) (snd (fst y)) \<and> snd x = snd y"

lemma the_state_ops [simp]:
  "the_state (internal_mut g ctx) = the_state ctx"
  by (simp add: the_state_def)

lemma alike_execute_same:
  assumes "alike c d" and "cmd \<noteq> EndRound" and "\<forall>qs. cmd \<noteq> QuestionsReady qs" and "\<forall>sid ch. cmd \<noteq> AnswerCmd sid ch"
  shows "alike_state (trivia_execute cmd ((r, c), q)) (trivia_execute cmd ((r, d), q))"
proof (cases cmd)
  case (JoinCmd sid name uid w)
  then show ?thesis using alike_facts(1,6) [OF assms(1)] alike_facts(1) [OF alike_ops(5) [OF assms(1)]]
    by (auto simp: alike_state_def trivia_execute_def exec_join_def Let_def
        intro!: alike_ops alike_sync alike_internal_mut alike_move_answer assms(1) split: option.split)
next
  case GenerateQuestions
  then show ?thesis using alike_facts(1,7) [OF assms(1)]
    by (auto simp: alike_state_def trivia_execute_def exec_generate_def alike_internalD(1,3)
        intro!: alike_internal_mut alike_parts assms(1))
next
  case (StartRound n)
  show ?thesis
  proof (cases "map_of (pending_questions (the_internal c)) n")
    case None
    moreover have "map_of (pending_questions (the_internal d)) n = None"
      using alike_internalD(4) [OF alike_facts(7) [OF assms(1)], of n] None by simp
    ultimately show ?thesis
      using StartRound alike_internalD(1) [OF alike_facts(7) [OF assms(1)]]
      by (auto simp: alike_state_def trivia_execute_def exec_start_round_def Let_def
          intro!: alike_ops alike_sync alike_internal_mut alike_parts assms(1))
  next
    case (Some a)
    then obtain b where b: "map_of (pending_questions (the_internal d)) n = Some b" "same_question a b"
      using alike_internalD(4) [OF alike_facts(7) [OF assms(1)], of n] by (auto simp: option_rel_Some1)
    then have o: "open_round n a = open_round n b" by (auto simp: open_round_def same_question_def fun_eq_iff)
    show ?thesis
      using StartRound Some b(1) alike_facts(3) [OF assms(1)] outside_eqD(7) [of c d] assms(1) [unfolded alike_def]
      by (auto simp: alike_state_def trivia_execute_def exec_start_round_def Let_def split_def o
          intro!: alike_ops alike_sync alike_internal_mut alike_parts assms(1))
  qed
qed (use assms alike_facts [OF assms(1)] in \<open>auto simp: alike_state_def trivia_execute_def exec_defs Let_def
      intro!: alike_ops alike_sync alike_internal_mut alike_parts split: option.split\<close>)

lemma alike_execute:
  assumes "alike_state x y" and "alike_cmd a b" and "a \<noteq> EndRound"
  shows "alike_state (trivia_execute a x) (trivia_execute b y)"
proof -
  obtain r c q d where x: "x = ((r, c), q)" "y = ((r, d), q)" and cd: "alike c d"
    using assms(1) by (cases x; cases y) (auto simp: alike_state_def)
  note f = alike_facts [OF cd]
  consider (answer) sid ch ch' where "a = AnswerCmd sid ch" "b = AnswerCmd sid ch'" "ch < 4 \<longleftrightarrow> ch' < 4"
    | (ready) qs qs' where "a = QuestionsReady qs" "b = QuestionsReady qs'" "list_all2 same_question qs qs'"
    | (same) "a = b" "\<forall>qs. a \<noteq> QuestionsReady qs" "\<forall>sid ch. a \<noteq> AnswerCmd sid ch"
    using assms(2) by (cases a; cases b) auto
  then show ?thesis
  proof cases
    case answer
    then show ?thesis using f(1)
      by (auto simp: x alike_state_def trivia_execute_def exec_answer_def Let_def cd
          intro!: alike_ops alike_internal_mut alike_parts split: option.split)
  next
    case ready
    have t: "map q_text qs = map q_text qs'"
      using ready(3) by (induction rule: list_all2_induct) (auto simp: same_question_def)
    have s: "alike (internal_mut (store_questions qs) c) (internal_mut (store_questions qs') d)"
      using ready(3) by (intro alike_internal_mut [OF cd] alike_store_questions)
    show ?thesis using ready(1,2) f(1) alike_internalD(2) [OF alike_facts(7) [OF s]]
      by (auto simp: x alike_state_def trivia_execute_def exec_questions_def Let_def t s
          intro!: alike_internal_mut alike_parts cd alike_store_questions ready(3))
  next
    case same
    then show ?thesis using alike_execute_same [OF cd assms(3) same(2,3)] by (simp add: x)
  qed
qed

text \<open>
  C18. The answers stay secret while a question is open. Take two rooms that differ only in
  which answers of the prepared questions are correct and in what the players have chosen,
  and let them execute the same commands, up to the choices made and the correct answers of
  new questions, but not the end of a round: then everything outside the private slot is the
  same in both: the state that is synchronised, every message to every client, the listing,
  the timers, the results published, the commands queued. So no client can tell the correct
  answer, or what another player has chosen, before the round has ended.
\<close>

theorem answers_stay_secret:
  assumes "alike c d" and "list_all2 alike_cmd as bs" and "EndRound \<notin> set as"
    and "fold trivia_execute as ((r, c), q) = ((r1, c1), q1)" and "fold trivia_execute bs ((r, d), q) = ((r2, d2), q2)"
  shows "r1 = r2 \<and> outside c1 = outside d2 \<and> q1 = q2"
proof -
  have "alike_state (fold trivia_execute as x) (fold trivia_execute bs y)" if "alike_state x y" for x y
    using assms(2,3) that
  proof (induction arbitrary: x y rule: list_all2_induct)
    case (Cons a as b bs)
    then have "alike_state (trivia_execute a x) (trivia_execute b y)" by (intro alike_execute) auto
    from Cons.IH [OF _ this] Cons.prems show ?case by simp
  qed simp
  from this [of "((r, c), q)" "((r, d), q)"] show ?thesis
    using assms(1,4,5) by (simp add: alike_state_def alike_def)
qed

text \<open>An open question of a room in the first round, by its correct answer.\<close>

definition sample_question :: "nat \<Rightarrow> trivia_ctx" where
  "sample_question a = set_internal \<lparr>erased_value = internal_default\<lparr>secret_index := Some a\<rparr>,
       erased_ser = trivia_internal_ser, erased_de = (\<lambda>_. Inl ''no'')\<rparr>
     (set_state \<lparr>erased_value = (trivia_new ''easy'' ''x'')
         \<lparr>phase := ''question'', t_players := [(''s'', player_new [] ''n''), (''t'', player_new [] ''m'')], owner := Some ''s''\<rparr>,
       erased_ser = trivia_ser, erased_de = (\<lambda>_. Inl ''no'')\<rparr> (snd sample_trivia))"

lemma sample_alike: "alike (sample_question 0) (sample_question 3)"
  by (simp add: alike_def outside_def clear_internal_def sample_question_def set_internal_def alike_internal_def
      internal_default_def ctx_internal_def internal_new_def internal_get_def)

theorem answers_stay_secret_witness:
  "\<exists>r1 c1 q1 r2 d2 q2.
     fold trivia_execute [AnswerCmd ''s'' 0] ((trivia_room_new, sample_question 0), dispatcher_new) = ((r1, c1), q1)
   \<and> fold trivia_execute [AnswerCmd ''s'' 2] ((trivia_room_new, sample_question 3), dispatcher_new) = ((r2, d2), q2)
   \<and> r1 = r2 \<and> outside c1 = outside d2 \<and> q1 = q2"
proof -
  obtain r1 c1 q1 r2 d2 q2
    where e: "fold trivia_execute [AnswerCmd ''s'' 0] ((trivia_room_new, sample_question 0), dispatcher_new) = ((r1, c1), q1)"
      "fold trivia_execute [AnswerCmd ''s'' 2] ((trivia_room_new, sample_question 3), dispatcher_new) = ((r2, d2), q2)"
    by (metis surj_pair)
  have "list_all2 alike_cmd [AnswerCmd ''s'' 0] [AnswerCmd ''s'' 2]" "EndRound \<notin> set [AnswerCmd ''s'' 0]" by simp_all
  from answers_stay_secret [OF sample_alike this e] e show ?thesis by blast
qed

text \<open>The end of the round tells the two rooms apart.\<close>

lemma end_round_reveals:
  "ctx_state (snd (fst (trivia_execute EndRound ((trivia_room_new, sample_question a), dispatcher_new))))
     = Some s \<Longrightarrow> correct_index s = Some a"
  by (simp add: trivia_execute_def exec_end_round_def sample_question_def trivia_room_new_def internal_default_def
      Let_def split_def reveal_def trivia_new_def player_new_def) auto

end
