(* ===== verification/Questions.thy ===== *)
theory Questions
  imports Trivia_Commands
begin

text \<open>
  The questions of the trivia demo, \<^verbatim>\<open>demos/trivia/server/src/llm.rs\<close>: the prompt, the
  reading of the model's answer with the shuffle of the choices, and the built-in questions
  that replace or complete it. The call to the model, the JSON parser and the random bytes of
  \<^verbatim>\<open>nanoid\<close> are arguments.
\<close>

section \<open>The prompts\<close>

definition recently :: "nat \<Rightarrow> string list \<Rightarrow> string" where
  "recently n previous = join_with '' | '' (take n (rev previous))"

definition base_prompt :: "string \<Rightarrow> string \<Rightarrow> string" where
  "base_prompt lvl cat =
     ''Kategori: '' @ cat @ [CHR 0x0A] @ ''Zorluk Seviyesi: '' @ lvl"

definition batch_prompt :: "string \<Rightarrow> string \<Rightarrow> nat \<Rightarrow> string list \<Rightarrow> string" where
  "batch_prompt lvl cat cnt previous =
     base_prompt lvl cat @ [CHR 0x0A] @ ''Adet: '' @ show_nat cnt
     @ (if previous \<noteq> [] then [CHR 0x0A] @ ''Daha '' @ [CHR 0xC3, CHR 0xB6] @ ''nce sorulan sorular (BUNLARI VE '' @ [CHR 0xC3, CHR 0x87] @ ''OK BENZERLER'' @ [CHR 0xC4, CHR 0xB0] @ ''N'' @ [CHR 0xC4, CHR 0xB0] @ '' TEKRARLAMA): '' @ recently 30 previous else [])"

definition single_prompt :: "string \<Rightarrow> string \<Rightarrow> string list \<Rightarrow> string" where
  "single_prompt lvl cat previous =
     base_prompt lvl cat
     @ (if previous \<noteq> [] then [CHR 0x0A] @ ''Daha '' @ [CHR 0xC3, CHR 0xB6] @ ''nce sorulan sorular (BUNLARI TEKRARLAMA): '' @ recently 6 previous else [])"

section \<open>Reading an answer\<close>

function trim_start_matches :: "string \<Rightarrow> string \<Rightarrow> string" where
  "trim_start_matches p s =
     (if p \<noteq> [] \<and> starts_with s p then trim_start_matches p (drop (length p) s) else s)"
  by pat_completeness auto
termination
  by (relation "measure (length \<circ> snd)") (auto simp: starts_with_def strip_prefix_Some)

declare trim_start_matches.simps [simp del]

definition trim_end_matches :: "string \<Rightarrow> string \<Rightarrow> string" where
  "trim_end_matches p s = rev (trim_start_matches (rev p) (rev s))"

definition strip_fences :: "string \<Rightarrow> string" where
  "strip_fences content =
     str_trim (trim_end_matches ''```'' (trim_start_matches ''```'' (trim_start_matches ''```json'' (str_trim content))))"

fun as_array :: "json \<Rightarrow> json list option" where
  "as_array (JArr xs) = Some xs"
| "as_array _ = None"

definition is_correct :: "json \<Rightarrow> bool" where
  "is_correct a = (case as_bool (json_index a ''is_correct'') of Some b \<Rightarrow> b | None \<Rightarrow> False)"

text \<open>The loop over the answers: the texts, and the index of the first correct one.\<close>

fun read_answers ::
  "nat \<Rightarrow> json list \<Rightarrow> string list \<Rightarrow> nat option \<Rightarrow> (string, string list \<times> nat option) result" where
  "read_answers i [] choices correct = Inr (choices, correct)"
| "read_answers i (a # as) choices correct =
     (case as_str (json_index a ''text'') of
        None \<Rightarrow> Inl ''missing answer text''
      | Some t \<Rightarrow>
          read_answers (Suc i) as (choices @ [t])
            (if is_correct a \<and> correct = None then Some i else correct))"

definition swap_at :: "'a list \<Rightarrow> nat \<Rightarrow> nat \<Rightarrow> 'a list" where
  "swap_at xs i j = xs[i := xs ! j, j := xs ! i]"

text \<open>The loop from the last position down to the second; \<open>bytes\<close> are the random bytes.\<close>

definition shuffle_order :: "(nat \<Rightarrow> nat) \<Rightarrow> nat list \<Rightarrow> nat list" where
  "shuffle_order bytes order =
     fold (\<lambda>i ord. swap_at ord i (bytes i mod (i + 1))) (rev [1..<length order]) order"

definition position :: "('a \<Rightarrow> bool) \<Rightarrow> 'a list \<Rightarrow> nat option" where
  "position P xs = find (\<lambda>i. P (xs ! i)) [0..<length xs]"

definition parse_question_value :: "(nat \<Rightarrow> nat) \<Rightarrow> json \<Rightarrow> (string, Question) result" where
  "parse_question_value bytes v =
     (case as_str (json_index v ''question'') of
        None \<Rightarrow> Inl ''missing question''
      | Some txt \<Rightarrow>
     (case as_array (json_index v ''answers'') of
        None \<Rightarrow> Inl ''missing answers''
      | Some answers \<Rightarrow>
          if length answers \<noteq> 4 then Inl (''expected 4 answers, got '' @ show_nat (length answers))
          else
     (case read_answers 0 answers [] None of
        Inl e \<Rightarrow> Inl e
      | Inr (choices, None) \<Rightarrow> Inl ''no correct answer marked''
      | Inr (choices, Some correct) \<Rightarrow>
          let order = shuffle_order bytes [0, 1, 2, 3];
              shuffled = map (\<lambda>i. choices ! i) order
          in Inr \<lparr>q_text = txt, q_choices = shuffled,
                  answer_index = the (position (\<lambda>i. i = correct) order)\<rparr>)))"

fun parse_all :: "(nat \<Rightarrow> nat \<Rightarrow> nat) \<Rightarrow> nat \<Rightarrow> json list \<Rightarrow> (string, Question list) result" where
  "parse_all bytes n [] = Inr []"
| "parse_all bytes n (v # vs) =
     (case parse_question_value (bytes n) v of
        Inl e \<Rightarrow> Inl e
      | Inr q \<Rightarrow> map_sum id (\<lambda>qs. q # qs) (parse_all bytes (Suc n) vs))"

definition parse_question_batch ::
  "(string \<Rightarrow> (string, json) result) \<Rightarrow> (nat \<Rightarrow> nat \<Rightarrow> nat) \<Rightarrow> string \<Rightarrow> (string, Question list) result" where
  "parse_question_batch from_str bytes content =
     (case from_str (strip_fences content) of
        Inl e \<Rightarrow> Inl e
      | Inr v \<Rightarrow>
     (case as_array (json_index v ''questions'') of
        None \<Rightarrow> Inl ''missing questions array''
      | Some [] \<Rightarrow> Inl ''empty questions array''
      | Some qs \<Rightarrow> parse_all bytes 0 qs))"

definition parse_question ::
  "(string \<Rightarrow> (string, json) result) \<Rightarrow> (nat \<Rightarrow> nat) \<Rightarrow> string \<Rightarrow> (string, Question) result" where
  "parse_question from_str bytes content =
     (case from_str (strip_fences content) of Inl e \<Rightarrow> Inl e | Inr v \<Rightarrow> parse_question_value bytes v)"

section \<open>The built-in questions\<close>

definition question_bank :: "(string \<times> string list \<times> nat) list" where
  "question_bank =
     [(''Hangisi bir programlama dilidir?'',
        [''Python'', ''HTML'', ''CSS'', ''SQL''], 0),
      (''D'' @ [CHR 0xC3, CHR 0xBC] @ ''nyan'' @ [CHR 0xC4, CHR 0xB1] @ ''n en kalabal'' @ [CHR 0xC4, CHR 0xB1] @ ''k '' @ [CHR 0xC3, CHR 0xBC] @ ''lkesi hangisidir?'',
        [''Hindistan'', [CHR 0xC3, CHR 0x87] @ ''in'', ''ABD'', ''Endonezya''], 0),
      (''I'' @ [CHR 0xC5, CHR 0x9F, CHR 0xC4, CHR 0xB1] @ ''k h'' @ [CHR 0xC4, CHR 0xB1] @ ''z'' @ [CHR 0xC4, CHR 0xB1] @ '' yakla'' @ [CHR 0xC5, CHR 0x9F, CHR 0xC4, CHR 0xB1] @ ''k ka'' @ [CHR 0xC3, CHR 0xA7] @ '' km/s'' @ [CHR 0x27] @ ''dir?'',
        [''300.000'', ''150.000'', ''1.000'', ''30.000''], 0),
      (''Hangisi bir asal say'' @ [CHR 0xC4, CHR 0xB1] @ ''d'' @ [CHR 0xC4, CHR 0xB1] @ ''r?'',
        [''97'', ''91'', ''87'', ''93''], 0),
      (''Fotosentezde hangi gaz '' @ [CHR 0xC3, CHR 0xBC] @ ''retilir?'',
        [''Oksijen'', ''Karbondioksit'', ''Azot'', ''Hidrojen''], 0),
      ([CHR 0xC4, CHR 0xB0] @ ''stanbul hangi y'' @ [CHR 0xC4, CHR 0xB1] @ ''lda fethedilmi'' @ [CHR 0xC5, CHR 0x9F] @ ''tir?'',
        [''1453'', ''1451'', ''1461'', ''1444''], 0),
      (''Hangisi en b'' @ [CHR 0xC3, CHR 0xBC] @ ''y'' @ [CHR 0xC3, CHR 0xBC] @ ''k gezegen?'',
        [''J'' @ [CHR 0xC3, CHR 0xBC] @ ''piter'', ''Sat'' @ [CHR 0xC3, CHR 0xBC] @ ''rn'', ''Nept'' @ [CHR 0xC3, CHR 0xBC] @ ''n'', ''Mars''], 0),
      (''DNA'' @ [CHR 0x27] @ ''n'' @ [CHR 0xC4, CHR 0xB1] @ ''n a'' @ [CHR 0xC3, CHR 0xA7, CHR 0xC4, CHR 0xB1] @ ''l'' @ [CHR 0xC4, CHR 0xB1] @ ''m'' @ [CHR 0xC4, CHR 0xB1] @ '' nedir?'',
        [''Deoksiribon'' @ [CHR 0xC3, CHR 0xBC] @ ''kleik asit'', ''Ribon'' @ [CHR 0xC3, CHR 0xBC] @ ''kleik asit'', ''Amino asit'', ''Folik asit''], 0)]"

definition mock_question :: "nat \<Rightarrow> Question" where
  "mock_question seed =
     (case question_bank ! (seed mod length question_bank) of
        (txt, choices, correct) \<Rightarrow> \<lparr>q_text = txt, q_choices = choices, answer_index = correct\<rparr>)"

text \<open>The model: a key may be missing, and \<open>complete\<close> is what it answers to a prompt.\<close>

record LlmClient =
  has_key :: bool
  recent :: "string list"
  complete :: "string \<Rightarrow> (string, string) result"

definition generate_batch ::
  "(string \<Rightarrow> (string, json) result) \<Rightarrow> (nat \<Rightarrow> nat \<Rightarrow> nat) \<Rightarrow> LlmClient \<Rightarrow> string \<Rightarrow> string \<Rightarrow> nat
     \<Rightarrow> (string, Question list) result" where
  "generate_batch from_str bytes llm lvl cat cnt =
     (if \<not> has_key llm then Inl ''LLM_API_KEY not set''
      else (case complete llm (batch_prompt lvl cat cnt (recent llm)) of
              Inl e \<Rightarrow> Inl e
            | Inr content \<Rightarrow> parse_question_batch from_str bytes content))"

definition generate ::
  "(string \<Rightarrow> (string, json) result) \<Rightarrow> (nat \<Rightarrow> nat) \<Rightarrow> LlmClient \<Rightarrow> string \<Rightarrow> string \<Rightarrow> string list
     \<Rightarrow> (string, Question) result" where
  "generate from_str bytes llm lvl cat previous =
     (case complete llm (single_prompt lvl cat previous) of
        Inl e \<Rightarrow> Inl e
      | Inr content \<Rightarrow> parse_question from_str bytes content)"

definition generate_or_mock ::
  "(string \<Rightarrow> (string, json) result) \<Rightarrow> (nat \<Rightarrow> nat) \<Rightarrow> LlmClient \<Rightarrow> string \<Rightarrow> string \<Rightarrow> string list \<Rightarrow> Question" where
  "generate_or_mock from_str bytes llm lvl cat previous =
     (case generate from_str bytes llm lvl cat previous of
        Inr q \<Rightarrow> q | Inl _ \<Rightarrow> mock_question (length previous))"

text \<open>The loop that fills up a batch; nothing in it bounds the number of rounds.\<close>

partial_function (option) top_up :: "nat \<Rightarrow> nat \<Rightarrow> Question list \<Rightarrow> Question list option" where
  "top_up cnt seed qs =
     (if length qs < cnt
      then (let q = mock_question seed
            in top_up cnt (seed + 1) (if list_ex (\<lambda>r. q_text r = q_text q) qs then qs else qs @ [q]))
      else Some qs)"

definition generate_batch_or_mock ::
  "(string \<Rightarrow> (string, json) result) \<Rightarrow> (nat \<Rightarrow> nat \<Rightarrow> nat) \<Rightarrow> LlmClient \<Rightarrow> string \<Rightarrow> string \<Rightarrow> nat
     \<Rightarrow> Question list option" where
  "generate_batch_or_mock from_str bytes llm lvl cat cnt =
     map_option (take cnt)
       (top_up cnt 0 (case generate_batch from_str bytes llm lvl cat cnt of Inr qs \<Rightarrow> qs | Inl _ \<Rightarrow> []))"


section \<open>The shuffle\<close>

lemma mset_swap_at: "i < length xs \<Longrightarrow> j < length xs \<Longrightarrow> mset (swap_at xs i j) = mset xs"
  by (simp add: swap_at_def mset_update nth_list_update)

lemma length_swap_at [simp]: "length (swap_at xs i j) = length xs"
  by (simp add: swap_at_def)

lemma shuffle_permutes: "mset (shuffle_order bytes order) = mset order"
proof -
  have "mset (fold (\<lambda>i ord. swap_at ord i (bytes i mod (i + 1))) is ord) = mset ord"
    if "\<forall>i \<in> set is. i < length ord" for "is" and ord :: "nat list"
    using that
  proof (induction "is" arbitrary: ord)
    case (Cons i "is")
    have "bytes i mod (i + 1) < i + 1" by (rule mod_less_divisor) simp
    moreover have "i + 1 \<le> length ord" using Cons.prems by simp
    ultimately have "bytes i mod (i + 1) < length ord" by (rule less_le_trans)
    then have "mset (swap_at ord i (bytes i mod (i + 1))) = mset ord"
      using Cons.prems by (intro mset_swap_at) simp_all
    then show ?case using Cons.IH [of "swap_at ord i (bytes i mod (i + 1))"] Cons.prems by simp
  qed simp
  then show ?thesis by (simp add: shuffle_order_def)
qed

lemma position_Some:
  assumes "x \<in> set xs"
  obtains i where "position (\<lambda>y. y = x) xs = Some i" "i < length xs" "xs ! i = x"
proof -
  obtain j where j: "j < length xs" "xs ! j = x" using assms by (auto simp: in_set_conv_nth)
  obtain i where i: "position (\<lambda>y. y = x) xs = Some i"
    using j by (cases "position (\<lambda>y. y = x) xs") (auto simp: position_def find_None_iff)
  then have "i < length xs \<and> xs ! i = x"
    unfolding position_def find_Some_iff by auto
  then show thesis using that i by blast
qed

section \<open>What an answer of the model becomes\<close>

text \<open>The first correct answer, by its definition.\<close>

definition first_correct :: "json list \<Rightarrow> nat \<Rightarrow> bool" where
  "first_correct ans i \<longleftrightarrow> i < length ans \<and> is_correct (ans ! i) \<and> (\<forall>j < i. \<not> is_correct (ans ! j))"

lemma find_map_list: "find P (map f xs) = map_option f (find (P \<circ> f) xs)"
  by (induction xs) auto

lemma read_answers_spec:
  "read_answers i ans cs c = Inr (cs', c') \<longleftrightarrow>
     (\<exists>ts. map (\<lambda>a. as_str (json_index a ''text'')) ans = map Some ts \<and> cs' = cs @ ts)
     \<and> c' = (if c = None then map_option ((+) i) (position is_correct ans) else c)"
proof (induction ans arbitrary: i cs c)
  case Nil
  then show ?case by (auto simp: position_def)
next
  case (Cons a ans)
  have p: "position is_correct (a # ans) = (if is_correct a then Some 0 else map_option Suc (position is_correct ans))"
  proof -
    have "find (\<lambda>i. is_correct ((a # ans) ! i)) (map Suc [0..<length ans])
        = map_option Suc (find (\<lambda>i. is_correct (ans ! i)) [0..<length ans])" for ans a
      by (simp add: find_map_list comp_def)
    then show ?thesis
      unfolding position_def by (simp add: upt_conv_Cons map_Suc_upt [symmetric] del: upt_Suc)
  qed
  show ?case
    by (cases "as_str (json_index a ''text'')")
       (auto simp: Cons.IH p option.map_comp comp_def map_eq_Cons_conv intro!: option.map_cong split: if_splits)
qed

lemma position_first: "position is_correct ans = Some i \<longleftrightarrow> first_correct ans i"
  by (auto simp: position_def first_correct_def find_Some_iff)

lemma parse_question_value_spec:
  "parse_question_value bytes v = Inr q \<longleftrightarrow>
     (\<exists>txt ans ts i. as_str (json_index v ''question'') = Some txt \<and> as_array (json_index v ''answers'') = Some ans
        \<and> length ans = 4 \<and> map (\<lambda>a. as_str (json_index a ''text'')) ans = map Some ts \<and> first_correct ans i
        \<and> q = \<lparr>q_text = txt, q_choices = map ((!) ts) (shuffle_order bytes [0, 1, 2, 3]),
               answer_index = the (position (\<lambda>j. j = i) (shuffle_order bytes [0, 1, 2, 3]))\<rparr>)"
proof -
  have r: "read_answers 0 ans [] None = Inr (ts, Some i) \<longleftrightarrow>
      map (\<lambda>a. as_str (json_index a ''text'')) ans = map Some ts \<and> first_correct ans i" for ans ts i
    unfolding position_first [symmetric] by (cases "position is_correct ans") (auto simp: read_answers_spec)
  have "parse_question_value bytes v = Inr q \<longleftrightarrow>
     (\<exists>txt ans ts i. as_str (json_index v ''question'') = Some txt \<and> as_array (json_index v ''answers'') = Some ans
        \<and> length ans = 4 \<and> read_answers 0 ans [] None = Inr (ts, Some i)
        \<and> q = \<lparr>q_text = txt, q_choices = map ((!) ts) (shuffle_order bytes [0, 1, 2, 3]),
               answer_index = the (position (\<lambda>j. j = i) (shuffle_order bytes [0, 1, 2, 3]))\<rparr>)"
    unfolding parse_question_value_def Let_def by (auto split: option.splits sum.splits prod.splits)
  then show ?thesis unfolding r by blast
qed

lemma shuffled_choices:
  fixes bytes :: "nat \<Rightarrow> nat"
  assumes "length ts = 4" and "i < 4"
  defines "ord \<equiv> shuffle_order bytes [0, 1, 2, 3]"
  shows "mset (map ((!) ts) ord) = mset ts" and "the (position (\<lambda>j. j = i) ord) < 4"
    and "map ((!) ts) ord ! the (position (\<lambda>j. j = i) ord) = ts ! i"
proof -
  have m: "mset ord = mset [0, 1, 2, 3]" unfolding ord_def by (rule shuffle_permutes)
  have "map ((!) ts) [0, 1, 2, 3] = ts"
    using assms(1) by (intro nth_equalityI) (auto simp: less_Suc_eq numeral_eq_Suc)
  then show "mset (map ((!) ts) ord) = mset ts" using m by (metis mset_map)
  have "length ord = 4" using mset_eq_length [OF m] by simp
  moreover have "i \<in> set ord" using mset_eq_setD [OF m] assms(2) by (auto simp: less_Suc_eq numeral_eq_Suc)
  then obtain k where "position (\<lambda>j. j = i) ord = Some k" "k < length ord" "ord ! k = i" by (rule position_Some)
  ultimately show "the (position (\<lambda>j. j = i) ord) < 4" "map ((!) ts) ord ! the (position (\<lambda>j. j = i) ord) = ts ! i"
    by simp_all
qed

lemma parsed_question:
  assumes "parse_question_value bytes v = Inr q"
  shows "\<exists>ans ts i. as_str (json_index v ''question'') = Some (q_text q) \<and> as_array (json_index v ''answers'') = Some ans
    \<and> map (\<lambda>a. as_str (json_index a ''text'')) ans = map Some ts \<and> first_correct ans i
    \<and> mset (q_choices q) = mset ts \<and> answer_index q < 4 \<and> q_choices q ! answer_index q = ts ! i \<and> length ts = 4"
proof -
  obtain t ans ts i where q: "as_str (json_index v ''question'') = Some t"
    "as_array (json_index v ''answers'') = Some ans" "length ans = 4"
    "map (\<lambda>a. as_str (json_index a ''text'')) ans = map Some ts" "first_correct ans i"
    "q = \<lparr>q_text = t, q_choices = map ((!) ts) (shuffle_order bytes [0, 1, 2, 3]),
          answer_index = the (position (\<lambda>j. j = i) (shuffle_order bytes [0, 1, 2, 3]))\<rparr>"
    using assms unfolding parse_question_value_spec by blast
  have "length ts = 4" using q(3,4) by (metis length_map)
  moreover have "i < 4" using q(3,5) by (simp add: first_correct_def)
  ultimately show ?thesis
    using q shuffled_choices [of ts i bytes]
    by (intro exI [of _ ans] exI [of _ ts] exI [of _ i]) simp
qed

text \<open>
  C39. A question read from an answer of the model is the question that was written. Reading
  succeeds exactly when there is a question text, there are four answers with a text each,
  and some answer is marked as correct. Whatever the random bytes, the choices are then the
  four texts in some order, and the answer index is the place to which the first answer that
  is marked as correct has gone.
\<close>

theorem parsed_question_sound:
  "((\<exists>q. parse_question_value bytes v = Inr q) \<longleftrightarrow>
     (\<exists>txt ans ts i. as_str (json_index v ''question'') = Some txt \<and> as_array (json_index v ''answers'') = Some ans
        \<and> length ans = 4 \<and> map (\<lambda>a. as_str (json_index a ''text'')) ans = map Some ts \<and> first_correct ans i))
   \<and> (\<forall>q. parse_question_value bytes v = Inr q \<longrightarrow>
     (\<exists>ans ts i. as_str (json_index v ''question'') = Some (q_text q) \<and> as_array (json_index v ''answers'') = Some ans
        \<and> map (\<lambda>a. as_str (json_index a ''text'')) ans = map Some ts \<and> first_correct ans i
        \<and> mset (q_choices q) = mset ts \<and> answer_index q < 4 \<and> q_choices q ! answer_index q = ts ! i))"
  using parsed_question [of bytes v] unfolding parse_question_value_spec by blast

text \<open>Four answers, the third one correct, and bytes that move it to the front.\<close>

definition sample_answer :: json where
  "sample_answer = JObj [(''answers'', JArr [JObj [(''text'', JStr ''a'')], JObj [(''text'', JStr ''b'')],
       JObj [(''is_correct'', JBool True), (''text'', JStr ''c'')], JObj [(''text'', JStr ''d'')]]),
     (''question'', JStr ''why?'')]"

theorem parsed_question_sound_witness:
  "\<exists>q. parse_question_value (\<lambda>i. 0) sample_answer = Inr q \<and> answer_index q < 4"
proof -
  have "as_str (json_index sample_answer ''question'') = Some ''why?''
    \<and> as_array (json_index sample_answer ''answers'') = Some [JObj [(''text'', JStr ''a'')], JObj [(''text'', JStr ''b'')],
       JObj [(''is_correct'', JBool True), (''text'', JStr ''c'')], JObj [(''text'', JStr ''d'')]]
    \<and> length [JObj [(''text'', JStr ''a'')], JObj [(''text'', JStr ''b'')],
       JObj [(''is_correct'', JBool True), (''text'', JStr ''c'')], JObj [(''text'', JStr ''d'')]] = 4
    \<and> map (\<lambda>a. as_str (json_index a ''text'')) [JObj [(''text'', JStr ''a'')], JObj [(''text'', JStr ''b'')],
       JObj [(''is_correct'', JBool True), (''text'', JStr ''c'')], JObj [(''text'', JStr ''d'')]]
      = map Some [''a'', ''b'', ''c'', ''d'']
    \<and> first_correct [JObj [(''text'', JStr ''a'')], JObj [(''text'', JStr ''b'')],
       JObj [(''is_correct'', JBool True), (''text'', JStr ''c'')], JObj [(''text'', JStr ''d'')]] 2"
    by (auto simp: sample_answer_def json_index_def first_correct_def is_correct_def less_Suc_eq numeral_eq_Suc)
  then show ?thesis using parsed_question_sound [of "\<lambda>i. 0" sample_answer] by blast
qed

section \<open>Enough questions\<close>

lemma parse_all_ok: "parse_all bytes n vs = Inr qs \<Longrightarrow> q \<in> set qs \<Longrightarrow> \<exists>b v. parse_question_value b v = Inr q"
proof (induction vs arbitrary: n qs)
  case (Cons v vs)
  then show ?case by (auto split: sum.splits simp: map_sum_def) blast+
qed simp

lemma bank_size: "length question_bank = 8"
  by (simp add: question_bank_def)

lemma bank_distinct: "distinct (map fst question_bank)"
  by (simp add: question_bank_def)

lemma mock_text: "q_text (mock_question n) = fst (question_bank ! (n mod 8))"
  by (simp add: mock_question_def bank_size split_def)

lemma bank_texts: "card ((\<lambda>n. q_text (mock_question n)) ` {..<8}) = 8"
proof -
  have "inj_on (\<lambda>n. q_text (mock_question n)) {..<8}"
    using bank_distinct by (auto simp: inj_on_def mock_text distinct_conv_nth bank_size)
  then show ?thesis by (simp add: card_image)
qed

lemma mock_in_bank: "q_text (mock_question n) \<in> (\<lambda>n. q_text (mock_question n)) ` {..<8}"
  by (auto simp: mock_text image_iff intro!: bexI [of _ "n mod 8"])

text \<open>
  Filling up ends for at most eight questions, as many as the bank has: after one turn through
  the bank each of its texts is there.
\<close>

lemma top_up_returns:
  assumes "\<forall>n < seed. q_text (mock_question n) \<in> q_text ` set qs" and "seed \<le> 8" and "cnt \<le> 8"
  shows "\<exists>rs. top_up cnt seed qs = Some rs \<and> cnt \<le> length rs \<and> (\<forall>r \<in> set rs. r \<in> set qs \<or> (\<exists>n. r = mock_question n))"
  using assms
proof (induction "8 - seed" arbitrary: seed qs)
  case 0
  then have "(\<lambda>n. q_text (mock_question n)) ` {..<8} \<subseteq> q_text ` set qs" by auto
  then have "8 \<le> card (q_text ` set qs)" using bank_texts card_mono [of "q_text ` set qs"] by (metis finite_imageI finite_set)
  also have "\<dots> \<le> length qs" by (rule le_trans [OF card_image_le card_length]) simp
  finally show ?case using 0 by (subst top_up.simps) auto
next
  case (Suc k)
  show ?case
  proof (cases "length qs < cnt")
    case True
    define qs' where "qs' = (if list_ex (\<lambda>r. q_text r = q_text (mock_question seed)) qs then qs else qs @ [mock_question seed])"
    have "\<forall>n < Suc seed. q_text (mock_question n) \<in> q_text ` set qs'"
      using Suc.prems(1) by (auto simp: qs'_def less_Suc_eq list_ex_iff image_iff) metis+
    moreover have "\<forall>r \<in> set qs'. r \<in> set qs \<or> (\<exists>n. r = mock_question n)" by (auto simp: qs'_def)
    moreover have "top_up cnt seed qs = top_up cnt (Suc seed) qs'"
      using True by (subst top_up.simps) (simp add: qs'_def Let_def)
    ultimately show ?thesis using Suc.hyps(1) [of "Suc seed" qs'] Suc.hyps(2) Suc.prems(3) by fastforce
  next
    case False
    then show ?thesis by (subst top_up.simps) auto
  qed
qed

text \<open>It does not end for more, if the model yields nothing.\<close>

lemma top_up_diverges:
  assumes "8 < cnt"
  shows "top_up cnt 0 [] = None"
proof -
  have "distinct (map q_text qs) \<longrightarrow> q_text ` set qs \<subseteq> (\<lambda>n. q_text (mock_question n)) ` {..<8} \<longrightarrow> cnt' \<le> 8"
    if "top_up cnt' seed qs = Some rs" for cnt' seed qs rs
  proof (rule top_up.raw_induct [OF _ that], intro impI)
    fix f cnt' seed qs rs
    assume ih: "\<And>cnt' seed qs rs. f cnt' seed qs = Some rs \<Longrightarrow>
        distinct (map q_text qs) \<longrightarrow> q_text ` set qs \<subseteq> (\<lambda>n. q_text (mock_question n)) ` {..<8} \<longrightarrow> cnt' \<le> 8"
      and f: "(if length qs < cnt'
         then (let q = mock_question seed
               in f cnt' (seed + 1) (if list_ex (\<lambda>r. q_text r = q_text q) qs then qs else qs @ [q]))
         else Some qs) = Some rs"
      and qs: "distinct (map q_text qs)" "q_text ` set qs \<subseteq> (\<lambda>n. q_text (mock_question n)) ` {..<8}"
    have "length qs = card (q_text ` set qs)" using qs(1) by (metis distinct_card length_map list.set_map)
    also have "\<dots> \<le> 8" using card_mono [OF _ qs(2)] bank_texts by simp
    finally have "length qs \<le> 8" .
    then show "cnt' \<le> 8"
      using ih [of cnt' "seed + 1" "if list_ex (\<lambda>r. q_text r = q_text (mock_question seed)) qs then qs else qs @ [mock_question seed]" rs]
        f qs mock_in_bank [of seed] by (auto simp: Let_def list_ex_iff split: if_splits)
  qed
  then show ?thesis using assms by (cases "top_up cnt 0 []") force+
qed

definition playable :: "Question \<Rightarrow> bool" where
  "playable q \<longleftrightarrow> length (q_choices q) = 4 \<and> answer_index q < 4"

lemma mock_playable: "playable (mock_question n)"
proof -
  have "\<forall>(t, cs, k) \<in> set question_bank. length cs = 4 \<and> k < 4" by (simp add: question_bank_def)
  moreover have "question_bank ! (n mod 8) \<in> set question_bank" by (rule nth_mem) (simp add: bank_size)
  ultimately show ?thesis
    by (cases "question_bank ! (n mod 8)") (fastforce simp: mock_question_def playable_def bank_size)
qed

lemma parsed_playable: "parse_question_value b v = Inr q \<Longrightarrow> playable q"
  using parsed_question [of b v q] by (auto simp: playable_def dest: mset_eq_length)

lemma generated_playable: "generate_batch from_str bytes llm lvl cat cnt = Inr qs \<Longrightarrow> \<forall>q \<in> set qs. playable q"
  using parse_all_ok parsed_playable
  by (force simp: generate_batch_def parse_question_batch_def simp del: parse_all.simps
      split: sum.splits if_splits option.splits list.splits)

text \<open>A game always gets its questions, each with four choices and an answer among them.\<close>

lemma batch_is_complete:
  assumes "cnt \<le> 8"
  shows "\<exists>qs. generate_batch_or_mock from_str bytes llm lvl cat cnt = Some qs \<and> length qs = cnt \<and> list_all playable qs"
proof -
  define start where "start = (case generate_batch from_str bytes llm lvl cat cnt of Inr qs \<Rightarrow> qs | Inl _ \<Rightarrow> [])"
  have start: "\<forall>q \<in> set start. playable q"
    by (cases "generate_batch from_str bytes llm lvl cat cnt") (auto simp: start_def dest: generated_playable)
  obtain rs where "top_up cnt 0 start = Some rs" "cnt \<le> length rs" "\<forall>r \<in> set rs. r \<in> set start \<or> (\<exists>n. r = mock_question n)"
    using top_up_returns [of 0 start cnt] assms by auto
  then show ?thesis
    using start mock_playable
    by (auto simp: generate_batch_or_mock_def start_def [symmetric] list_all_iff dest!: in_set_takeD)
qed

lemma game_batch_complete:
  "\<exists>qs. generate_batch_or_mock from_str bytes llm lvl cat TOTAL_ROUNDS = Some qs \<and> length qs = TOTAL_ROUNDS \<and> list_all playable qs"
  by (rule batch_is_complete) (simp add: TOTAL_ROUNDS_def)

end
