(* ===== verification/Chat_Room.thy ===== *)
theory Chat_Room
  imports Trivia
begin

text \<open>
  The global chat room of the trivia demo, \<^verbatim>\<open>demos/trivia/server/src/chat.rs\<close>, and the
  subscriber of \<^verbatim>\<open>main.rs\<close> that announces new games in it. The message history is
  internal to the room: a joining client is sent the last fifty messages once. The room has
  no synchronised state.
\<close>

definition MAX_MESSAGES :: nat where "MAX_MESSAGES = 50"
definition CHAT_MAX_CLIENTS :: nat where "CHAT_MAX_CLIENTS = 500"

record ChatMessage =
  cm_from :: string
  cm_text :: string
  cm_at :: millis
  cm_kind :: string
  cm_room_id :: "string option"

definition chat_message_ser :: "ChatMessage \<Rightarrow> json" where
  "chat_message_ser msg = JObj [(''at'', jnat (cm_at msg)), (''from'', JStr (cm_from msg)), (''kind'', JStr (cm_kind msg)),
     (''roomId'', json_option JStr (cm_room_id msg)), (''text'', JStr (cm_text msg))]"

text \<open>The slot shared with the rest of the server holds the id of the room whose queue it feeds.\<close>

record ChatRoom =
  chat_handle :: "string option"
  messages :: "ChatMessage list"

datatype ChatHandler = ChatSay | SystemMessage string "string option"

type_synonym chat_room = "(ChatRoom, unit, unit, ChatHandler) room"

definition chat_room_new :: ChatRoom where
  "chat_room_new = \<lparr>chat_handle = None, messages = []\<rparr>"

text \<open>The loop that drops messages from the front.\<close>

fun pop_front :: "ChatMessage list \<Rightarrow> ChatMessage list" where
  "pop_front [] = []"
| "pop_front (x # xs) = (if MAX_MESSAGES < length (x # xs) then pop_front xs else x # xs)"

definition chat_push :: "ChatMessage \<Rightarrow> ChatRoom \<Rightarrow> ChatRoom" where
  "chat_push msg r = r\<lparr>messages := pop_front (messages r @ [msg])\<rparr>"

text \<open>Remembering a message and broadcasting it.\<close>

definition chat_post :: "ChatMessage \<Rightarrow> chat_room \<Rightarrow> chat_room" where
  "chat_post msg rm = (chat_push msg (fst rm), broadcast (Str ''chat'') (chat_message_ser msg) (snd rm))"

definition system_message :: "string \<Rightarrow> string option \<Rightarrow> chat_room \<Rightarrow> chat_room" where
  "system_message t rid rm =
     chat_post \<lparr>cm_from = ''system'', cm_text = t, cm_at = wall (snd rm), cm_kind = ''system'', cm_room_id = rid\<rparr> rm"

definition chat_say :: "cref \<Rightarrow> string \<Rightarrow> chat_room \<Rightarrow> chat_room" where
  "chat_say c t rm =
     (let s = take_chars 300 (str_trim t)
      in if s = [] then rm
         else
           let from = (case auth_field (client_auth (store (snd rm) c)) ''name'' of Some n \<Rightarrow> n | None \<Rightarrow> ''???'')
           in chat_post \<lparr>cm_from = from, cm_text = s, cm_at = wall (snd rm), cm_kind = ''chat'', cm_room_id = None\<rparr> rm)"

definition chat_on_create :: "json \<Rightarrow> chat_room \<Rightarrow> (ServerError, unit) result \<times> chat_room" where
  "chat_on_create options rm =
     (Inr (), ((fst rm)\<lparr>chat_handle := Some (room_id (snd rm))\<rparr>,
        on_message (Str ''chat'') ChatSay (set_max_clients (Some CHAT_MAX_CLIENTS) ((snd rm)\<lparr>auto_dispose := False\<rparr>))))"

definition chat_on_auth ::
  "(string \<Rightarrow> (string \<times> string) option) \<Rightarrow> json \<Rightarrow> AuthContext \<Rightarrow> chat_room
     \<Rightarrow> (ServerError, json option) result \<times> chat_room" where
  "chat_on_auth decode options auth rm = (map_sum id Some (authenticate decode auth), rm)"

definition chat_on_join ::
  "cref \<Rightarrow> json \<Rightarrow> json option \<Rightarrow> chat_room \<Rightarrow> (ServerError, unit) result \<times> chat_room" where
  "chat_on_join c options auth rm =
     (Inr (), on_ctx (client_send c (Str ''history'') (JArr (map chat_message_ser (messages (fst rm)))) default_send_options) rm)"

definition chat_msg_run ::
  "ChatHandler \<Rightarrow> cref \<Rightarrow> json \<Rightarrow> chat_room \<Rightarrow> (ServerError, unit) result \<times> chat_room" where
  "chat_msg_run h c payload rm =
     (Inr (), case (h, as_str payload) of (ChatSay, Some t) \<Rightarrow> chat_say c t rm | _ \<Rightarrow> rm)"

definition chat_command_run :: "ChatHandler \<Rightarrow> chat_room \<Rightarrow> chat_room" where
  "chat_command_run h rm = (case h of SystemMessage t rid \<Rightarrow> system_message t rid rm | ChatSay \<Rightarrow> rm)"

definition chat_hooks ::
  "(string \<Rightarrow> (string \<times> string) option) \<Rightarrow> (json \<Rightarrow> (string, string) result)
     \<Rightarrow> (ChatRoom, unit, unit, ChatHandler) RoomHooks" where
  "chat_hooks decode chat_msg =
     default_hooks\<lparr>on_create := chat_on_create, on_auth := chat_on_auth decode, on_join := chat_on_join,
       msg_decode := (\<lambda>h v. map_sum id JStr (chat_msg v)),
       msg_run := chat_msg_run, command_run := chat_command_run\<rparr>"

section \<open>Announcements\<close>

definition game_pad :: string where
  "game_pad = [CHR 0xF0, CHR 0x9F, CHR 0x8E, CHR 0xAE]"

definition extra_text :: "string \<Rightarrow> string \<Rightarrow> RoomListing \<Rightarrow> string" where
  "extra_text k dflt l = (case Option.bind (map_of (l_extra l) k) as_str of Some s \<Rightarrow> s | None \<Rightarrow> dflt)"

text \<open>
  What the subscriber sends, to which room, for an event: \<open>handle\<close> is the shared slot, \<open>d\<close>
  the driver after the wait of 750 milliseconds.
\<close>

definition announcement ::
  "string option \<Rightarrow> LocalDriver \<Rightarrow> MatchmakerEvent \<Rightarrow> (string \<times> ChatHandler) option" where
  "announcement handle d ev =
     (case ev of
        RoomCreated l \<Rightarrow>
          if l_name l \<noteq> ''trivia'' then None
          else (case handle of
            None \<Rightarrow> None
          | Some room \<Rightarrow>
              if driver_get (l_room_id l) d = None then None
              else Some (room, SystemMessage
                (game_pad @ '' new game: '' @ extra_text ''category'' ''genel'' l @ '' ('' @ extra_text ''difficulty'' ''easy'' l @ '')'')
                (Some (l_room_id l))))
      | _ \<Rightarrow> None)"

section \<open>The contract of room types\<close>

lemma wf_chat_message [simp]: "wf_json (chat_message_ser msg)"
  by (auto simp: chat_message_ser_def wf_obj_def sorted_map_def)

lemmas chat_defs = chat_on_create_def chat_on_auth_def chat_on_join_def chat_msg_run_def chat_command_run_def
  chat_say_def system_message_def chat_post_def

interpretation chat: room_type "chat_hooks decode chat_msg" for decode chat_msg
  by unfold_locales
    (auto simp: chat_hooks_def default_hooks_def chat_defs on_ctx_def Let_def
      intro!: api_rules split: option.split ChatHandler.split)

section \<open>The history\<close>

lemma pop_front_drop: "pop_front ms = drop (length ms - MAX_MESSAGES) ms"
  by (induction ms) (auto simp: Suc_diff_le)

text \<open>The history is what was said last, at most fifty messages, whatever the room is asked to do.\<close>

definition history_ok :: "ChatRoom \<Rightarrow> bool" where
  "history_ok r \<longleftrightarrow> length (messages r) \<le> MAX_MESSAGES"

lemma history_push: "messages (chat_push msg r) = drop (length (messages r) + 1 - MAX_MESSAGES) (messages r @ [msg])"
  by (simp add: chat_push_def pop_front_drop)

lemma history_bounded:
  assumes "history_ok (fst rm)"
  shows "history_ok (fst (snd (msg_run (chat_hooks decode cm) h c payload rm)))"
    and "history_ok (fst (command_run (chat_hooks decode cm) h rm))"
    and "history_ok (fst (snd (on_create (chat_hooks decode cm) options rm)))"
    and "history_ok (fst (snd (on_join (chat_hooks decode cm) c options auth rm)))"
  using assms
  by (auto simp: chat_hooks_def chat_defs history_ok_def on_ctx_def Let_def history_push MAX_MESSAGES_def
      split: option.split ChatHandler.split)

end
