(* ===== verification/Spec2Isabelle.thy ===== *)
theory Spec2Isabelle
  imports Roster Hazards Admin Tictactoe Trivia_Secret Questions Chat_Room
begin

text \<open>
  This development models colyseus-rs, a game server that hosts rooms with a synchronised
  state: the server crate \<^verbatim>\<open>crates/colyseus/src\<close> and the two demo servers
  \<^verbatim>\<open>demos/tictactoe/server/src\<close> and \<^verbatim>\<open>demos/trivia/server/src\<close>.

  \<^bold>\<open>How the program works.\<close> A client asks over HTTP for a seat. The matchmaker finds a
  fitting listing in the driver, or creates a room, and asks the actor of the room to reserve
  the seat. The client connects with the session id of the seat; the connection task turns
  its frames into events of the room's mailbox. The actor serves one event, tick or deadline
  at a time, running the hooks of the room type, which change the room through the room
  context. At each patch tick the context sends every joined client the difference between
  the state it last sent and the state now, as a JSON Patch. Rooms are saved as snapshots and
  restored at start-up. An admin interface inspects, edits and commands the rooms.

  \<^bold>\<open>Theories and sources.\<close>
  \<^item> \<open>Prelude\<close>, \<open>Text\<close>, \<open>Json\<close>: results, ordered maps, the string and number functions of
    the standard library, JSON values as \<^verbatim>\<open>serde_json\<close> has them.
  \<^item> \<open>Json_Patch\<close>: RFC 6901 and RFC 6902 as a client applies them. It is the specification of
    \<open>Diff\<close> (\<^verbatim>\<open>diff.rs\<close>) and, with it, of \<open>State_Sync\<close> (\<^verbatim>\<open>state.rs\<close>).
  \<^item> \<open>Errors\<close> (\<^verbatim>\<open>error.rs\<close>, \<^verbatim>\<open>utils.rs\<close>), \<open>Protocol\<close>
    (\<^verbatim>\<open>protocol.rs\<close>), \<open>Client\<close> (\<^verbatim>\<open>client.rs\<close>), \<open>Driver\<close>
    (\<^verbatim>\<open>driver.rs\<close>), \<open>Presence\<close> (\<^verbatim>\<open>presence.rs\<close>), \<open>Snapshot\<close>
    (\<^verbatim>\<open>snapshot.rs\<close>).
  \<^item> \<open>Room\<close> (\<^verbatim>\<open>room.rs\<close>) and \<open>Actor\<close> (\<^verbatim>\<open>actor.rs\<close>): the room context
    with all its operations, and the actor with every event, tick and deadline, spawning,
    restoring and disposal. \<open>Frames\<close> says what each operation leaves alone; \<open>Sync\<close> relates
    the frames sent to the replicas of the clients; \<open>Room_Api\<close>, \<open>Room_Inv\<close>, \<open>Room_Reach\<close> and
    \<open>Room_Life\<close> carry the invariant through every reachable state; \<open>Roster\<close> is the abstract
    machine of seats and sessions that the actor refines; \<open>Departures\<close> is about kicked
    clients, \<open>Hazards\<close> about sessions that are taken over and a deadline that stays due.
  \<^item> \<open>Registry\<close>, \<open>Matchmaker\<close>, \<open>Replay\<close> (\<^verbatim>\<open>matchmaker.rs\<close>): registered room types, all
    operations of the matchmaker, the cache of replies. \<open>Matching\<close> says what is found, \<open>World\<close>
    keeps the invariant of the whole process, \<open>Requests\<close> says how requests end and what a
    reservation promises.
  \<^item> \<open>Server\<close> (\<^verbatim>\<open>server.rs\<close>): HTTP handlers and the connection task. \<open>Admin_Rpc\<close>
    (\<^verbatim>\<open>admin_rpc.rs\<close>) and \<open>Admin\<close> (\<^verbatim>\<open>admin/mod.rs\<close>): the admin interface.
  \<^item> \<open>Command\<close> (\<^verbatim>\<open>command.rs\<close>): the dispatcher of the command pattern. \<open>Room_Rules\<close>
    has the rules the concrete rooms share.
  \<^item> \<open>Tictactoe\<close>: the tic-tac-toe room. \<open>Trivia_Commands\<close> and \<open>Trivia\<close>
    (\<^verbatim>\<open>commands/*.rs\<close>, \<^verbatim>\<open>room.rs\<close>, \<^verbatim>\<open>state.rs\<close>,
    \<^verbatim>\<open>auth.rs\<close>): the trivia room, with \<open>Trivia_Game\<close> for its rules and \<open>Trivia_Secret\<close>
    for what it hides. \<open>Questions\<close> (\<^verbatim>\<open>llm.rs\<close>): the questions. \<open>Chat_Room\<close>
    (\<^verbatim>\<open>chat.rs\<close>, \<^verbatim>\<open>main.rs\<close>): the global chat and its announcements.

  \<^bold>\<open>State and operations.\<close> A struct is a record with the fields of the source, an enum a
  datatype, a method a function that returns the state updated. A room value and its context
  travel as a pair. Client handles are addresses into a store, because a room, its mailbox,
  its reconnection entries and the connection tasks share them. A closure (message handler,
  timer, command, RPC) is a label of the type \<open>'h\<close>, and the record \<open>RoomHooks\<close> gives the
  behaviour of the labels together with the methods of the trait. A channel is the list of
  what was put on it; the one-shot channel of a request is the result of the function. What
  the process lends to a room (driver, presence, lobby channel, clients, clock) is part of
  the context; \<open>lend\<close> and \<open>reclaim\<close> of \<open>Matchmaker\<close> pass it in and out. At an await other
  tasks run: \<open>meanwhile\<close> of the record \<open>Surroundings\<close> is any change of the process, and
  \<open>rpc_late\<close> decides which answers come too late. Numbers that are bounded by a type of the
  source are natural numbers or integers, except where the width matters (message type
  numbers, protocol bytes, checksums, which are words).

  \<^bold>\<open>What the lemmas show.\<close> The patches of the diff engine and of whole patch ticks bring every
  replica to the state of the room, and the array diff is minimal. Queries page through the
  listings without loss, and the sort is stable. Messages of a connection arrive once and in
  order. Snapshots survive any failure of the file system. Every state that a room or the
  process reaches is well formed, for any room type that keeps the contract \<open>room_type\<close>; the
  demo rooms keep it. Requests end after a bounded number of attempts, a reservation names a
  room that runs and holds the seat, and no room exceeds its capacity. The admin interface
  serves nobody without the token. The rules of both games hold in every state, and the
  trivia room never shows an answer early. Theorems of kind error state what goes wrong where
  the code misbehaves.

  \<^bold>\<open>Interfaces.\<close> The driver, the presence store, the snapshot store, the room types, the
  searches of the matchmaker, the command systems and the RPC handlers are locales; each is
  interpreted on the definitions that provide it.

  \<^bold>\<open>Bounds.\<close> Loops of the source are recursions that are proved to end, with no fuel. The loops
  that may run for ever are partial functions: draining commands (\<open>Command.drain\<close>) and filling
  up a batch of questions (\<open>Questions.top_up\<close>, which ends for up to eight questions and is
  shown to diverge beyond them when the model gives none). The constants are those of the
  source: three attempts of a request, 30 seconds and 1024 entries of a reply cache, 8192
  cells of the diff table, 256 messages of a presence channel, 200 listings of a public and
  1000 of an admin query.

  \<^bold>\<open>Parameters.\<close> MessagePack, the JSON parser, the derived deserializers, the rendering of
  floats, the checksum, the file system with its failures, token verification, the language
  model, random ids and bytes and both clocks are arguments of the definitions that use them.
  The hypotheses about them are documented behaviour (a decoder inverts its encoder) and each
  theorem that has one has a witness with a concrete function.

  \<^bold>\<open>Not modelled.\<close> Sockets, TLS, HTTP routing and extraction, CORS and logging (crates
  \<^verbatim>\<open>axum\<close>, \<^verbatim>\<open>tokio\<close>, \<^verbatim>\<open>tracing\<close>); the order in which tasks are
  scheduled, beyond that it is arbitrary; the main functions (environment variables, process
  start and signals); the task that pushes finished games to Redis
  (\<^verbatim>\<open>results.rs\<close>); the crate root; examples and benchmarks; the TypeScript clients and
  browser pages, whose contract with the server is \<open>Json_Patch\<close>. Trimming removes the white
  space of ASCII; Unicode spaces are not treated. Timestamps and counters are assumed not to
  reach the end of their 64-bit types.
\<close>

section \<open>The demo servers\<close>


end
